(* ===== verification/Prelude.thy ===== *)
theory Prelude
  imports Main "HOL-Library.State_Monad" "HOL-Library.List_Lexorder" "HOL-Library.Char_ord"
    "HOL-Library.AList"
begin

text \<open>
  Shared vocabulary of the development: Go errors and results, the parts of the Go packages
  \<^verbatim>\<open>errors\<close>, \<^verbatim>\<open>strings\<close> and \<^verbatim>\<open>strconv\<close> that the program uses, Go maps as association
  lists, effectful code as a state monad with a weakest-precondition calculus, and the wrapper
  that records every external call of a component in a trace.

  Go strings are byte strings, which is what \<^typ>\<open>string\<close> is: a list of 8-bit characters, ordered
  bytewise by the orders of \<open>List_Lexorder\<close> and \<open>Char_ord\<close>, as Go compares strings.
\<close>

named_theorems wp_simps \<open>weakest preconditions of the monadic operations\<close>
named_theorems go_defs \<open>unfoldings of small Go helpers\<close>
named_theorems spec_iff \<open>characterisations of checks by what they mean\<close>

section \<open>Go errors\<close>

text \<open>
  An error value is what \<^verbatim>\<open>fmt.Errorf\<close> or \<^verbatim>\<open>errors.New\<close> built: the format string of the source,
  its arguments, and the errors it wraps (those printed with the verb \<^verbatim>\<open>%w\<close>). An error printed
  with \<^verbatim>\<open>%v\<close> is an argument and is not wrapped. A sentinel (\<^verbatim>\<open>errors.New\<close>) has no argument.
\<close>

datatype fmt_arg = Str string | Num int | Strs "string list" | ErrV goerr
  and goerr = Errorf string "fmt_arg list" "goerr list"

type_synonym 'a result = "goerr + 'a"

abbreviation errors_New :: "string \<Rightarrow> goerr" where
  "errors_New msg \<equiv> Errorf msg [] []"

text \<open>\<^verbatim>\<open>errors.Is\<close>: the error or one it wraps, at any depth, is the target.\<close>

fun errors_Is :: "goerr \<Rightarrow> goerr \<Rightarrow> bool" where
  "errors_Is (Errorf f as ws) t = (Errorf f as ws = t \<or> list_ex (\<lambda>e. errors_Is e t) ws)"

lemma errors_Is_refl [simp]: "errors_Is e e"
  by (cases e) simp

lemma errors_Is_wrap: "w \<in> set ws \<Longrightarrow> errors_Is w t \<Longrightarrow> errors_Is (Errorf f as ws) t"
  by (auto simp: list_ex_iff)

text \<open>\<^verbatim>\<open>context.Canceled\<close>, the error of a cancelled context.\<close>

definition context_Canceled :: goerr where
  "context_Canceled = errors_New ''context canceled''"

section \<open>Go strings\<close>

definition HasPrefix :: "string \<Rightarrow> string \<Rightarrow> bool" where [go_defs]:
  "HasPrefix s p = (take (length p) s = p)"

definition TrimPrefix :: "string \<Rightarrow> string \<Rightarrow> string" where [go_defs]:
  "TrimPrefix s p = (if HasPrefix s p then drop (length p) s else s)"

text \<open>\<^verbatim>\<open>strings.Split\<close> with a one-byte separator.\<close>

fun Split :: "string \<Rightarrow> char \<Rightarrow> string list" where
  "Split [] sep = [[]]"
| "Split (c # cs) sep =
     (if c = sep then [] # Split cs sep
      else (case Split cs sep of [] \<Rightarrow> [[c]] | w # ws \<Rightarrow> (c # w) # ws))"

lemma Split_nonempty [simp]: "Split s sep \<noteq> []"
  by (induction s) (auto split: list.splits)

lemma Split_no_sep: "sep \<notin> set s \<Longrightarrow> Split s sep = [s]"
  by (induction s) auto

lemma Split_append:
  "sep \<notin> set a \<Longrightarrow> Split (a @ sep # b) sep = a # Split b sep"
  by (induction a) auto

text \<open>Strings joined by a separator that does not occur in the first part come apart in one way.\<close>

lemma append_sep_inj:
  assumes "a @ c # x = b @ c # y" "c \<notin> set a" "c \<notin> set b"
  shows "a = b \<and> x = y"
proof -
  have "takeWhile (\<lambda>z. z \<noteq> c) (s @ c # z) = s" if "c \<notin> set s" for s z
    using that by (induction s) auto
  then have "a = b" using assms by metis
  then show ?thesis using assms(1) by simp
qed

text \<open>Characters as byte values, decimal digits.\<close>

definition byte :: "char \<Rightarrow> int" where
  "byte c = int (of_char c)"

definition is_digit :: "char \<Rightarrow> bool" where
  "is_digit c = (48 \<le> byte c \<and> byte c \<le> 57)"

definition digit_val :: "char \<Rightarrow> int" where
  "digit_val c = byte c - 48"

definition digit_char :: "int \<Rightarrow> char" where
  "digit_char n = ''0123456789'' ! nat n"

definition digits_val :: "string \<Rightarrow> int" where
  "digits_val s = foldl (\<lambda>n c. 10 * n + digit_val c) 0 s"

lemma byte_digit_char: "0 \<le> n \<Longrightarrow> n \<le> 9 \<Longrightarrow> byte (digit_char n) = n + 48"
proof -
  assume "0 \<le> n" "n \<le> 9"
  then have "n \<in> {0, 1, 2, 3, 4, 5, 6, 7, 8, 9}" by (simp only: insert_iff empty_iff) arith
  then show ?thesis by (auto simp: byte_def digit_char_def)
qed

lemma digit_char_digit [simp]:
  assumes "0 \<le> n" "n \<le> 9"
  shows "is_digit (digit_char n)" and "digit_val (digit_char n) = n"
  using byte_digit_char[OF assms] assms by (simp_all add: is_digit_def digit_val_def)

lemma digits_val_snoc [simp]: "digits_val (s @ [c]) = 10 * digits_val s + digit_val c"
  by (simp add: digits_val_def)

lemma digits_val_Nil [simp]: "digits_val [] = 0"
  by (simp add: digits_val_def)

lemma digit_val_bounds: "is_digit c \<Longrightarrow> 0 \<le> digit_val c \<and> digit_val c \<le> 9"
  by (simp add: is_digit_def digit_val_def)

lemma digits_val_bounds:
  "list_all is_digit s \<Longrightarrow> 0 \<le> digits_val s \<and> digits_val s < 10 ^ length s"
proof (induction s rule: rev_induct)
  case Nil
  then show ?case by simp
next
  case (snoc c s)
  then show ?case using digit_val_bounds[of c] by (auto simp: list_all_iff)
qed

text \<open>
  \<^verbatim>\<open>strconv.Atoi\<close> on a 64-bit platform: an optional sign, then at least one decimal digit and
  nothing else, within the range of \<^verbatim>\<open>int64\<close>.
\<close>

definition split_sign :: "string \<Rightarrow> bool \<times> string" where
  "split_sign s =
     (case s of [] \<Rightarrow> (False, [])
      | c # cs \<Rightarrow> if c = CHR ''-'' then (True, cs) else if c = CHR ''+'' then (False, cs) else (False, s))"

definition Atoi :: "string \<Rightarrow> int result" where
  "Atoi s =
     (let (neg, ds) = split_sign s; n = digits_val ds in
      if ds = [] \<or> \<not> list_all is_digit ds
      then Inl (Errorf ''strconv.Atoi: parsing %q: invalid syntax'' [Str s] [])
      else if (if neg then n > 2 ^ 63 else n \<ge> 2 ^ 63)
      then Inl (Errorf ''strconv.Atoi: parsing %q: value out of range'' [Str s] [])
      else Inr (if neg then - n else n))"

lemma Atoi_digits:
  assumes "s \<noteq> []" "list_all is_digit s" "length s \<le> 18"
  shows "Atoi s = Inr (digits_val s)"
proof -
  obtain c cs where s: "s = c # cs" using assms(1) by (cases s) auto
  have "is_digit c" using assms(2) s by simp
  then have sign: "split_sign s = (False, s)"
    by (auto simp: split_sign_def s is_digit_def byte_def)
  have "digits_val s < 10 ^ length s"
    using digits_val_bounds[OF assms(2)] by simp
  also have "(10::int) ^ length s \<le> 10 ^ 18"
    using assms(3) by (intro power_increasing) auto
  finally have "digits_val s < 2 ^ 63" by simp
  then show ?thesis using assms(1,2) by (simp add: Atoi_def sign)
qed

text \<open>Zero-padded decimal printing, as package \<^verbatim>\<open>time\<close> prints the fields of a date.\<close>

fun show_nat :: "nat \<Rightarrow> string" where
  "show_nat n = (if n < 10 then [digit_char (int n)]
                 else show_nat (n div 10) @ [digit_char (int (n mod 10))])"

declare show_nat.simps [simp del]

definition appendInt :: "int \<Rightarrow> nat \<Rightarrow> string" where
  "appendInt x width =
     (let ds = show_nat (nat \<bar>x\<bar>) in
      (if x < 0 then ''-'' else []) @ replicate (width - length ds) (CHR ''0'') @ ds)"

lemma show_nat_digits: "list_all is_digit (show_nat n)"
proof (induction n rule: show_nat.induct)
  case (1 n)
  then show ?case by (cases "n < 10") (simp_all add: show_nat.simps[of n])
qed

lemma digits_val_show_nat: "digits_val (show_nat n) = int n"
proof (induction n rule: show_nat.induct)
  case (1 n)
  show ?case
  proof (cases "n < 10")
    case True
    then show ?thesis using digits_val_snoc[of "[]" "digit_char (int n)"]
      by (simp add: show_nat.simps[of n])
  next
    case False
    then show ?thesis using 1 by (simp add: show_nat.simps[of n]) presburger
  qed
qed

lemma digits_val_zeros: "digits_val (replicate k (CHR ''0'') @ s) = digits_val s"
proof (induction s rule: rev_induct)
  case Nil
  show ?case
  proof (induction k)
    case (Suc k)
    then show ?case
      using digits_val_snoc[of "replicate k (CHR ''0'')" "CHR ''0''"]
      by (simp add: replicate_append_same[symmetric] digit_val_def byte_def)
  qed simp
next
  case (snoc c s)
  then show ?case by (metis append_assoc digits_val_snoc)
qed

lemma digits_val_appendInt: "0 \<le> x \<Longrightarrow> digits_val (appendInt x w) = x"
  by (simp add: appendInt_def Let_def digits_val_zeros digits_val_show_nat)

lemma list_all_replicate: "list_all P (replicate k x) = (k = 0 \<or> P x)"
  by (induction k) auto

lemma appendInt_digits: "0 \<le> x \<Longrightarrow> list_all is_digit (appendInt x w)"
  by (simp add: appendInt_def Let_def show_nat_digits list_all_replicate is_digit_def byte_def)

lemma length_appendInt_2:
  assumes "0 \<le> x" "x < 100"
  shows "length (appendInt x 2) = 2"
proof -
  have "nat x < 10 \<or> nat x div 10 < 10" using assms by auto
  then show ?thesis using assms
    by (auto simp: appendInt_def Let_def show_nat.simps[of "nat x"] show_nat.simps[of "nat x div 10"])
qed

section \<open>Go maps\<close>

text \<open>
  A Go map is an association list with distinct keys. Go iterates over a map in an unspecified
  order: the order of the list, which the theorems leave arbitrary.
\<close>

type_synonym 'v gomap = "(string \<times> 'v) list"

definition is_gomap :: "'v gomap \<Rightarrow> bool" where
  "is_gomap m = distinct (map fst m)"

lemma is_gomap_Nil [simp]: "is_gomap []"
  by (simp add: is_gomap_def)

lemma is_gomap_update [simp]: "is_gomap m \<Longrightarrow> is_gomap (AList.update k v m)"
  by (simp add: is_gomap_def distinct_update)

lemma is_gomap_delete [simp]: "is_gomap m \<Longrightarrow> is_gomap (AList.delete k m)"
  by (simp add: is_gomap_def distinct_delete)

lemma is_gomap_filter: "is_gomap m \<Longrightarrow> is_gomap (filter P m)"
  by (simp add: is_gomap_def distinct_map_filter)

lemma is_gomap_map_snd [simp]: "is_gomap (map (\<lambda>(k, v). (k, f k v)) m) = is_gomap m"
proof -
  have "map fst (map (\<lambda>(k, v). (k, f k v)) m) = map fst m"
    by (induction m) auto
  then show ?thesis unfolding is_gomap_def by (simp only:)
qed

lemma map_of_gomap: "is_gomap m \<Longrightarrow> (k, v) \<in> set m \<longleftrightarrow> map_of m k = Some v"
  unfolding is_gomap_def by (simp add: map_of_eq_Some_iff)

section \<open>Effects\<close>

text \<open>
  Code that calls the outside world (the Kubernetes API, the clock, a state store) is a value
  of the state monad over a world of arbitrary type. \<open>wp m Q w\<close>: running \<open>m\<close> in \<open>w\<close>
  ends with a result and a world that satisfy \<open>Q\<close>.
\<close>

type_synonym ('w, 'a) io = "('w, 'a) state"

abbreviation ret :: "'a \<Rightarrow> ('w, 'a) io" where
  "ret \<equiv> State_Monad.return"

definition wp :: "('w, 'a) io \<Rightarrow> ('a \<Rightarrow> 'w \<Rightarrow> bool) \<Rightarrow> 'w \<Rightarrow> bool" where
  "wp m Q w = (case run_state m w of (a, w') \<Rightarrow> Q a w')"

lemma wp_return [wp_simps]: "wp (ret a) Q w = Q a w"
  by (simp add: wp_def)

lemma wp_bind [wp_simps]: "wp (State_Monad.bind m f) Q w = wp m (\<lambda>a. wp (f a) Q) w"
  by (simp add: wp_def split: prod.splits)

lemma wp_if [wp_simps]: "wp (if b then m else n) Q w = (if b then wp m Q w else wp n Q w)"
  by simp

lemma wp_case_option [wp_simps]:
  "wp (case x of None \<Rightarrow> m | Some a \<Rightarrow> f a) Q w =
   (case x of None \<Rightarrow> wp m Q w | Some a \<Rightarrow> wp (f a) Q w)"
  by (cases x) simp_all

lemma wp_case_sum [wp_simps]:
  "wp (case x of Inl e \<Rightarrow> f e | Inr a \<Rightarrow> g a) Q w =
   (case x of Inl e \<Rightarrow> wp (f e) Q w | Inr a \<Rightarrow> wp (g a) Q w)"
  by (cases x) simp_all

lemma wp_case_prod [wp_simps]:
  "wp (case x of (a, b) \<Rightarrow> f a b) Q w = (case x of (a, b) \<Rightarrow> wp (f a b) Q w)"
  by (cases x) simp

lemma wp_Let [wp_simps]: "wp (let x = a in f x) Q w = (let x = a in wp (f x) Q w)"
  by simp

lemma wp_mono: "wp m P w \<Longrightarrow> (\<And>a w'. P a w' \<Longrightarrow> Q a w') \<Longrightarrow> wp m Q w"
  by (auto simp: wp_def split: prod.splits)

lemma wp_conj: "wp m (\<lambda>a w. P a w \<and> Q a w) w \<longleftrightarrow> wp m P w \<and> wp m Q w"
  by (auto simp: wp_def split: prod.splits)

lemma wp_run: "wp m Q w \<Longrightarrow> run_state m w = (a, w') \<Longrightarrow> Q a w'"
  by (simp add: wp_def)

lemma wp_fst_snd: "wp m Q w \<longleftrightarrow> Q (fst (run_state m w)) (snd (run_state m w))"
  by (simp add: wp_def split: prod.splits)

text \<open>
  Recording calls: \<open>logged ev m\<close> runs \<open>m\<close> and appends the event \<open>ev a\<close>, built from the result
  \<open>a\<close>, to the trace kept beside the world. A component whose dependencies are all logged leaves
  the exact sequence of its external calls and their results.
\<close>

definition logged :: "('a \<Rightarrow> 'ev) \<Rightarrow> ('w, 'a) io \<Rightarrow> ('w \<times> 'ev list, 'a) io" where
  "logged ev m = State (\<lambda>(w, tr). case run_state m w of (a, w') \<Rightarrow> (a, (w', tr @ [ev a])))"

lemma run_logged:
  "run_state (logged ev m) s =
   (case run_state m (fst s) of (a, w') \<Rightarrow> (a, (w', snd s @ [ev a])))"
  by (simp add: logged_def split: prod.splits)

lemma logged_trace: "run_state (logged ev m) s = (a, s') \<Longrightarrow> snd s' = snd s @ [ev a]"
  by (auto simp: run_logged split: prod.splits)

lemma wp_logged:
  "wp (logged ev m) Q s \<longleftrightarrow> wp m (\<lambda>a w'. Q a (w', snd s @ [ev a])) (fst s)"
  by (simp add: wp_def run_logged split: prod.splits)

lemma wp_any: "(\<And>a w'. Q a w') \<Longrightarrow> wp m Q w"
  by (simp add: wp_def split: prod.splits)

lemma wp_logged_any: "(\<And>a w'. Q a (w', snd s @ [ev a])) \<Longrightarrow> wp (logged ev m) Q s"
  by (simp add: wp_logged wp_any)

text \<open>Recording does not change what the code does: the world and the result stay the same.\<close>

definition erases :: "('w \<times> 'x, 'a) io \<Rightarrow> ('w, 'a) io \<Rightarrow> bool" where
  "erases m n = (\<forall>w tr. \<exists>tr'. run_state m (w, tr) =
     (fst (run_state n w), (snd (run_state n w), tr')))"

named_theorems erases_intros \<open>recording leaves results and worlds as they are\<close>

lemma erases_return [erases_intros]: "erases (ret a) (ret a)"
  by (simp add: erases_def)

lemma erases_logged [erases_intros]: "erases (logged ev m) m"
  by (simp add: erases_def run_logged split: prod.splits)

lemma erases_bind [erases_intros]:
  assumes "erases m n" "\<And>a. erases (f a) (g a)"
  shows "erases (State_Monad.bind m f) (State_Monad.bind n g)"
  unfolding erases_def
proof (intro allI)
  fix w tr
  obtain tr1 where m: "run_state m (w, tr) = (fst (run_state n w), (snd (run_state n w), tr1))"
    using assms(1) unfolding erases_def by blast
  obtain a w1 where n: "run_state n w = (a, w1)" by fastforce
  obtain tr2 where "run_state (f a) (w1, tr1) =
      (fst (run_state (g a) w1), (snd (run_state (g a) w1), tr2))"
    using assms(2) unfolding erases_def by blast
  then show "\<exists>tr'. run_state (State_Monad.bind m f) (w, tr) =
      (fst (run_state (State_Monad.bind n g) w), (snd (run_state (State_Monad.bind n g) w), tr'))"
    using m n by auto
qed

lemma erases_if [erases_intros]:
  "erases m n \<Longrightarrow> erases m' n' \<Longrightarrow> erases (if b then m else m') (if b then n else n')"
  by simp

lemma erases_case_option [erases_intros]:
  "erases m n \<Longrightarrow> (\<And>a. erases (f a) (g a)) \<Longrightarrow>
   erases (case x of None \<Rightarrow> m | Some a \<Rightarrow> f a) (case x of None \<Rightarrow> n | Some a \<Rightarrow> g a)"
  by (cases x) auto

lemma erases_case_sum [erases_intros]:
  "(\<And>e. erases (f e) (f' e)) \<Longrightarrow> (\<And>a. erases (g a) (g' a)) \<Longrightarrow>
   erases (case x of Inl e \<Rightarrow> f e | Inr a \<Rightarrow> g a) (case x of Inl e \<Rightarrow> f' e | Inr a \<Rightarrow> g' a)"
  by (cases x) auto

lemma erases_case_prod [erases_intros]:
  "(\<And>a b. erases (f a b) (g a b)) \<Longrightarrow>
   erases (case x of (a, b) \<Rightarrow> f a b) (case x of (a, b) \<Rightarrow> g a b)"
  by (cases x) auto

lemma erases_Let [erases_intros]:
  "(\<And>a. erases (f a) (g a)) \<Longrightarrow> erases (let x = a in f x) (let x = a in g x)"
  by simp

text \<open>\<open>emits m P\<close>: run on any world and trace, \<open>m\<close> appends entries to the trace that satisfy \<open>P\<close> with its result.\<close>

definition emits :: "('w \<times> 'ev list, 'a) io \<Rightarrow> ('a \<Rightarrow> 'ev list \<Rightarrow> bool) \<Rightarrow> bool" where
  "emits m P \<longleftrightarrow> (\<forall>w tr. wp m (\<lambda>a st. \<exists>new. snd st = tr @ new \<and> P a new) (w, tr))"

lemma emits_return: "P a [] \<Longrightarrow> emits (ret a) P"
  by (simp add: emits_def wp_return)

lemma emits_logged: "(\<And>a. P a [ev a]) \<Longrightarrow> emits (logged ev m) P"
  by (auto simp: emits_def intro!: wp_logged_any)

lemma emits_mono: "emits m P \<Longrightarrow> (\<And>a new. P a new \<Longrightarrow> Q a new) \<Longrightarrow> emits m Q"
  unfolding emits_def by (blast intro: wp_mono)

lemma emits_bind:
  fixes m :: "('w \<times> 'ev list, 'a) io"
  assumes "emits m P" "\<And>a new. P a new \<Longrightarrow> emits (f a) (\<lambda>b new'. Q b (new @ new'))"
  shows "emits (State_Monad.bind m f) Q"
  unfolding emits_def wp_bind
proof (intro allI)
  fix w tr
  have "wp m (\<lambda>a st. \<exists>new. snd st = tr @ new \<and> P a new) (w, tr)" using assms(1) by (simp add: emits_def)
  then show "wp m (\<lambda>a. wp (f a) (\<lambda>b st. \<exists>new. snd st = tr @ new \<and> Q b new)) (w, tr)"
  proof (rule wp_mono, elim exE conjE)
    fix a new and st :: "'w \<times> 'ev list" assume st: "snd st = tr @ new" "P a new"
    have "wp (f a) (\<lambda>b st'. \<exists>new'. snd st' = (tr @ new) @ new' \<and> Q b (new @ new')) (fst st, tr @ new)"
      using assms(2)[OF st(2)] unfolding emits_def by blast
    then show "wp (f a) (\<lambda>b st'. \<exists>new. snd st' = tr @ new \<and> Q b new) st"
      unfolding st(1)[symmetric] prod.collapse by (elim wp_mono) (metis append.assoc st(1))
  qed
qed

lemma emits_run: "emits m P \<Longrightarrow> \<exists>a w' new. run_state m (w, []) = (a, (w', new)) \<and> P a new"
  unfolding emits_def wp_fst_snd by (metis append_Nil prod.collapse)

end
