(* ===== verification/GoTime.thy ===== *)
theory GoTime
  imports Prelude
begin

text \<open>
  The parts of Go's package \<^verbatim>\<open>time\<close> that the program uses. An instant is a number of nanoseconds
  since the Unix epoch, a duration a number of nanoseconds; both are unbounded here, and the
  program only adds a policy's duration to an instant and compares, far from the bounds of Go's
  64-bit representation. A \<open>gotime\<close> carries the offset of its zone, as \<^verbatim>\<open>Time.Zone\<close> reports it.

  A location answers a lookup the way Go's \<^verbatim>\<open>Location.lookup\<close> does: for an instant in Unix seconds
  the zone offset in force and the bounds of the period in which it is in force. The time zone
  database itself is data outside the program, so locations are parameters of everything that
  uses them. The calendar is the proleptic Gregorian one, computed on day numbers.
\<close>

section \<open>Instants\<close>

type_synonym duration = int

record gotime =
  t_ns :: int
  t_offset :: int

abbreviation Second :: duration where "Second \<equiv> 1000000000"
abbreviation Hour_ns :: duration where "Hour_ns \<equiv> 3600 * Second"

text \<open>The zero time is January 1 of year 1, 00:00:00 UTC.\<close>

definition zero_ns :: int where
  "zero_ns = - 62135596800 * Second"

definition IsZero :: "gotime \<Rightarrow> bool" where
  "IsZero t = (t_ns t = zero_ns)"

definition Before :: "gotime \<Rightarrow> gotime \<Rightarrow> bool" where
  "Before t u = (t_ns t < t_ns u)"

definition Add :: "gotime \<Rightarrow> duration \<Rightarrow> gotime" where
  "Add t d = t\<lparr>t_ns := t_ns t + d\<rparr>"

definition UTC :: "gotime \<Rightarrow> gotime" where
  "UTC t = t\<lparr>t_offset := 0\<rparr>"

definition zero_time :: gotime where
  "zero_time = \<lparr>t_ns = zero_ns, t_offset = 0\<rparr>"

lemma UTC_ns [simp]: "t_ns (UTC t) = t_ns t" and UTC_offset [simp]: "t_offset (UTC t) = 0"
  by (simp_all add: UTC_def)

lemma UTC_idem [simp]: "UTC (UTC t) = UTC t"
  by (simp add: UTC_def)

lemma UTC_id: "t_offset t = 0 \<Longrightarrow> UTC t = t"
  by (simp add: UTC_def)

lemma IsZero_UTC [simp]: "IsZero (UTC t) = IsZero t"
  by (simp add: IsZero_def)

lemma Before_UTC [simp]: "Before (UTC t) u = Before t u" "Before t (UTC u) = Before t u"
  by (simp_all add: Before_def)

section \<open>The calendar\<close>

text \<open>
  Day \<open>0\<close> is 1970-01-01. Years are counted from March, so that the leap day is the last day of
  the computational year; 400 years are 146097 days.
\<close>

definition days_from_civil :: "int \<Rightarrow> int \<Rightarrow> int \<Rightarrow> int" where
  "days_from_civil y m d =
     (let y' = (if m \<le> 2 then y - 1 else y); era = y' div 400; yoe = y' - era * 400;
          mp = (if m > 2 then m - 3 else m + 9);
          doy = (153 * mp + 2) div 5 + d - 1;
          doe = yoe * 365 + yoe div 4 - yoe div 100 + doy
      in era * 146097 + doe - 719468)"

definition civil_from_days :: "int \<Rightarrow> int \<times> int \<times> int" where
  "civil_from_days n =
     (let z = n + 719468; era = z div 146097; doe = z - era * 146097;
          yoe = (doe - doe div 1460 + doe div 36524 - doe div 146096) div 365;
          doy = doe - (365 * yoe + yoe div 4 - yoe div 100);
          mp = (5 * doy + 2) div 153;
          d = doy - (153 * mp + 2) div 5 + 1;
          m = (if mp < 10 then mp + 3 else mp - 9)
      in (if m \<le> 2 then yoe + era * 400 + 1 else yoe + era * 400, m, d))"

lemma days_from_civil_day: "days_from_civil y m (d + k) = days_from_civil y m d + k"
  by (simp add: days_from_civil_def Let_def)

lemma div_bounds:
  fixes a :: int
  assumes "0 < b"
  shows "b * (a div b) \<le> a \<and> a < b * (a div b) + b"
proof -
  have "a = b * (a div b) + a mod b" by simp
  moreover have "0 \<le> a mod b" "a mod b < b" using assms by simp_all
  ultimately show ?thesis by linarith
qed

lemma div_eqI:
  fixes a :: int
  assumes "b * q \<le> a" "a < b * q + b"
  shows "a div b = q"
  using assms by (intro int_div_pos_eq[of _ _ _ "a - b * q"]) auto

lemma year_of_era:
  fixes doe :: int
  assumes "0 \<le> doe" "doe < 146097"
    and N: "N = doe - doe div 1460 + doe div 36524 - doe div 146096"
    and yoe: "yoe = N div 365"
    and doy: "doy = doe - (365 * yoe + yoe div 4 - yoe div 100)"
  shows "0 \<le> yoe" "yoe < 400" "0 \<le> doy" "doy \<le> 365"
proof -
  define a b c q where defs: "a = doe div 1460" "b = doe div 36524" "c = doe div 146096" "q = yoe div 4"
  have a: "1460 * a \<le> doe" "doe < 1460 * a + 1460" using div_bounds[of 1460 doe] by (simp_all add: defs)
  have b: "36524 * b \<le> doe" "doe < 36524 * b + 36524" using div_bounds[of 36524 doe] by (simp_all add: defs)
  have c: "146096 * c \<le> doe" "doe < 146096 * c + 146096" using div_bounds[of 146096 doe] by (simp_all add: defs)
  have y: "365 * yoe \<le> N" "N < 365 * yoe + 365" using div_bounds[of 365 N] by (simp_all add: yoe)
  have q: "4 * q \<le> yoe" "yoe < 4 * q + 4" using div_bounds[of 4 yoe] by (simp_all add: defs)
  have N': "N = doe - a + b - c" using N by (simp add: defs)
  have bs: "0 \<le> a" "a \<le> 100" "0 \<le> b" "b \<le> 4" "0 \<le> c" "c \<le> 1" using a b c assms(1,2) by linarith+
  have c1: "c = 1 \<Longrightarrow> doe = 146096 \<and> b = 4 \<and> a = 100" using a b c bs assms(1,2) by linarith
  have c0: "c = 0 \<Longrightarrow> b \<le> 3" using b c bs by linarith
  have "b \<le> a" using a b bs by linarith
  have cent: "100 * (b - c) \<le> yoe \<and> yoe < 100 * (b - c) + 100"
  proof (cases "c = 0")
    case True
    have "36500 * b \<le> N"
      using a b N' True bs c0 by (cases "a \<le> 25 * b") linarith+
    moreover have "N < 36500 * b + 36500"
      using a b N' True bs c0 by (cases "a \<le> 25 * b + 24") linarith+
    ultimately have "100 * b \<le> yoe" "yoe < 100 * b + 100" using y by linarith+
    then show ?thesis using True by simp
  next
    case False
    then have "c = 1" using bs by linarith
    with c1 y N' show ?thesis by auto
  qed
  then have "100 * (b - c) \<le> yoe" "yoe < 100 * (b - c) + 100" by simp_all
  then have "yoe div 100 = b - c" by (rule div_eqI)
  moreover have "q \<le> a" using a q y N' \<open>b \<le> a\<close> bs by linarith
  moreover have "a \<le> q + 1" using a q y N' bs by linarith
  ultimately show "0 \<le> doy" "doy \<le> 365"
    using y N' by (simp_all add: doy flip: defs(4))
  show "0 \<le> yoe" "yoe < 400" using cent bs c0 c1 by (cases "c = 0"; force)+
qed


lemma month_of_year:
  fixes doy :: int
  assumes "0 \<le> doy" "doy \<le> 365" and mp: "mp = (5 * doy + 2) div 153"
    and d: "d = doy - (153 * mp + 2) div 5 + 1"
  shows "0 \<le> mp" "mp \<le> 11" "1 \<le> d" "d \<le> 31"
  using assms(1,2) div_bounds[of 153 "5 * doy + 2"] div_bounds[of 5 "153 * mp + 2"]
  unfolding d mp[symmetric] by linarith+

lemma civil_roundtrip:
  assumes "civil_from_days n = (y, m, d)"
  shows "days_from_civil y m d = n" "1 \<le> m" "m \<le> 12" "1 \<le> d" "d \<le> 31"
proof -
  define era where "era = (n + 719468) div 146097"
  define doe where "doe = n + 719468 - era * 146097"
  define yoe where "yoe = (doe - doe div 1460 + doe div 36524 - doe div 146096) div 365"
  define doy where "doy = doe - (365 * yoe + yoe div 4 - yoe div 100)"
  define mp where "mp = (5 * doy + 2) div 153"
  have doe: "0 \<le> doe" "doe < 146097"
    using div_bounds[of 146097 "n + 719468"] unfolding doe_def era_def by linarith+
  note ye = year_of_era[OF doe refl yoe_def doy_def]
  note mo = month_of_year[OF ye(3,4) mp_def refl]
  have "civil_from_days n =
      (let m = (if mp < 10 then mp + 3 else mp - 9)
       in (if m \<le> 2 then yoe + era * 400 + 1 else yoe + era * 400, m, doy - (153 * mp + 2) div 5 + 1))"
    by (simp only: civil_from_days_def Let_def era_def doe_def yoe_def doy_def mp_def)
  then have md: "m = (if mp < 10 then mp + 3 else mp - 9)" "d = doy - (153 * mp + 2) div 5 + 1"
      "y = (if m \<le> 2 then yoe + era * 400 + 1 else yoe + era * 400)"
    using assms by (simp_all only: Let_def prod.inject)
  show "1 \<le> m" "m \<le> 12" "1 \<le> d" "d \<le> 31" using md(1,2) mo by (auto split: if_splits)
  have y': "(if m \<le> 2 then y - 1 else y) = yoe + era * 400" using md(3) by simp
  have mp': "(if m > 2 then m - 3 else m + 9) = mp" using md(1) mo by (auto split: if_splits)
  have era': "(yoe + era * 400) div 400 = era" using ye by simp
  show "days_from_civil y m d = n"
    unfolding days_from_civil_def Let_def y' mp' era' using md(2) doy_def doe_def by simp
qed
text \<open>A day number determines its date and a date its day number.\<close>

lemma civil_from_days_inj: "civil_from_days n = civil_from_days k \<Longrightarrow> n = k"
  by (cases "civil_from_days n") (metis civil_roundtrip(1))

section \<open>Locations and local times\<close>

type_synonym location = "int \<Rightarrow> int \<times> int \<times> int"

record local_time =
  lt_ns :: int
  lt_loc :: location

definition In :: "gotime \<Rightarrow> location \<Rightarrow> local_time" where
  "In t loc = \<lparr>lt_ns = t_ns t, lt_loc = loc\<rparr>"

definition unix_sec :: "local_time \<Rightarrow> int" where
  "unix_sec lt = lt_ns lt div Second"

definition zone_offset :: "local_time \<Rightarrow> int" where
  "zone_offset lt = fst (lt_loc lt (unix_sec lt))"

text \<open>Seconds of the wall clock since 1970-01-01 00:00 local, and its day, hour and minute.\<close>

definition abs_sec :: "local_time \<Rightarrow> int" where
  "abs_sec lt = unix_sec lt + zone_offset lt"

definition local_day :: "local_time \<Rightarrow> int" where
  "local_day lt = abs_sec lt div 86400"

definition Hour :: "local_time \<Rightarrow> int" where
  "Hour lt = abs_sec lt mod 86400 div 3600"

definition Minute :: "local_time \<Rightarrow> int" where
  "Minute lt = abs_sec lt mod 3600 div 60"

definition Sec :: "local_time \<Rightarrow> int" where
  "Sec lt = abs_sec lt mod 60"

text \<open>\<^verbatim>\<open>Weekday\<close>: 0 is Sunday; 1970-01-01 was a Thursday.\<close>

definition weekday_of :: "int \<Rightarrow> int" where
  "weekday_of n = (n + 4) mod 7"

definition Weekday :: "local_time \<Rightarrow> int" where
  "Weekday lt = weekday_of (local_day lt)"

definition time_Date :: "int \<Rightarrow> int \<Rightarrow> int \<Rightarrow> int \<Rightarrow> int \<Rightarrow> int \<Rightarrow> int \<Rightarrow> location \<Rightarrow> local_time" where
  "time_Date y m d h mi s ns loc =
     (let unix = days_from_civil y m d * 86400 + h * 3600 + mi * 60 + s;
          (offset, start, end) = loc unix;
          utc = unix - offset;
          offset' = (if utc < start \<or> utc \<ge> end then fst (loc utc) else offset)
      in \<lparr>lt_ns = (if offset \<noteq> 0 then unix - offset' else unix) * Second + ns, lt_loc = loc\<rparr>)"

text \<open>\<^verbatim>\<open>AddDate(0, 0, days)\<close>: the same wall clock \<open>days\<close> later, by way of \<^verbatim>\<open>Date\<close>.\<close>

definition AddDate :: "local_time \<Rightarrow> int \<Rightarrow> local_time" where
  "AddDate lt days =
     (case civil_from_days (local_day lt) of
        (y, m, d) \<Rightarrow> time_Date y m (d + days) (Hour lt) (Minute lt) (Sec lt) (lt_ns lt mod Second) (lt_loc lt))"

text \<open>\<^verbatim>\<open>Format("2006-01-02")\<close>.\<close>

definition format_day :: "int \<Rightarrow> string" where
  "format_day n =
     (case civil_from_days n of
        (y, m, d) \<Rightarrow> appendInt y 4 @ ''-'' @ appendInt m 2 @ ''-'' @ appendInt d 2)"

definition Format_date :: "local_time \<Rightarrow> string" where
  "Format_date lt = format_day (local_day lt)"

lemma clock_bounds:
  "0 \<le> Hour lt" "Hour lt < 24" "0 \<le> Minute lt" "Minute lt < 60"
  using pos_mod_bound[of 86400 "abs_sec lt"] pos_mod_sign[of 86400 "abs_sec lt"]
    pos_mod_bound[of 3600 "abs_sec lt"] pos_mod_sign[of 3600 "abs_sec lt"]
  unfolding Hour_def Minute_def by linarith+

lemma clock_sum:
  "abs_sec lt = local_day lt * 86400 + Hour lt * 3600 + Minute lt * 60 + Sec lt"
proof -
  let ?s = "abs_sec lt"
  have 1: "?s = 86400 * (?s div 86400) + ?s mod 86400" by simp
  have "?s mod 86400 mod 3600 = ?s mod 3600" by (rule mod_mod_cancel) simp
  then have 2: "?s mod 86400 = 3600 * (?s mod 86400 div 3600) + ?s mod 3600"
    by (metis mult_div_mod_eq)
  have "?s mod 3600 mod 60 = ?s mod 60" by (rule mod_mod_cancel) simp
  then have 3: "?s mod 3600 = 60 * (?s mod 3600 div 60) + ?s mod 60"
    by (metis mult_div_mod_eq)
  show ?thesis unfolding local_day_def Hour_def Minute_def Sec_def using 1 2 3 by linarith
qed

lemma weekday_bounds: "0 \<le> Weekday lt" "Weekday lt < 7"
  by (simp_all add: Weekday_def weekday_of_def)

text \<open>
  Where the zone offset is the same on both days, \<^verbatim>\<open>AddDate\<close> moves the wall clock by whole days.
\<close>

definition steady :: "local_time \<Rightarrow> int \<Rightarrow> bool" where
  "steady lt days =
     (fst (lt_loc lt (unix_sec lt + days * 86400)) = zone_offset lt \<and>
      fst (lt_loc lt (abs_sec lt + days * 86400)) = zone_offset lt)"

lemma AddDate_steady:
  assumes "steady lt days"
  shows "abs_sec (AddDate lt days) = abs_sec lt + days * 86400"
proof -
  let ?u = "abs_sec lt + days * 86400"
  let ?v = "unix_sec lt + days * 86400"
  obtain y m d where c: "civil_from_days (local_day lt) = (y, m, d)" by (metis prod_cases3)
  have unix: "days_from_civil y m (d + days) * 86400 + Hour lt * 3600 + Minute lt * 60 + Sec lt = ?u"
    using civil_roundtrip(1)[OF c] clock_sum[of lt] by (simp add: days_from_civil_day)
  obtain a b where l: "lt_loc lt ?u = (zone_offset lt, a, b)"
    using assms unfolding steady_def by (metis prod.collapse)
  have v: "?u - zone_offset lt = ?v" by (simp add: abs_sec_def)
  have lv: "fst (lt_loc lt ?v) = zone_offset lt" using assms by (simp add: steady_def)
  then have lu: "fst (lt_loc lt (?u - zone_offset lt)) = zone_offset lt" by (simp only: v)
  have "AddDate lt days = \<lparr>lt_ns = ?v * Second + lt_ns lt mod Second, lt_loc = lt_loc lt\<rparr>"
    using v by (simp add: AddDate_def c time_Date_def Let_def unix l lu)
  moreover have "(?v * Second + lt_ns lt mod Second) div Second = ?v"
    by (simp add: div_add1_eq)
  ultimately show ?thesis using lv by (simp add: abs_sec_def unix_sec_def zone_offset_def)
qed

lemma AddDate_day:
  assumes "steady lt days"
  shows "local_day (AddDate lt days) = local_day lt + days"
  using AddDate_steady[OF assms] by (simp add: local_day_def)

text \<open>A zone whose offset never changes, as UTC.\<close>

definition FixedZone :: "int \<Rightarrow> location" where
  "FixedZone off = (\<lambda>_. (off, - (2 ^ 63), 2 ^ 63 - 1))"

lemma steady_FixedZone [simp]: "lt_loc lt = FixedZone off \<Longrightarrow> steady lt days"
  by (simp add: steady_def zone_offset_def FixedZone_def)

section \<open>Printing dates is injective\<close>

lemma show_nat_nonempty [simp]: "show_nat n \<noteq> []"
  by (subst show_nat.simps) simp

lemma hd_appendInt_nonneg: "0 \<le> x \<Longrightarrow> appendInt x w \<noteq> [] \<and> hd (appendInt x w) \<noteq> CHR ''-''"
proof -
  assume "0 \<le> x"
  then have "list_all is_digit (appendInt x w)" by (rule appendInt_digits)
  moreover have "appendInt x w \<noteq> []" by (simp add: appendInt_def Let_def)
  ultimately show ?thesis by (cases "appendInt x w") (auto simp: is_digit_def byte_def)
qed

lemma appendInt_neg: "x < 0 \<Longrightarrow> appendInt x w = CHR ''-'' # appendInt (- x) w"
  by (simp add: appendInt_def Let_def)

lemma appendInt_inj: "appendInt x w = appendInt y w \<Longrightarrow> x = y"
proof -
  assume eq: "appendInt x w = appendInt y w"
  consider "0 \<le> x" "0 \<le> y" | "x < 0" "y < 0" | "0 \<le> x" "y < 0" | "x < 0" "0 \<le> y"
    by linarith
  then show ?thesis
  proof cases
    case 1
    then show ?thesis using eq by (metis digits_val_appendInt)
  next
    case 2
    then have "appendInt (- x) w = appendInt (- y) w" using eq by (simp add: appendInt_neg)
    with 2 have "- x = - y"
      by (metis digits_val_appendInt less_imp_le neg_0_le_iff_le)
    then show ?thesis by simp
  next
    case 3
    then have "hd (appendInt y w) = CHR ''-''" by (simp only: appendInt_neg list.sel)
    then show ?thesis using eq hd_appendInt_nonneg[OF 3(1), of w] by (simp only: simp_thms)
  next
    case 4
    then have "hd (appendInt x w) = CHR ''-''" by (simp only: appendInt_neg list.sel)
    then show ?thesis using eq hd_appendInt_nonneg[OF 4(2), of w] by (simp only: simp_thms)
  qed
qed

lemma format_day_inj: "format_day n = format_day k \<Longrightarrow> n = k"
proof -
  assume eq: "format_day n = format_day k"
  obtain y m d where a: "civil_from_days n = (y, m, d)" by (metis prod_cases3)
  obtain y' m' d' where b: "civil_from_days k = (y', m', d')" by (metis prod_cases3)
  note ra = civil_roundtrip[OF a] and rb = civil_roundtrip[OF b]
  have len: "length (appendInt m 2) = 2" "length (appendInt m' 2) = 2"
    "length (appendInt d 2) = 2" "length (appendInt d' 2) = 2"
    using ra rb by (auto intro!: length_appendInt_2)
  have "appendInt y 4 @ (''-'' @ appendInt m 2 @ ''-'' @ appendInt d 2) =
        appendInt y' 4 @ (''-'' @ appendInt m' 2 @ ''-'' @ appendInt d' 2)"
    using eq by (simp add: format_day_def a b)
  then have "appendInt y 4 = appendInt y' 4"
    "appendInt m 2 @ ''-'' @ appendInt d 2 = appendInt m' 2 @ ''-'' @ appendInt d' 2"
    using len by (auto simp: append_eq_append_conv)
  then have "y = y'" "m = m'" "d = d'" using len by (auto intro: appendInt_inj)
  then show ?thesis using civil_from_days_inj a b by simp
qed

end
