(* ===== verification/Schedule.thy ===== *)
theory Schedule
  imports GoTime
begin

text \<open>
  Package \<^verbatim>\<open>internal/schedule\<close>: down windows, their validation, which window an instant falls
  into, and the identifier of the window's current occurrence. The definitions follow
  \<^verbatim>\<open>window.go\<close>, \<^verbatim>\<open>validate.go\<close> and \<^verbatim>\<open>instance.go\<close>; \<^verbatim>\<open>time.LoadLocation\<close> is the parameter
  \<open>LoadLocation\<close>. Against them stands a specification on day numbers: a window occurs on its
  start days, an occurrence covers a half-open interval of minutes counted from the midnight it
  starts after.
\<close>

section \<open>The code\<close>

type_synonym Day = string

abbreviation Monday :: Day where "Monday \<equiv> ''MON''"
abbreviation Tuesday :: Day where "Tuesday \<equiv> ''TUE''"
abbreviation Wednesday :: Day where "Wednesday \<equiv> ''WED''"
abbreviation Thursday :: Day where "Thursday \<equiv> ''THU''"
abbreviation Friday :: Day where "Friday \<equiv> ''FRI''"
abbreviation Saturday :: Day where "Saturday \<equiv> ''SAT''"
abbreviation Sunday :: Day where "Sunday \<equiv> ''SUN''"

record Window =
  Window_Name :: string
  Window_StartDays :: "Day list"
  Window_Start :: string
  Window_End :: string
  Window_AllDay :: bool

definition validDay :: "Day \<Rightarrow> bool" where
  "validDay day =
     (day \<in> set [Monday, Tuesday, Wednesday, Thursday, Friday, Saturday, Sunday])"

definition fromWeekday :: "int \<Rightarrow> Day" where
  "fromWeekday day =
     [Sunday, Monday, Tuesday, Wednesday, Thursday, Friday, Saturday] ! nat day"

fun containsDay :: "Day list \<Rightarrow> Day \<Rightarrow> bool" where
  "containsDay [] target = False"
| "containsDay (day # days) target = (if day = target then True else containsDay days target)"

definition parseMinute :: "string \<Rightarrow> int result" where
  "parseMinute v =
     (case Split v (CHR '':'') of
        [h, m] \<Rightarrow>
          if length h \<noteq> 2 \<or> length m \<noteq> 2
          then Inl (Errorf ''time %q must use HH:MM'' [Str v] [])
          else (case (Atoi h, Atoi m) of
              (Inr hour, Inr minute) \<Rightarrow>
                if hour < 0 \<or> hour > 23 \<or> minute < 0 \<or> minute > 59
                then Inl (Errorf ''time %q is out of range'' [Str v] [])
                else Inr (hour * 60 + minute)
            | _ \<Rightarrow> Inl (Errorf ''time %q is out of range'' [Str v] []))
      | _ \<Rightarrow> Inl (Errorf ''time %q must use HH:MM'' [Str v] []))"

text \<open>The loop of \<^verbatim>\<open>ValidateWindow\<close> over the start days, with the days seen so far.\<close>

fun validateDays :: "Day list \<Rightarrow> Day list \<Rightarrow> goerr option" where
  "validateDays [] seen = None"
| "validateDays (day # days) seen =
     (if \<not> validDay day then Some (Errorf ''invalid start day %q'' [Str day] [])
      else if day \<in> set seen then Some (Errorf ''duplicate start day %q'' [Str day] [])
      else validateDays days (day # seen))"

definition ValidateWindow :: "Window \<Rightarrow> goerr option" where
  "ValidateWindow w =
     (if Window_Name w = [] then Some (errors_New ''name must be non-empty'')
      else if Window_StartDays w = [] then Some (errors_New ''startDays must be non-empty'')
      else (case validateDays (Window_StartDays w) [] of
          Some err \<Rightarrow> Some err
        | None \<Rightarrow>
            if Window_AllDay w then
              (if Window_Start w \<noteq> [] \<or> Window_End w \<noteq> []
               then Some (errors_New ''allDay cannot be combined with start or end'')
               else None)
            else (case parseMinute (Window_Start w) of
                Inl err \<Rightarrow> Some (Errorf ''invalid start: %w'' [] [err])
              | Inr start \<Rightarrow>
                  (case parseMinute (Window_End w) of
                     Inl err \<Rightarrow> Some (Errorf ''invalid end: %w'' [] [err])
                   | Inr end \<Rightarrow>
                       if start = end then Some (errors_New ''start and end must differ'')
                       else None))))"

definition window_matches :: "Window \<Rightarrow> local_time \<Rightarrow> bool result" where
  "window_matches w local =
     (case ValidateWindow w of
        Some err \<Rightarrow> Inl err
      | None \<Rightarrow>
          if Window_AllDay w
          then Inr (containsDay (Window_StartDays w) (fromWeekday (Weekday local)))
          else (case parseMinute (Window_Start w) of
              Inl err \<Rightarrow> Inl (Errorf ''invalid start: %w'' [] [err])
            | Inr start \<Rightarrow>
                (case parseMinute (Window_End w) of
                   Inl err \<Rightarrow> Inl (Errorf ''invalid end: %w'' [] [err])
                 | Inr end \<Rightarrow>
                     if start = end then Inl (errors_New ''start and end must differ'')
                     else
                       let minute = Hour local * 60 + Minute local;
                           today = fromWeekday (Weekday local)
                       in if start < end
                          then Inr (containsDay (Window_StartDays w) today \<and> minute \<ge> start \<and> minute < end)
                          else
                            let previous = fromWeekday (Weekday (AddDate local (- 1)))
                            in Inr ((containsDay (Window_StartDays w) today \<and> minute \<ge> start) \<or>
                                    (containsDay (Window_StartDays w) previous \<and> minute < end)))))"

fun match_windows :: "local_time \<Rightarrow> Window list \<Rightarrow> string list \<Rightarrow> string list result" where
  "match_windows local [] matches = Inr matches"
| "match_windows local (w # ws) matches =
     (case window_matches w local of
        Inl err \<Rightarrow> Inl (Errorf ''window %q: %w'' [Str (Window_Name w)] [err])
      | Inr matched \<Rightarrow>
          match_windows local ws (if matched then matches @ [Window_Name w] else matches))"

definition schedule_Match ::
  "(string \<Rightarrow> location result) \<Rightarrow> gotime \<Rightarrow> string \<Rightarrow> Window list \<Rightarrow> (string \<times> bool) result" where
  "schedule_Match LoadLocation now timezone windows =
     (case LoadLocation timezone of
        Inl err \<Rightarrow> Inl (Errorf ''load timezone %q: %w'' [Str timezone] [err])
      | Inr location \<Rightarrow>
          (case match_windows (In now location) windows [] of
             Inl err \<Rightarrow> Inl err
           | Inr matches \<Rightarrow>
               (case sort matches of
                  [] \<Rightarrow> Inr ([], False)
                | first # _ \<Rightarrow> Inr (first, True))))"

definition WindowInstanceID ::
  "(string \<Rightarrow> location result) \<Rightarrow> gotime \<Rightarrow> string \<Rightarrow> string \<Rightarrow> Window list \<Rightarrow> string result" where
  "WindowInstanceID LoadLocation now timezone windowName windows =
     (case LoadLocation timezone of
        Inl err \<Rightarrow> Inl (Errorf ''load timezone %q: %w'' [Str timezone] [err])
      | Inr location \<Rightarrow>
          (case find (\<lambda>w. Window_Name w = windowName) windows of
             None \<Rightarrow> Inl (Errorf ''window %q not found'' [Str windowName] [])
           | Some w \<Rightarrow>
               let local = In now location;
                   id = (\<lambda>startDate. Inr (windowName @ '':'' @ Format_date startDate))
               in if Window_AllDay w then id local
                  else (case parseMinute (Window_Start w) of
                      Inl err \<Rightarrow> Inl (Errorf ''window %q invalid start: %w'' [Str windowName] [err])
                    | Inr start \<Rightarrow>
                        (case parseMinute (Window_End w) of
                           Inl err \<Rightarrow> Inl (Errorf ''window %q invalid end: %w'' [Str windowName] [err])
                         | Inr end \<Rightarrow>
                             if start \<ge> end \<and> Hour local * 60 + Minute local < end
                             then id (AddDate local (- 1))
                             else id local))))"

section \<open>What the checks mean\<close>

lemma containsDay_iff [spec_iff]: "containsDay days d \<longleftrightarrow> d \<in> set days"
  by (induction days) auto

lemma validateDays_iff [spec_iff]:
  "validateDays days seen = None \<longleftrightarrow>
   list_all validDay days \<and> distinct days \<and> set days \<inter> set seen = {}"
  by (induction days seen rule: validateDays.induct) auto

lemma parseMinute_bounds: "parseMinute v = Inr m \<Longrightarrow> 0 \<le> m \<and> m < 1440"
  by (auto simp: parseMinute_def split: list.splits sum.splits if_splits)

definition valid_window :: "Window \<Rightarrow> bool" where
  "valid_window w \<longleftrightarrow>
     Window_Name w \<noteq> [] \<and> Window_StartDays w \<noteq> [] \<and>
     list_all validDay (Window_StartDays w) \<and> distinct (Window_StartDays w) \<and>
     (if Window_AllDay w then Window_Start w = [] \<and> Window_End w = []
      else \<exists>s e. parseMinute (Window_Start w) = Inr s \<and> parseMinute (Window_End w) = Inr e \<and> s \<noteq> e)"

lemma ValidateWindow_iff [spec_iff]: "ValidateWindow w = None \<longleftrightarrow> valid_window w"
proof (cases "validateDays (Window_StartDays w) []")
  case None
  then have "list_all validDay (Window_StartDays w)" "distinct (Window_StartDays w)"
    by (simp_all add: validateDays_iff)
  with None show ?thesis by (auto simp: ValidateWindow_def valid_window_def split: sum.splits)
next
  case (Some err)
  then have "\<not> (list_all validDay (Window_StartDays w) \<and> distinct (Window_StartDays w))"
    using validateDays_iff[of "Window_StartDays w" "[]"] by auto
  with Some show ?thesis by (auto simp: ValidateWindow_def valid_window_def)
qed

section \<open>Occurrences of a window\<close>

text \<open>
  \<open>window_span\<close>: the minute of its start day at which a window starts, and how many minutes it
  lasts. \<open>wall_minute\<close>: minutes of the local wall clock since the local midnight of day 0.
  \<open>covers w n lt\<close>: the window occurs on day \<open>n\<close> and that occurrence contains \<open>lt\<close>.
\<close>

definition window_span :: "Window \<Rightarrow> int \<times> int" where
  "window_span w =
     (if Window_AllDay w then (0, 1440)
      else (case (parseMinute (Window_Start w), parseMinute (Window_End w)) of
          (Inr s, Inr e) \<Rightarrow> (s, (e - s) mod 1440)
        | _ \<Rightarrow> (0, 0)))"

definition day_minute :: "local_time \<Rightarrow> int" where
  "day_minute lt = Hour lt * 60 + Minute lt"

definition wall_minute :: "local_time \<Rightarrow> int" where
  "wall_minute lt = local_day lt * 1440 + day_minute lt"

definition covers :: "Window \<Rightarrow> int \<Rightarrow> local_time \<Rightarrow> bool" where
  "covers w n lt =
     (case window_span w of (s, len) \<Rightarrow>
        fromWeekday (weekday_of n) \<in> set (Window_StartDays w) \<and>
        n * 1440 + s \<le> wall_minute lt \<and> wall_minute lt < n * 1440 + s + len)"

lemma day_minute_bounds: "0 \<le> day_minute lt" "day_minute lt < 1440"
  using clock_bounds[of lt] by (simp_all add: day_minute_def)

lemma window_span_bounds:
  assumes "window_span w = (s, len)"
  shows "0 \<le> s" "s < 1440" "0 \<le> len" "len \<le> 1440"
  using assms parseMinute_bounds[of "Window_Start w"]
  by (auto simp: window_span_def less_imp_le split: if_splits sum.splits)

text \<open>An instant lies in at most one occurrence, which starts on its day or the day before.\<close>

lemma covers_day:
  assumes "covers w n lt"
  shows "n = local_day lt \<or> n = local_day lt - 1"
proof -
  obtain s len where sp: "window_span w = (s, len)" by fastforce
  note b = window_span_bounds[OF sp] day_minute_bounds[of lt]
  have "n * 1440 + s \<le> local_day lt * 1440 + day_minute lt"
    "local_day lt * 1440 + day_minute lt < n * 1440 + s + len"
    using assms by (simp_all add: covers_def sp wall_minute_def)
  with b have "n < local_day lt + 1" "local_day lt - 2 < n" by linarith+
  then show ?thesis by linarith
qed

lemma covers_unique:
  assumes "covers w n lt" "covers w k lt"
  shows "n = k"
proof -
  obtain s len where sp: "window_span w = (s, len)" by fastforce
  note b = window_span_bounds[OF sp]
  have "n * 1440 + s \<le> wall_minute lt" "wall_minute lt < n * 1440 + s + len"
    "k * 1440 + s \<le> wall_minute lt" "wall_minute lt < k * 1440 + s + len"
    using assms by (simp_all add: covers_def sp)
  with b have "n < k + 1" "k < n + 1" by linarith+
  then show ?thesis by linarith
qed

lemma span_same_day:
  assumes "\<not> Window_AllDay w" "parseMinute (Window_Start w) = Inr s" "parseMinute (Window_End w) = Inr e"
    "s < e"
  shows "window_span w = (s, e - s)"
  using assms parseMinute_bounds[of "Window_Start w" s] parseMinute_bounds[of "Window_End w" e]
  by (simp add: window_span_def mod_pos_pos_trivial)

lemma span_overnight:
  assumes "\<not> Window_AllDay w" "parseMinute (Window_Start w) = Inr s" "parseMinute (Window_End w) = Inr e"
    "e < s"
  shows "window_span w = (s, 1440 + e - s)"
proof -
  have "0 \<le> e" "s < 1440" using assms parseMinute_bounds by blast+
  have "(e - s) mod 1440 = (e - s + 1440) mod 1440" by simp
  also have "\<dots> = e - s + 1440"
    by (rule mod_pos_pos_trivial) (use assms(4) \<open>0 \<le> e\<close> \<open>s < 1440\<close> in auto)
  finally show ?thesis using assms by (simp add: window_span_def)
qed

lemma covers_iff:
  assumes sp: "window_span w = (s, len)"
  shows "covers w n lt \<longleftrightarrow> fromWeekday (weekday_of n) \<in> set (Window_StartDays w) \<and>
     (n = local_day lt \<and> s \<le> day_minute lt \<and> day_minute lt < s + len \<or>
      n = local_day lt - 1 \<and> s \<le> day_minute lt + 1440 \<and> day_minute lt + 1440 < s + len)"
  (is "_ \<longleftrightarrow> ?R")
proof
  assume c: "covers w n lt"
  then have "n * 1440 + s \<le> local_day lt * 1440 + day_minute lt"
    "local_day lt * 1440 + day_minute lt < n * 1440 + s + len"
    "fromWeekday (weekday_of n) \<in> set (Window_StartDays w)"
    by (simp_all add: covers_def sp wall_minute_def)
  with covers_day[OF c] show ?R by (auto simp: algebra_simps)
next
  assume ?R
  then show "covers w n lt" by (auto simp: covers_def sp wall_minute_def algebra_simps)
qed

lemma covers_all_day:
  assumes "Window_AllDay w"
  shows "covers w n lt \<longleftrightarrow> n = local_day lt \<and> fromWeekday (Weekday lt) \<in> set (Window_StartDays w)"
proof -
  have "window_span w = (0, 1440)" using assms by (simp add: window_span_def)
  then show ?thesis using day_minute_bounds[of lt] by (auto simp: covers_iff Weekday_def)
qed

lemma covers_same_day:
  assumes "window_span w = (s, e - s)" "0 \<le> s" "e < 1440"
  shows "covers w n lt \<longleftrightarrow> n = local_day lt \<and> fromWeekday (Weekday lt) \<in> set (Window_StartDays w) \<and>
           s \<le> day_minute lt \<and> day_minute lt < e"
  using assms(2,3) day_minute_bounds[of lt] by (auto simp: covers_iff[OF assms(1)] Weekday_def)

lemma covers_overnight:
  assumes "window_span w = (s, 1440 + e - s)" "0 \<le> e" "e < s" "s < 1440"
  shows "covers w n lt \<longleftrightarrow> fromWeekday (weekday_of n) \<in> set (Window_StartDays w) \<and>
           (n = local_day lt \<and> s \<le> day_minute lt \<or> n = local_day lt - 1 \<and> day_minute lt < e)"
  using assms(2-4) day_minute_bounds[of lt] by (auto simp: covers_iff[OF assms(1)])

section \<open>The code implements the specification\<close>

text \<open>The three shapes of a valid window.\<close>

lemma valid_window_cases:
  assumes "valid_window w"
  obtains (all_day) "Window_AllDay w"
  | (same_day) s e where "\<not> Window_AllDay w" "parseMinute (Window_Start w) = Inr s"
      "parseMinute (Window_End w) = Inr e" "0 \<le> s" "s < e" "e < 1440"
  | (overnight) s e where "\<not> Window_AllDay w" "parseMinute (Window_Start w) = Inr s"
      "parseMinute (Window_End w) = Inr e" "0 \<le> e" "e < s" "s < 1440"
proof (cases "Window_AllDay w")
  case False
  then obtain s e where se: "parseMinute (Window_Start w) = Inr s" "parseMinute (Window_End w) = Inr e" "s \<noteq> e"
    using assms by (auto simp: valid_window_def)
  then show ?thesis using that(2,3)[OF False se(1,2)] parseMinute_bounds[OF se(1)] parseMinute_bounds[OF se(2)]
    by linarith
qed (rule that(1))

lemma window_matches_covers:
  assumes "valid_window w" "steady lt (- 1)"
  shows "window_matches w lt = Inr (\<exists>n. covers w n lt)"
proof -
  have v: "ValidateWindow w = None" using assms(1) by (simp add: ValidateWindow_iff)
  from assms(1) show ?thesis
  proof (cases rule: valid_window_cases)
    case all_day
    then show ?thesis 
      by (simp add: window_matches_def v containsDay_iff covers_all_day)
  next
    case (same_day s e)
    then show ?thesis using covers_same_day[OF span_same_day[OF same_day(1-3,5)] same_day(4,6)]
      by (auto simp: window_matches_def v containsDay_iff day_minute_def Let_def)
  next
    case (overnight s e)
    have "Weekday (AddDate lt (- 1)) = weekday_of (local_day lt - 1)"
      using AddDate_day[OF assms(2)] by (simp add: Weekday_def)
    then show ?thesis
      using overnight covers_overnight[OF span_overnight[OF overnight(1-3,5)] overnight(4-6)]
      by (auto simp: window_matches_def v containsDay_iff day_minute_def Weekday_def Let_def)
  qed
qed

lemma match_windows_covers:
  assumes "\<And>w. w \<in> set ws \<Longrightarrow> valid_window w" "steady lt (- 1)"
  shows "match_windows lt ws acc = Inr (acc @ map Window_Name (filter (\<lambda>w. \<exists>n. covers w n lt) ws))"
  using assms by (induction ws arbitrary: acc) (simp_all add: window_matches_covers)

lemma hd_sort_Min:
  fixes xs :: "'a :: linorder list"
  assumes "sort xs = y # ys"
  shows "y = Min (set xs)"
proof -
  have "sorted (y # ys)" using assms by (metis sorted_sort)
  moreover have "set xs = set (y # ys)" using assms by (metis set_sort)
  ultimately show ?thesis by (auto intro!: Min_eqI[symmetric])
qed

text \<open>The names of the windows that cover an instant.\<close>

definition covering_names :: "Window list \<Rightarrow> local_time \<Rightarrow> string set" where
  "covering_names ws lt = {Window_Name w |w n. w \<in> set ws \<and> covers w n lt}"

lemma find_unique_name:
  "distinct (map Window_Name ws) \<Longrightarrow> w \<in> set ws \<Longrightarrow>
   find (\<lambda>v. Window_Name v = Window_Name w) ws = Some w"
  by (induction ws) (auto simp: image_iff)

lemma WindowInstanceID_covers:
  assumes "LoadLocation tz = Inr loc" "distinct (map Window_Name ws)" "w \<in> set ws" "valid_window w"
    and "steady (In now loc) (- 1)" "covers w n (In now loc)"
  shows "WindowInstanceID LoadLocation now tz (Window_Name w) ws =
           Inr (Window_Name w @ '':'' @ format_day n)"
  using assms(4)
proof (cases rule: valid_window_cases)
  case all_day
  then show ?thesis using assms covers_all_day[of w n]
    by (simp add: WindowInstanceID_def find_unique_name Format_date_def Let_def)
next
  case (same_day s e)
  then show ?thesis using assms covers_same_day[OF span_same_day[OF same_day(1-3,5)] same_day(4,6)]
    by (simp add: WindowInstanceID_def find_unique_name Format_date_def Let_def)
next
  case (overnight s e)
  then show ?thesis
    using assms covers_overnight[OF span_overnight[OF overnight(1-3,5)] overnight(4-6), of n]
      AddDate_day[OF assms(5)]
    by (auto simp: WindowInstanceID_def find_unique_name Format_date_def Let_def day_minute_def)
qed

section \<open>Properties\<close>

text \<open>
  C23: for windows that pass validation and a zone that loads, at an instant where the zone has the same
  offset as one day earlier (\<open>steady\<close>: both 24 hours before the instant and where the code looks the
  offset up to go back one day on the wall clock), \<^verbatim>\<open>schedule.Match\<close> does not fail; it reports a match
  exactly when some occurrence of some window covers the instant, and then the name it returns is the
  bytewise least name among the covering windows, whatever the order of the configuration. Within a day
  after a change of the offset the previous day may be computed wrongly, as
  the example of a gap at midnight at the end of this theory shows.
\<close>

theorem schedule_Match_correct:
  assumes "LoadLocation tz = Inr loc"
    and "\<And>w. w \<in> set ws \<Longrightarrow> ValidateWindow w = None"
    and "steady (In now loc) (- 1)"
  shows "schedule_Match LoadLocation now tz ws =
           (if covering_names ws (In now loc) = {} then Inr ([], False)
            else Inr (Min (covering_names ws (In now loc)), True))"
proof -
  let ?matches = "map Window_Name (filter (\<lambda>w. \<exists>n. covers w n (In now loc)) ws)"
  have "set ?matches = covering_names ws (In now loc)"
    by (auto simp: covering_names_def)
  moreover have "match_windows (In now loc) ws [] = Inr ?matches"
    using match_windows_covers[of ws "In now loc" "[]"] assms by (simp add: ValidateWindow_iff)
  moreover have "sort ?matches = [] \<longleftrightarrow> set ?matches = {}"
    by (metis set_empty set_sort)
  ultimately show ?thesis using assms(1)
    by (auto simp: schedule_Match_def split: list.splits dest: hd_sort_Min)
qed

text \<open>A night window, seen on a Saturday morning in Shanghai (UTC+8).\<close>

definition night_window :: Window where
  "night_window = \<lparr>Window_Name = ''night'', Window_StartDays = [Friday], Window_Start = ''20:00'',
     Window_End = ''08:00'', Window_AllDay = False\<rparr>"

definition saturday_morning :: gotime where
  "saturday_morning = \<lparr>t_ns = 1786146000 * Second, t_offset = 0\<rparr>"

lemmas parse_simps = parseMinute_def Atoi_def split_sign_def is_digit_def byte_def digits_val_def digit_val_def

lemmas clock_simps = In_def unix_sec_def zone_offset_def abs_sec_def local_day_def Hour_def Minute_def
  Sec_def Weekday_def weekday_of_def FixedZone_def

lemma night_valid: "ValidateWindow night_window = None"
  by (simp add: night_window_def ValidateWindow_def validDay_def parse_simps)

lemma night_span: "window_span night_window = (1200, 720)"
  by (simp add: night_window_def window_span_def parse_simps)

lemma night_covers: "covers night_window 20672 (In saturday_morning (FixedZone 28800))"
  by (simp add: covers_def night_span wall_minute_def day_minute_def saturday_morning_def clock_simps)
     (simp add: night_window_def fromWeekday_def)

theorem schedule_Match_correct_witness:
  "covering_names [night_window] (In saturday_morning (FixedZone 28800)) = {''night''} \<and>
   schedule_Match (\<lambda>_. Inr (FixedZone 28800)) saturday_morning ''Asia/Shanghai'' [night_window] =
     Inr (''night'', True)"
proof -
  have names: "covering_names [night_window] (In saturday_morning (FixedZone 28800)) = {''night''}"
    using night_covers by (auto simp: covering_names_def) (simp_all add: night_window_def)
  have "schedule_Match (\<lambda>_. Inr (FixedZone 28800)) saturday_morning ''Asia/Shanghai'' [night_window] =
      (if covering_names [night_window] (In saturday_morning (FixedZone 28800)) = {} then Inr ([], False)
       else Inr (Min (covering_names [night_window] (In saturday_morning (FixedZone 28800))), True))"
    by (rule schedule_Match_correct[where LoadLocation = "\<lambda>_. Inr (FixedZone 28800)"])
       (auto simp: night_valid In_def)
  then show ?thesis by (simp add: names)
qed

text \<open>
  C26: \<^verbatim>\<open>WindowInstanceID\<close> identifies occurrences: for two instants that fall into occurrences of the
  same validated window of a configuration with distinct window names, and at both of which the zone has
  the same offset as one day earlier (\<open>steady\<close>), the identifiers are equal exactly when the occurrences
  are the same one, also across midnight, and the identifier is the window's name and the date the
  occurrence started on. Within a day after a change of the offset the date may be a day early, as
  the example of a gap at midnight at the end of this theory shows.
\<close>

theorem WindowInstanceID_identifies:
  assumes "LoadLocation tz = Inr loc" and "distinct (map Window_Name ws)" and "w \<in> set ws"
    and "ValidateWindow w = None"
    and "steady (In now loc) (- 1)" and "steady (In later loc) (- 1)"
    and "covers w n (In now loc)" and "covers w k (In later loc)"
  shows "WindowInstanceID LoadLocation now tz (Window_Name w) ws =
           Inr (Window_Name w @ '':'' @ format_day n) \<and>
         (WindowInstanceID LoadLocation now tz (Window_Name w) ws =
            WindowInstanceID LoadLocation later tz (Window_Name w) ws \<longleftrightarrow> n = k)"
proof -
  have v: "valid_window w" using assms(4) by (simp add: ValidateWindow_iff)
  show ?thesis
    unfolding WindowInstanceID_covers[where LoadLocation = LoadLocation, OF assms(1-3) v assms(5,7)]
      WindowInstanceID_covers[where LoadLocation = LoadLocation, OF assms(1-3) v assms(6,8)]
    by (auto dest: format_day_inj)
qed

definition friday_evening :: gotime where
  "friday_evening = \<lparr>t_ns = 1786105800 * Second, t_offset = 0\<rparr>"

lemma night_covers_evening: "covers night_window 20672 (In friday_evening (FixedZone 28800))"
  by (simp add: covers_def night_span wall_minute_def day_minute_def friday_evening_def clock_simps)
     (simp add: night_window_def fromWeekday_def)

theorem WindowInstanceID_identifies_witness:
  "WindowInstanceID (\<lambda>_. Inr (FixedZone 28800)) friday_evening ''Asia/Shanghai'' ''night'' [night_window] =
     Inr ''night:2026-08-07'' \<and>
   WindowInstanceID (\<lambda>_. Inr (FixedZone 28800)) friday_evening ''Asia/Shanghai'' ''night'' [night_window] =
   WindowInstanceID (\<lambda>_. Inr (FixedZone 28800)) saturday_morning ''Asia/Shanghai'' ''night'' [night_window]"
proof -
  have name: "Window_Name night_window = ''night''" by (simp add: night_window_def)
  have day: "format_day 20672 = ''2026-08-07''" by code_simp
  have steady: "steady (In t (FixedZone 28800)) (- 1)" for t
    by (rule steady_FixedZone) (simp add: In_def)
  have "WindowInstanceID (\<lambda>_. Inr (FixedZone 28800)) friday_evening ''Asia/Shanghai''
      (Window_Name night_window) [night_window] = Inr (Window_Name night_window @ '':'' @ format_day 20672) \<and>
    (WindowInstanceID (\<lambda>_. Inr (FixedZone 28800)) friday_evening ''Asia/Shanghai''
       (Window_Name night_window) [night_window] =
     WindowInstanceID (\<lambda>_. Inr (FixedZone 28800)) saturday_morning ''Asia/Shanghai''
       (Window_Name night_window) [night_window] \<longleftrightarrow> (20672 :: int) = 20672)"
    by (rule WindowInstanceID_identifies[where LoadLocation = "\<lambda>_. Inr (FixedZone 28800)",
          OF refl _ _ night_valid steady steady night_covers_evening night_covers]) simp_all
  then show ?thesis by (metis (no_types, lifting) name day append.simps)
qed

text \<open>
  \<^verbatim>\<open>parseMinute\<close> reads back every clock time printed as two-digit hours, a colon and two-digit
  minutes, and gives the minute of the day.
\<close>

theorem parseMinute_roundtrip:
  assumes "0 \<le> h" "h < 24" "0 \<le> m" "m < 60"
  shows "parseMinute (appendInt h 2 @ '':'' @ appendInt m 2) = Inr (h * 60 + m)"
proof -
  have len: "length (appendInt h 2) = 2" "length (appendInt m 2) = 2"
    using assms by (simp_all add: length_appendInt_2)
  have dig: "list_all is_digit (appendInt h 2)" "list_all is_digit (appendInt m 2)"
    using assms by (simp_all add: appendInt_digits)
  have no_colon: "CHR '':'' \<notin> set (appendInt x 2)" if "0 \<le> x" for x
    using appendInt_digits[OF that, of 2] by (auto simp: list_all_iff is_digit_def byte_def)
  have "Split (appendInt h 2 @ '':'' @ appendInt m 2) (CHR '':'') = [appendInt h 2, appendInt m 2]"
    using assms by (simp add: Split_append Split_no_sep no_colon)
  moreover have "Atoi (appendInt h 2) = Inr h" "Atoi (appendInt m 2) = Inr m"
    using assms len dig by (simp_all add: Atoi_digits digits_val_appendInt flip: length_0_conv)
  ultimately show ?thesis using assms len by (simp add: parseMinute_def)
qed

theorem parseMinute_roundtrip_witness: "parseMinute ''07:59'' = Inr 479"
  using parseMinute_roundtrip[of 7 59] by (simp add: appendInt_def show_nat.simps digit_char_def)

text \<open>
  \<^verbatim>\<open>parseMinute\<close> also accepts signed one-digit fields, because \<^verbatim>\<open>strconv.Atoi\<close> accepts a sign:
  the time \<^verbatim>\<open>+8:-0\<close>, which is not of the form HH:MM that the error message demands, is read as
  08:00, and a window that uses it passes validation.
\<close>

theorem parseMinute_accepts_signs:
  "parseMinute ''+8:-0'' = Inr 480 \<and>
   ValidateWindow (night_window\<lparr>Window_End := ''+8:-0''\<rparr>) = None"
  by (simp add: night_window_def ValidateWindow_def validDay_def parse_simps)

text \<open>The zone of Havana around the start of daylight saving time on 2026-03-08.\<close>

definition havana :: location where
  "havana u = (if u < 1772946000 then (- 18000, 1762063200, 1772946000)
               else (- 14400, 1772946000, 1793509200))"

definition sunday_night :: Window where
  "sunday_night = \<lparr>Window_Name = ''night'', Window_StartDays = [Sunday], Window_Start = ''22:00'',
     Window_End = ''06:00'', Window_AllDay = False\<rparr>"

definition every_night :: Window where
  "every_night = sunday_night\<lparr>Window_StartDays :=
     [Monday, Tuesday, Wednesday, Thursday, Friday, Saturday, Sunday]\<rparr>"

definition monday_0030 :: gotime where
  "monday_0030 = \<lparr>t_ns = 1773030600 * Second, t_offset = 0\<rparr>"

text \<open>
  C40: where daylight saving time starts at local midnight in a zone west of Greenwich (here as in
  Havana on 2026-03-08, from UTC-5 to UTC-4), \<^verbatim>\<open>AddDate(0, 0, -1)\<close> from 00:30 of the next day lands
  two days back. A night window that started on the day of the change does not match at 00:30
  although its occurrence covers that instant, and the identifier of a window that starts on every
  day is dated one day too early.
\<close>

theorem midnight_gap_shifts_previous_day:
  "covers sunday_night 20520 (In monday_0030 havana) \<and>
   schedule_Match (\<lambda>_. Inr havana) monday_0030 ''America/Havana'' [sunday_night] = Inr ([], False) \<and>
   covers every_night 20520 (In monday_0030 havana) \<and>
   WindowInstanceID (\<lambda>_. Inr havana) monday_0030 ''America/Havana'' ''night'' [every_night] =
     Inr (''night:'' @ format_day 20519)"
proof -
  have day: "civil_from_days 20521 = (2026, 3, 9)" by code_simp
  have lt: "local_day (In monday_0030 havana) = 20521" "Hour (In monday_0030 havana) = 0"
    "Minute (In monday_0030 havana) = 30" "Sec (In monday_0030 havana) = 0"
    by (simp_all add: clock_simps monday_0030_def havana_def)
  have prev: "local_day (AddDate (In monday_0030 havana) (- 1)) = 20519"
    by (simp add: AddDate_def day lt time_Date_def days_from_civil_def)
       (simp add: clock_simps havana_def monday_0030_def)
  have span: "window_span sunday_night = (1320, 480)" "window_span every_night = (1320, 480)"
    by (simp_all add: every_night_def sunday_night_def window_span_def parse_simps)
  have valid: "ValidateWindow sunday_night = None"
    by (simp add: sunday_night_def ValidateWindow_def validDay_def parse_simps)
  have "window_matches sunday_night (In monday_0030 havana) = Inr False"
    unfolding window_matches_def
    by (simp add: valid) (simp add: sunday_night_def parse_simps weekday_of_def fromWeekday_def
        lt Weekday_def prev Let_def)
  then have "schedule_Match (\<lambda>_. Inr havana) monday_0030 ''America/Havana'' [sunday_night] = Inr ([], False)"
    by (simp add: schedule_Match_def)
  moreover have "covers sunday_night 20520 (In monday_0030 havana)"
    by (simp add: covers_def span wall_minute_def day_minute_def lt)
       (simp add: sunday_night_def weekday_of_def fromWeekday_def)
  moreover have "covers every_night 20520 (In monday_0030 havana)"
    by (simp add: covers_def span wall_minute_def day_minute_def lt)
       (simp add: every_night_def weekday_of_def fromWeekday_def)
  moreover have "WindowInstanceID (\<lambda>_. Inr havana) monday_0030 ''America/Havana'' ''night'' [every_night] =
      Inr (''night:'' @ format_day 20519)"
    by (simp add: WindowInstanceID_def Let_def Format_date_def)
       (simp add: every_night_def sunday_night_def parse_simps lt prev)
  ultimately show ?thesis by simp
qed

end
