(* ===== verification/Workload.thy ===== *)
theory Workload
  imports Prelude
begin

text \<open>
  Package \<^verbatim>\<open>internal/workload\<close>: workload values and keys, the conversion of Kubernetes objects and
  watch events, the HPA admission check, the scale gateway and the deleter. The Kubernetes client
  is a record of parameters, one action per API call the package makes; Kubernetes objects are
  records of the fields the package reads.
\<close>

section \<open>Workloads (\<^verbatim>\<open>types.go\<close>)\<close>

type_synonym Kind = string

abbreviation KindDeployment :: Kind where "KindDeployment \<equiv> ''Deployment''"
abbreviation KindStatefulSet :: Kind where "KindStatefulSet \<equiv> ''StatefulSet''"

record Container =
  Container_Name :: string
  Container_Image :: string

record Workload =
  Workload_Kind :: Kind
  Workload_Namespace :: string
  Workload_Name :: string
  Workload_UID :: string
  Workload_Labels :: "string gomap"
  Workload_Containers :: "Container list"
  Workload_CurrentReplicas :: int

definition workload_Key :: "Workload \<Rightarrow> string" where
  "workload_Key w = Workload_Kind w @ ''/'' @ Workload_Namespace w @ ''/'' @ Workload_Name w"

definition ErrUnsupportedKind :: goerr where
  "ErrUnsupportedKind = errors_New ''unsupported workload kind''"

definition ErrWatchDisconnected :: goerr where
  "ErrWatchDisconnected = errors_New ''workload watch disconnected''"

abbreviation supported_kind :: "Kind \<Rightarrow> bool" where
  "supported_kind k \<equiv> k = KindDeployment \<or> k = KindStatefulSet"

section \<open>Kubernetes objects\<close>

record ObjectMeta =
  Meta_Namespace :: string
  Meta_Name :: string
  Meta_UID :: string
  Meta_Labels :: "string gomap"

text \<open>
  A Deployment or StatefulSet: its metadata and the regular containers of its pod template, of
  which the name and the image are read.
\<close>

record AppsObject =
  Apps_Meta :: ObjectMeta
  Apps_Containers :: "(string \<times> string) list"

record HPA =
  HPA_Namespace :: string
  HPA_Name :: string
  HPA_TargetAPIVersion :: string
  HPA_TargetKind :: string
  HPA_TargetName :: string

datatype object = ObjDeployment AppsObject | ObjStatefulSet AppsObject | ObjHPA HPA | ObjOther string

text \<open>The Go type of an object, as \<^verbatim>\<open>%T\<close> prints it.\<close>

fun type_name :: "object \<Rightarrow> string" where
  "type_name (ObjDeployment _) = ''*v1.Deployment''"
| "type_name (ObjStatefulSet _) = ''*v1.StatefulSet''"
| "type_name (ObjHPA _) = ''*v2.HorizontalPodAutoscaler''"
| "type_name (ObjOther t) = t"

abbreviation watch_Added :: string where "watch_Added \<equiv> ''ADDED''"
abbreviation watch_Modified :: string where "watch_Modified \<equiv> ''MODIFIED''"
abbreviation watch_Deleted :: string where "watch_Deleted \<equiv> ''DELETED''"
abbreviation watch_Error :: string where "watch_Error \<equiv> ''ERROR''"

section \<open>Conversion and events (\<^verbatim>\<open>gateway.go\<close>)\<close>

definition fromPodTemplate :: "Kind \<Rightarrow> ObjectMeta \<Rightarrow> (string \<times> string) list \<Rightarrow> Workload" where
  "fromPodTemplate kind metadata source =
     \<lparr>Workload_Kind = kind, Workload_Namespace = Meta_Namespace metadata,
      Workload_Name = Meta_Name metadata, Workload_UID = Meta_UID metadata,
      Workload_Labels = Meta_Labels metadata,
      Workload_Containers = map (\<lambda>(n, i). \<lparr>Container_Name = n, Container_Image = i\<rparr>) source,
      Workload_CurrentReplicas = 0\<rparr>"

definition WorkloadFromDeployment :: "AppsObject \<Rightarrow> Workload" where
  "WorkloadFromDeployment d = fromPodTemplate KindDeployment (Apps_Meta d) (Apps_Containers d)"

definition WorkloadFromStatefulSet :: "AppsObject \<Rightarrow> Workload" where
  "WorkloadFromStatefulSet s = fromPodTemplate KindStatefulSet (Apps_Meta s) (Apps_Containers s)"

definition workloadFromObject :: "Kind \<Rightarrow> object \<Rightarrow> Workload result" where
  "workloadFromObject kind obj =
     (if kind = KindDeployment then
        (case obj of ObjDeployment d \<Rightarrow> Inr (WorkloadFromDeployment d)
         | _ \<Rightarrow> Inl (Errorf ''Deployment watch returned %T'' [Str (type_name obj)] []))
      else if kind = KindStatefulSet then
        (case obj of ObjStatefulSet s \<Rightarrow> Inr (WorkloadFromStatefulSet s)
         | _ \<Rightarrow> Inl (Errorf ''StatefulSet watch returned %T'' [Str (type_name obj)] []))
      else Inl (Errorf ''%w: %q'' [Str kind] [ErrUnsupportedKind]))"

datatype EventType = EventAdded | EventModified | EventDeleted | EventError | EventDisconnected

definition eventType :: "string \<Rightarrow> EventType option" where
  "eventType v =
     (if v = watch_Added then Some EventAdded
      else if v = watch_Modified then Some EventModified
      else if v = watch_Deleted then Some EventDeleted
      else None)"

record Event =
  Event_Type :: EventType
  Event_Kind :: Kind
  Event_Workload :: "Workload option"
  Event_Err :: "goerr option"

text \<open>\<^verbatim>\<open>apierrors.FromObject\<close> is the parameter \<open>FromObject\<close>.\<close>

definition convertWatchEvent :: "(object \<Rightarrow> goerr) \<Rightarrow> Kind \<Rightarrow> string \<times> object \<Rightarrow> Event" where
  "convertWatchEvent FromObject kind raw =
     (let failure = (\<lambda>err. \<lparr>Event_Type = EventError, Event_Kind = kind, Event_Workload = None, Event_Err = Some err\<rparr>)
      in if fst raw = watch_Error
         then failure (Errorf ''%s watch error: %w'' [Str kind] [FromObject (snd raw)])
         else (case eventType (fst raw) of
             None \<Rightarrow> failure (Errorf ''%s watch returned unsupported event type %q'' [Str kind, Str (fst raw)] [])
           | Some t \<Rightarrow>
               (case workloadFromObject kind (snd raw) of
                  Inl err \<Rightarrow> failure err
                | Inr w \<Rightarrow> \<lparr>Event_Type = t, Event_Kind = kind, Event_Workload = Some w, Event_Err = None\<rparr>)))"

section \<open>The Kubernetes client\<close>

record Scale =
  Scale_Replicas :: int
  Scale_Rest :: string

text \<open>
  One action per API call; a list call takes the namespace, and \<^verbatim>\<open>metav1.NamespaceAll\<close> stands for all of
  them. A call may answer with an error; \<^verbatim>\<open>GetScale\<close> may answer with a nil
  pointer. \<open>ctx_Err\<close> reads the error of the request context.
\<close>

record 'w apps_client =
  Deployments_List :: "string \<Rightarrow> ('w, AppsObject list result) io"
  StatefulSets_List :: "string \<Rightarrow> ('w, AppsObject list result) io"
  Deployments_GetScale :: "string \<Rightarrow> string \<Rightarrow> ('w, Scale option result) io"
  StatefulSets_GetScale :: "string \<Rightarrow> string \<Rightarrow> ('w, Scale option result) io"
  Deployments_UpdateScale :: "string \<Rightarrow> string \<Rightarrow> Scale \<Rightarrow> ('w, goerr option) io"
  StatefulSets_UpdateScale :: "string \<Rightarrow> string \<Rightarrow> Scale \<Rightarrow> ('w, goerr option) io"
  Deployments_Delete :: "string \<Rightarrow> string \<Rightarrow> string \<Rightarrow> ('w, goerr option) io"
  StatefulSets_Delete :: "string \<Rightarrow> string \<Rightarrow> string \<Rightarrow> ('w, goerr option) io"
  HPAs_List :: "string \<Rightarrow> ('w, HPA list result) io"
  ctx_Err :: "('w, goerr option) io"

abbreviation (input) NamespaceAll :: string where "NamespaceAll \<equiv> []"

definition ListDeployments :: "'w apps_client \<Rightarrow> ('w, AppsObject list result) io" where
  "ListDeployments c = Deployments_List c NamespaceAll"

definition ListStatefulSets :: "'w apps_client \<Rightarrow> ('w, AppsObject list result) io" where
  "ListStatefulSets c = StatefulSets_List c NamespaceAll"

definition gateway_List :: "'w apps_client \<Rightarrow> Kind \<Rightarrow> ('w, Workload list result) io" where
  "gateway_List c kind =
     (if kind = KindDeployment then do {
        items \<leftarrow> ListDeployments c;
        ret (case items of
            Inl err \<Rightarrow> Inl (Errorf ''list deployments across all namespaces: %w'' [] [err])
          | Inr ds \<Rightarrow> Inr (map WorkloadFromDeployment ds))
      } else if kind = KindStatefulSet then do {
        items \<leftarrow> ListStatefulSets c;
        ret (case items of
            Inl err \<Rightarrow> Inl (Errorf ''list statefulsets across all namespaces: %w'' [] [err])
          | Inr ss \<Rightarrow> Inr (map WorkloadFromStatefulSet ss))
      } else ret (Inl (Errorf ''%w: %q'' [Str kind] [ErrUnsupportedKind])))"

section \<open>HPA admission (\<^verbatim>\<open>hpa.go\<close>)\<close>

abbreviation HPAReasonAllowed :: string where "HPAReasonAllowed \<equiv> ''no-hpa-conflict''"
abbreviation HPAReasonConflict :: string where "HPAReasonConflict \<equiv> ''hpa-conflict''"
abbreviation HPAReasonDetectionError :: string where "HPAReasonDetectionError \<equiv> ''hpa-detection-error''"

definition ErrHPAConflict :: goerr where
  "ErrHPAConflict = errors_New ''workload is managed by an HPA''"

record HPAEvaluation =
  Eval_Allowed :: bool
  Eval_Reason :: string
  Eval_ConflictingHPA :: "(string \<times> string) option"
  Eval_Err :: "goerr option"

definition Rejection :: "HPAEvaluation \<Rightarrow> goerr option" where
  "Rejection evaluation =
     (if Eval_Allowed evaluation then None
      else (case Eval_Err evaluation of Some err \<Rightarrow> Some err | None \<Rightarrow> Some ErrHPAConflict))"

definition rejectedHPAEvaluation :: "goerr \<Rightarrow> HPAEvaluation" where
  "rejectedHPAEvaluation err =
     \<lparr>Eval_Allowed = False, Eval_Reason = HPAReasonDetectionError, Eval_ConflictingHPA = None, Eval_Err = Some err\<rparr>"

definition hpaTargetsWorkload :: "HPA \<Rightarrow> Workload \<Rightarrow> bool" where
  "hpaTargetsWorkload hpa target =
     (HPA_TargetAPIVersion hpa = ''apps/v1'' \<and> HPA_TargetKind hpa = Workload_Kind target \<and>
      HPA_TargetName hpa = Workload_Name target \<and> HPA_Namespace hpa = Workload_Namespace target)"

fun evaluate_items :: "HPA list \<Rightarrow> Workload \<Rightarrow> HPAEvaluation" where
  "evaluate_items [] target =
     \<lparr>Eval_Allowed = True, Eval_Reason = HPAReasonAllowed, Eval_ConflictingHPA = None, Eval_Err = None\<rparr>"
| "evaluate_items (hpa # items) target =
     (if hpaTargetsWorkload hpa target
      then \<lparr>Eval_Allowed = False, Eval_Reason = HPAReasonConflict,
            Eval_ConflictingHPA = Some (HPA_Namespace hpa, HPA_Name hpa), Eval_Err = None\<rparr>
      else evaluate_items items target)"

definition hpa_Evaluate :: "'w apps_client \<Rightarrow> Workload \<Rightarrow> ('w, HPAEvaluation) io" where
  "hpa_Evaluate c target =
     (if \<not> supported_kind (Workload_Kind target)
      then ret (rejectedHPAEvaluation (Errorf ''detect HPA for %s/%s/%s: %w''
             [Str (Workload_Kind target), Str (Workload_Namespace target), Str (Workload_Name target)]
             [ErrUnsupportedKind]))
      else do {
        items \<leftarrow> HPAs_List c NamespaceAll;
        ret (case items of
            Inl err \<Rightarrow> rejectedHPAEvaluation (Errorf ''list HPAs across all namespaces for %s %s/%s: %w''
              [Str (Workload_Kind target), Str (Workload_Namespace target), Str (Workload_Name target)] [err])
          | Inr hpas \<Rightarrow> evaluate_items hpas target)
      })"

section \<open>The scale gateway (\<^verbatim>\<open>scale.go\<close>) and the deleter (\<^verbatim>\<open>deleter.go\<close>)\<close>

definition scale_err :: "string \<Rightarrow> Workload \<Rightarrow> goerr list \<Rightarrow> goerr" where
  "scale_err f w = Errorf f [Str (Workload_Kind w), Str (Workload_Namespace w), Str (Workload_Name w)]"

definition scale_get :: "'w apps_client \<Rightarrow> Workload \<Rightarrow> ('w, Scale result) io" where
  "scale_get c current = do {
     cancelled \<leftarrow> ctx_Err c;
     case cancelled of
       Some err \<Rightarrow> ret (Inl (scale_err ''get %s scale %s/%s: %w'' current [err]))
     | None \<Rightarrow>
         if \<not> supported_kind (Workload_Kind current)
         then ret (Inl (Errorf ''%w: %q'' [Str (Workload_Kind current)] [ErrUnsupportedKind]))
         else do {
           answer \<leftarrow> (if Workload_Kind current = KindDeployment
                     then Deployments_GetScale c (Workload_Namespace current) (Workload_Name current)
                     else StatefulSets_GetScale c (Workload_Namespace current) (Workload_Name current));
           ret (case answer of
               Inl err \<Rightarrow> Inl (scale_err ''get %s scale %s/%s: %w'' current [err])
             | Inr None \<Rightarrow> Inl (scale_err ''get %s scale %s/%s: API returned an empty scale'' current [])
             | Inr (Some scale) \<Rightarrow> Inr scale)
         }
   }"

definition scale_update :: "'w apps_client \<Rightarrow> Workload \<Rightarrow> Scale \<Rightarrow> ('w, goerr option) io" where
  "scale_update c current scale =
     (if \<not> supported_kind (Workload_Kind current)
      then ret (Some (Errorf ''%w: %q'' [Str (Workload_Kind current)] [ErrUnsupportedKind]))
      else do {
        answer \<leftarrow> (if Workload_Kind current = KindDeployment
                  then Deployments_UpdateScale c (Workload_Namespace current) (Workload_Name current) scale
                  else StatefulSets_UpdateScale c (Workload_Namespace current) (Workload_Name current) scale);
        ret (case answer of
            Some err \<Rightarrow> Some (scale_err ''update %s scale %s/%s: %w'' current [err])
          | None \<Rightarrow> None)
      })"

definition scale_Read :: "'w apps_client \<Rightarrow> Workload \<Rightarrow> ('w, Workload result) io" where
  "scale_Read c current = do {
     answer \<leftarrow> scale_get c current;
     ret (case answer of
         Inl err \<Rightarrow> Inl err
       | Inr scale \<Rightarrow> Inr (current\<lparr>Workload_CurrentReplicas := Scale_Replicas scale\<rparr>))
   }"

definition scale_Update :: "'w apps_client \<Rightarrow> Workload \<Rightarrow> int \<Rightarrow> ('w, goerr option) io" where
  "scale_Update c current replicas = do {
     answer \<leftarrow> scale_get c current;
     case answer of
       Inl err \<Rightarrow> ret (Some err)
     | Inr scale \<Rightarrow> do {
         cancelled \<leftarrow> ctx_Err c;
         case cancelled of
           Some err \<Rightarrow> ret (Some (scale_err ''update %s scale %s/%s: %w'' current [err]))
         | None \<Rightarrow> scale_update c current (scale\<lparr>Scale_Replicas := replicas\<rparr>)
       }
   }"

abbreviation DeletePropagationForeground :: string where
  "DeletePropagationForeground \<equiv> ''Foreground''"

definition deleter_Delete :: "'w apps_client \<Rightarrow> Workload \<Rightarrow> ('w, goerr option) io" where
  "deleter_Delete c w =
     (if Workload_Kind w = KindDeployment
      then Deployments_Delete c (Workload_Namespace w) (Workload_Name w) DeletePropagationForeground
      else if Workload_Kind w = KindStatefulSet
      then StatefulSets_Delete c (Workload_Namespace w) (Workload_Name w) DeletePropagationForeground
      else ret (Some (Errorf ''%w: %q'' [Str (Workload_Kind w)] [ErrUnsupportedKind])))"

section \<open>Keys\<close>

lemma supported_kind_no_slash: "supported_kind k \<Longrightarrow> CHR ''/'' \<notin> set k"
  by auto

text \<open>
  Workload keys identify workloads: two workloads of supported kinds whose namespaces contain no
  slash (Kubernetes allows none) have the same key exactly when kind, namespace and name agree.
\<close>

theorem workload_Key_injective:
  assumes "supported_kind (Workload_Kind v)" "supported_kind (Workload_Kind w)"
    and "CHR ''/'' \<notin> set (Workload_Namespace v)" "CHR ''/'' \<notin> set (Workload_Namespace w)"
  shows "workload_Key v = workload_Key w \<longleftrightarrow>
         Workload_Kind v = Workload_Kind w \<and> Workload_Namespace v = Workload_Namespace w \<and>
         Workload_Name v = Workload_Name w"
proof
  assume "workload_Key v = workload_Key w"
  then have kind: "Workload_Kind v @ CHR ''/'' # (Workload_Namespace v @ CHR ''/'' # Workload_Name v) =
        Workload_Kind w @ CHR ''/'' # (Workload_Namespace w @ CHR ''/'' # Workload_Name w)"
    by (simp add: workload_Key_def)
  note k = append_sep_inj[OF kind supported_kind_no_slash[OF assms(1)] supported_kind_no_slash[OF assms(2)]]
  then have "Workload_Namespace v @ CHR ''/'' # Workload_Name v = Workload_Namespace w @ CHR ''/'' # Workload_Name w"
    by simp
  from append_sep_inj[OF this assms(3,4)] k
  show "Workload_Kind v = Workload_Kind w \<and> Workload_Namespace v = Workload_Namespace w \<and>
        Workload_Name v = Workload_Name w" by simp
qed (simp add: workload_Key_def)

definition sample_workload :: Workload where
  "sample_workload = \<lparr>Workload_Kind = KindDeployment, Workload_Namespace = ''shop'', Workload_Name = ''api'',
     Workload_UID = ''u1'', Workload_Labels = [(''app'', ''api'')],
     Workload_Containers = [\<lparr>Container_Name = ''app'', Container_Image = ''app:v1''\<rparr>],
     Workload_CurrentReplicas = 0\<rparr>"

theorem workload_Key_injective_witness:
  "workload_Key sample_workload \<noteq> workload_Key (sample_workload\<lparr>Workload_Namespace := ''shop2''\<rparr>)"
  using workload_Key_injective[of sample_workload "sample_workload\<lparr>Workload_Namespace := ''shop2''\<rparr>"]
  by (simp add: sample_workload_def)

section \<open>HPA admission fails closed\<close>

lemma evaluate_items_iff [spec_iff]:
  "Rejection (evaluate_items hpas target) = None \<longleftrightarrow> \<not> (\<exists>h \<in> set hpas. hpaTargetsWorkload h target)"
  by (induction hpas) (auto simp: Rejection_def)

lemma rejectedHPAEvaluation_rejects [simp]: "Rejection (rejectedHPAEvaluation err) = Some err"
  by (simp add: Rejection_def rejectedHPAEvaluation_def)

text \<open>
  HPA admission fails closed: \<^verbatim>\<open>Evaluate\<close> admits a workload exactly when its kind is supported,
  the cluster-wide list of HPAs succeeded and no listed HPA targets the workload; in every other
  case, a failed list included, \<^verbatim>\<open>Rejection\<close> is an error.
\<close>

lemma hpa_Evaluate_fail_closed:
  "Rejection (fst (run_state (hpa_Evaluate c target) w)) = None \<longleftrightarrow>
   supported_kind (Workload_Kind target) \<and>
   (\<exists>hpas. fst (run_state (HPAs_List c NamespaceAll) w) = Inr hpas \<and>
           \<not> (\<exists>h \<in> set hpas. hpaTargetsWorkload h target))"
  by (auto simp: hpa_Evaluate_def evaluate_items_iff split: prod.splits sum.splits)

section \<open>What the gateways write\<close>

text \<open>
  The calls that reach the Kubernetes API, with their answers, and the client that records them.
\<close>

datatype api_call =
    CallList Kind string
  | CallHPAs string
  | CallGetScale Kind string string "Scale option result"
  | CallUpdateScale Kind string string Scale "goerr option"
  | CallDelete Kind string string string "goerr option"
  | CallContext "goerr option"

definition traced_client :: "'w apps_client \<Rightarrow> ('w \<times> api_call list) apps_client" where
  "traced_client c =
     \<lparr>Deployments_List = (\<lambda>ns. logged (\<lambda>_. CallList KindDeployment ns) (Deployments_List c ns)),
      StatefulSets_List = (\<lambda>ns. logged (\<lambda>_. CallList KindStatefulSet ns) (StatefulSets_List c ns)),
      Deployments_GetScale = (\<lambda>ns n. logged (CallGetScale KindDeployment ns n) (Deployments_GetScale c ns n)),
      StatefulSets_GetScale = (\<lambda>ns n. logged (CallGetScale KindStatefulSet ns n) (StatefulSets_GetScale c ns n)),
      Deployments_UpdateScale =
        (\<lambda>ns n s. logged (CallUpdateScale KindDeployment ns n s) (Deployments_UpdateScale c ns n s)),
      StatefulSets_UpdateScale =
        (\<lambda>ns n s. logged (CallUpdateScale KindStatefulSet ns n s) (StatefulSets_UpdateScale c ns n s)),
      Deployments_Delete = (\<lambda>ns n p. logged (CallDelete KindDeployment ns n p) (Deployments_Delete c ns n p)),
      StatefulSets_Delete = (\<lambda>ns n p. logged (CallDelete KindStatefulSet ns n p) (StatefulSets_Delete c ns n p)),
      HPAs_List = (\<lambda>ns. logged (\<lambda>_. CallHPAs ns) (HPAs_List c ns)),
      ctx_Err = logged CallContext (ctx_Err c)\<rparr>"

text \<open>The calls that change the cluster.\<close>

fun is_mutation :: "api_call \<Rightarrow> bool" where
  "is_mutation (CallUpdateScale _ _ _ _ _) = True"
| "is_mutation (CallDelete _ _ _ _ _) = True"
| "is_mutation _ = False"

definition mutations :: "api_call list \<Rightarrow> api_call list" where
  "mutations = filter is_mutation"

lemma mutations_append [simp]: "mutations (xs @ ys) = mutations xs @ mutations ys"
  by (simp add: mutations_def)

lemma mutations_simps [simp]:
  "mutations [] = []" "mutations (e # es) = (if is_mutation e then e # mutations es else mutations es)"
  by (simp_all add: mutations_def)

text \<open>
  \<^verbatim>\<open>ScaleGateway.Update\<close> is a single read-modify-write of the scale subresource of that workload:
  it either fails without writing, or makes exactly one write, of the scale it just read with only
  the replica count replaced, and succeeds exactly when that write does; it deletes nothing.
\<close>

theorem scale_Update_single_write:
  assumes "run_state (scale_Update (traced_client c) current replicas) (w, []) = (r, (w', tr))"
  shows "(r \<noteq> None \<and> mutations tr = []) \<or>
         (\<exists>s e. CallGetScale (Workload_Kind current) (Workload_Namespace current) (Workload_Name current)
                  (Inr (Some s)) \<in> set tr \<and>
                mutations tr = [CallUpdateScale (Workload_Kind current) (Workload_Namespace current)
                  (Workload_Name current) (s\<lparr>Scale_Replicas := replicas\<rparr>) e] \<and>
                (r = None \<longleftrightarrow> e = None))"
  using assms
  by (auto simp: scale_Update_def scale_get_def scale_update_def traced_client_def run_logged
      split: prod.splits option.splits sum.splits if_splits)

text \<open>
  \<^verbatim>\<open>Delete\<close> makes at most one call that changes the cluster: the deletion, with foreground
  propagation, of exactly the given Deployment or StatefulSet; a kind it does not support is an
  error without any call.
\<close>

theorem deleter_Delete_only_target:
  assumes "run_state (deleter_Delete (traced_client c) target) (w, []) = (r, (w', tr))"
  shows "tr = (if supported_kind (Workload_Kind target)
               then [CallDelete (Workload_Kind target) (Workload_Namespace target) (Workload_Name target)
                       ''Foreground'' r]
               else []) \<and>
         (\<not> supported_kind (Workload_Kind target) \<longrightarrow> r \<noteq> None)"
  using assms
  by (auto simp: deleter_Delete_def traced_client_def run_logged split: prod.splits if_splits)

text \<open>A cluster of one workload, kept as its replica count, that answers every call.\<close>

definition one_workload :: "int apps_client" where
  "one_workload =
     (let get = (\<lambda>ns n. State (\<lambda>r. (Inr (Some \<lparr>Scale_Replicas = r, Scale_Rest = ''rv7''\<rparr>), r)));
          put = (\<lambda>ns n s. State (\<lambda>r. (None, Scale_Replicas s)));
          del = (\<lambda>ns n p. State (\<lambda>r. (None, 0)))
      in \<lparr>Deployments_List = (\<lambda>_. ret (Inr [])), StatefulSets_List = (\<lambda>_. ret (Inr [])),
          Deployments_GetScale = get, StatefulSets_GetScale = get,
          Deployments_UpdateScale = put, StatefulSets_UpdateScale = put,
          Deployments_Delete = del, StatefulSets_Delete = del,
          HPAs_List = (\<lambda>_. ret (Inr [])), ctx_Err = ret None\<rparr>)"

lemmas client_simps = one_workload_def traced_client_def run_logged Let_def sample_workload_def

theorem scale_Update_single_write_witness:
  "\<exists>tr. run_state (scale_Update (traced_client one_workload) sample_workload 3) (5, []) = (None, (3, tr)) \<and>
        mutations tr = [CallUpdateScale ''Deployment'' ''shop'' ''api''
                          \<lparr>Scale_Replicas = 3, Scale_Rest = ''rv7''\<rparr> None]"
proof -
  let ?tr = "[CallContext None,
      CallGetScale ''Deployment'' ''shop'' ''api'' (Inr (Some \<lparr>Scale_Replicas = 5, Scale_Rest = ''rv7''\<rparr>)),
      CallContext None, CallUpdateScale ''Deployment'' ''shop'' ''api'' \<lparr>Scale_Replicas = 3, Scale_Rest = ''rv7''\<rparr> None]"
  have run: "run_state (scale_Update (traced_client one_workload) sample_workload 3) (5, []) = (None, (3, ?tr))"
    by (simp add: scale_Update_def scale_get_def scale_update_def client_simps)
  from scale_Update_single_write[OF run] show ?thesis
    by (intro exI[of _ ?tr] conjI run) (auto simp: sample_workload_def)
qed

theorem deleter_Delete_only_target_witness:
  "run_state (deleter_Delete (traced_client one_workload) sample_workload) (5, []) =
     (None, (0, [CallDelete ''Deployment'' ''shop'' ''api'' ''Foreground'' None]))"
proof -
  have run: "run_state (deleter_Delete (traced_client one_workload) sample_workload) (5, []) =
      (None, (0, [CallDelete ''Deployment'' ''shop'' ''api'' ''Foreground'' None]))"
    by (simp add: deleter_Delete_def client_simps)
  from deleter_Delete_only_target[OF run] run show ?thesis by simp
qed

end
