(* ===== verification/Revision.thy ===== *)
theory Revision
  imports Workload "HOL-Library.Multiset"
begin

text \<open>
  Package \<^verbatim>\<open>internal/lifecycle\<close>, \<^verbatim>\<open>revision.go\<close>: the canonical revision of a workload. The JSON
  encoding is that of \<^verbatim>\<open>encoding/json\<close> for the two values that are hashed, with its string
  escaping (HTML-sensitive characters, control characters, the line separators U+2028 and U+2029,
  and U+FFFD for bytes that are not UTF-8). SHA-256 is the parameter \<open>Sum256\<close>, a function from byte
  strings to byte strings; what is used of it is that a digest has 32 bytes, and, where hashes are
  compared, that the two hashed inputs do not collide.
\<close>

section \<open>JSON encoding\<close>

abbreviation quote_char :: char where "quote_char \<equiv> CHR 0x22"
abbreviation backslash :: char where "backslash \<equiv> CHR 0x5C"

definition hex_digit :: "int \<Rightarrow> char" where
  "hex_digit n = ''0123456789abcdef'' ! nat n"

definition html_safe :: "char \<Rightarrow> bool" where
  "html_safe c = (32 \<le> byte c \<and> byte c < 128 \<and>
     c \<notin> {quote_char, backslash, CHR ''<'', CHR ''>'', CHR ''&''})"

definition escape_byte :: "char \<Rightarrow> string" where
  "escape_byte c =
     (if c = quote_char \<or> c = backslash then [backslash, c]
      else if byte c = 8 then backslash # ''b''
      else if byte c = 12 then backslash # ''f''
      else if byte c = 10 then backslash # ''n''
      else if byte c = 13 then backslash # ''r''
      else if byte c = 9 then backslash # ''t''
      else backslash # ''u00'' @ [hex_digit (byte c div 16), hex_digit (byte c mod 16)])"

definition between :: "int \<Rightarrow> int \<Rightarrow> string \<Rightarrow> nat \<Rightarrow> bool" where
  "between lo hi s i = (i < length s \<and> lo \<le> byte (s ! i) \<and> byte (s ! i) \<le> hi)"

text \<open>The number of continuation bytes of a valid multi-byte UTF-8 sequence, given its first byte.\<close>

definition utf8_tail :: "char \<Rightarrow> string \<Rightarrow> nat option" where
  "utf8_tail c s =
     (let b = byte c; cont = between 128 191 s in
      if 194 \<le> b \<and> b \<le> 223 \<and> cont 0 then Some 1
      else if (b = 224 \<and> between 160 191 s 0 \<or> b = 237 \<and> between 128 159 s 0 \<or>
               (225 \<le> b \<and> b \<le> 239 \<and> b \<noteq> 237) \<and> cont 0) \<and> cont 1 then Some 2
      else if (b = 240 \<and> between 144 191 s 0 \<or> b = 244 \<and> between 128 143 s 0 \<or>
               (241 \<le> b \<and> b \<le> 243) \<and> cont 0) \<and> cont 1 \<and> cont 2 then Some 3
      else None)"

fun json_escape :: "string \<Rightarrow> string" where
  "json_escape [] = []"
| "json_escape (c # cs) =
     (if byte c < 128 then (if html_safe c then [c] else escape_byte c) @ json_escape cs
      else (case utf8_tail c cs of
          None \<Rightarrow> (backslash # ''ufffd'') @ json_escape cs
        | Some n \<Rightarrow>
            (if map byte (c # take n cs) = [226, 128, 168] then backslash # ''u2028''
             else if map byte (c # take n cs) = [226, 128, 169] then backslash # ''u2029''
             else c # take n cs) @ json_escape (drop n cs)))"

definition json_string :: "string \<Rightarrow> string" where
  "json_string s = [quote_char] @ json_escape s @ [quote_char]"

fun json_join :: "string list \<Rightarrow> string" where
  "json_join [] = []"
| "json_join [x] = x"
| "json_join (x # y # ys) = x @ '','' @ json_join (y # ys)"

definition json_array :: "string list \<Rightarrow> string" where
  "json_array xs = ''['' @ json_join xs @ '']''"

definition json_container :: "Container \<Rightarrow> string" where
  "json_container c =
     ''{'' @ json_string ''container'' @ '':'' @ json_string (Container_Name c) @ '','' @
     json_string ''image'' @ '':'' @ json_string (Container_Image c) @ ''}''"

definition json_containers :: "Container list \<Rightarrow> string" where
  "json_containers cs = json_array (map json_container cs)"

section \<open>The code\<close>

abbreviation SourceContainerImages :: string where "SourceContainerImages \<equiv> ''ContainerImages''"

text \<open>A nil slice of tracked containers is \<open>None\<close>.\<close>

record TrackingSpec =
  Spec_Source :: string
  Spec_Containers :: "string list option"

record LifecycleRevision =
  Rev_TrackingSpecHash :: string
  Rev_RevisionHash :: string
  Rev_Containers :: "Container list"

record canonicalTracking =
  Tracking_Version :: int
  Tracking_Source :: string
  Tracking_Mode :: string
  Tracking_Containers :: "string list"

definition json_tracking :: "canonicalTracking \<Rightarrow> string" where
  "json_tracking t =
     ''{'' @ json_string ''version'' @ '':'' @ appendInt (Tracking_Version t) 0 @ '','' @
     json_string ''source'' @ '':'' @ json_string (Tracking_Source t) @ '','' @
     json_string ''mode'' @ '':'' @ json_string (Tracking_Mode t) @ '','' @
     json_string ''containers'' @ '':'' @ json_array (map json_string (Tracking_Containers t)) @ ''}''"

definition EncodeToString :: "string \<Rightarrow> string" where
  "EncodeToString bs = concat (map (\<lambda>b. [hex_digit (byte b div 16), hex_digit (byte b mod 16)]) bs)"

text \<open>\<^verbatim>\<open>hashJSON\<close> of a value that is already encoded; encoding these values never fails.\<close>

definition hashJSON :: "(string \<Rightarrow> string) \<Rightarrow> string \<Rightarrow> string" where
  "hashJSON Sum256 encoded = ''sha256:'' @ EncodeToString (Sum256 encoded)"

fun available_containers :: "Container list \<Rightarrow> Container gomap \<Rightarrow> Container gomap result" where
  "available_containers [] available = Inr available"
| "available_containers (c # cs) available =
     (if Container_Name c = [] \<or> Container_Image c = []
      then Inl (errors_New ''container name and image must be non-empty'')
      else if map_of available (Container_Name c) \<noteq> None
      then Inl (Errorf ''duplicate workload container %q'' [Str (Container_Name c)] [])
      else available_containers cs (AList.update (Container_Name c) c available))"

text \<open>The selection loop over the sorted names, with the previous name.\<close>

fun select_names :: "Container gomap \<Rightarrow> string option \<Rightarrow> string list \<Rightarrow> Container list result" where
  "select_names available previous [] = Inr []"
| "select_names available previous (name # names) =
     (if previous = Some name
      then Inl (Errorf ''duplicate tracked container %q'' [Str name] [])
      else (case map_of available name of
          None \<Rightarrow> Inl (Errorf ''tracked container %q not found'' [Str name] [])
        | Some c \<Rightarrow>
            (case select_names available (Some name) names of
               Inl err \<Rightarrow> Inl err
             | Inr cs \<Rightarrow> Inr (c # cs))))"

definition selectContainers ::
  "Container list \<Rightarrow> string list option \<Rightarrow> (Container list \<times> string list \<times> string) result" where
  "selectContainers containers tracked =
     (case available_containers containers [] of
        Inl err \<Rightarrow> Inl err
      | Inr available \<Rightarrow>
          if available = [] then Inl (errors_New ''workload has no regular containers'')
          else if tracked = Some [] then Inl (errors_New ''tracked containers must be omitted or non-empty'')
          else
            let (mode, names) = (case tracked of
                  None \<Rightarrow> (''AllContainers'', map fst available)
                | Some ts \<Rightarrow> (''NamedContainers'', ts));
                names = sort names
            in (case select_names available None names of
                  Inl err \<Rightarrow> Inl err
                | Inr selected \<Rightarrow> Inr (selected, names, mode)))"

definition CalculateRevision ::
  "(string \<Rightarrow> string) \<Rightarrow> Container list \<Rightarrow> TrackingSpec \<Rightarrow> LifecycleRevision result" where
  "CalculateRevision Sum256 containers spec =
     (let source = (if Spec_Source spec = [] then SourceContainerImages else Spec_Source spec) in
      if source \<noteq> SourceContainerImages
      then Inl (Errorf ''unsupported revision source %q'' [Str source] [])
      else (case selectContainers containers (Spec_Containers spec) of
          Inl err \<Rightarrow> Inl err
        | Inr (selected, names, mode) \<Rightarrow>
            Inr \<lparr>Rev_TrackingSpecHash = hashJSON Sum256 (json_tracking
                   \<lparr>Tracking_Version = 1, Tracking_Source = source, Tracking_Mode = mode,
                    Tracking_Containers = names\<rparr>),
                 Rev_RevisionHash = hashJSON Sum256 (json_containers selected),
                 Rev_Containers = selected\<rparr>))"

section \<open>Selecting containers\<close>

definition valid_containers :: "Container list \<Rightarrow> bool" where
  "valid_containers cs \<longleftrightarrow>
     (\<forall>c \<in> set cs. Container_Name c \<noteq> [] \<and> Container_Image c \<noteq> []) \<and> distinct (map Container_Name cs)"

definition by_name :: "Container list \<Rightarrow> Container gomap" where
  "by_name cs = map (\<lambda>c. (Container_Name c, c)) cs"

lemma fst_by_name [simp]: "map fst (by_name cs) = map Container_Name cs"
  by (simp add: by_name_def comp_def)

lemma by_name_lookup:
  assumes "distinct (map Container_Name cs)"
  shows "map_of (by_name cs) n = Some c \<longleftrightarrow> c \<in> set cs \<and> Container_Name c = n"
  using map_of_eq_Some_iff[of "by_name cs" n c] assms
  by (simp only: fst_by_name) (auto simp: by_name_def)

lemma alist_update_new: "k \<notin> set (map fst m) \<Longrightarrow> AList.update k v m = m @ [(k, v)]"
  by (induction m) auto

lemma available_containers_iff:
  "available_containers cs acc = Inr m \<longleftrightarrow>
   valid_containers cs \<and> set (map Container_Name cs) \<inter> set (map fst acc) = {} \<and> m = acc @ by_name cs"
proof (induction cs arbitrary: acc)
  case Nil
  then show ?case by (auto simp: valid_containers_def by_name_def)
next
  case (Cons c cs)
  show ?case
  proof (cases "Container_Name c \<in> set (map fst acc)")
    case True
    then have "map_of acc (Container_Name c) \<noteq> None" by (simp add: map_of_eq_None_iff)
    with True show ?thesis by auto
  next
    case False
    then have "map_of acc (Container_Name c) = None" by (simp add: map_of_eq_None_iff)
    with False Cons.IH[of "AList.update (Container_Name c) c acc"] show ?thesis
      by (auto simp: alist_update_new valid_containers_def by_name_def)
  qed
qed

lemma select_names_cong: "map_of a = map_of b \<Longrightarrow> select_names a p ns = select_names b p ns"
  by (induction ns arbitrary: p) (auto split: option.splits)

lemma select_names_iff:
  "select_names av p ns = Inr sel \<longleftrightarrow>
   distinct_adj (case p of None \<Rightarrow> ns | Some q \<Rightarrow> q # ns) \<and> map Some sel = map (map_of av) ns"
proof (induction ns arbitrary: p sel)
  case Nil
  then show ?case by (cases p) auto
next
  case (Cons n ns)
  show ?case
  proof (cases "p = Some n")
    case True
    then show ?thesis by simp
  next
    case False
    then have adj: "distinct_adj (case p of None \<Rightarrow> n # ns | Some q \<Rightarrow> q # n # ns) = distinct_adj (n # ns)"
      by (cases p) auto
    have adj': "distinct_adj (case Some n of None \<Rightarrow> ns | Some q \<Rightarrow> q # ns) = distinct_adj (n # ns)"
      by simp
    show ?thesis
      using False Cons.IH[of "Some n"] unfolding adj
      by (cases sel) (auto split: option.splits sum.splits, metis inj_Some inj_map_eq_map)
  qed
qed

lemma sorted_distinct_adj:
  fixes xs :: "'a :: linorder list"
  shows "sorted xs \<Longrightarrow> distinct_adj xs \<Longrightarrow> sorted_wrt (<) xs"
proof (induction xs rule: induct_list012)
  case (3 x y zs)
  then have "x < y" by auto
  moreover have "sorted_wrt (<) (y # zs)" using 3 by auto
  ultimately show ?case by auto
qed auto

text \<open>What a successful selection is: the wanted containers, strictly sorted by name.\<close>

definition tracked_names :: "string list option \<Rightarrow> Container list \<Rightarrow> string set" where
  "tracked_names tracked cs = (case tracked of None \<Rightarrow> Container_Name ` set cs | Some ts \<Rightarrow> set ts)"

text \<open>Looking names up in containers of distinct names selects the containers of those names.\<close>

lemma lookup_selection:
  assumes d: "distinct (map Container_Name cs)" and look: "map Some sel = map (map_of (by_name cs)) names"
  shows "names = map Container_Name sel" "set sel = {c \<in> set cs. Container_Name c \<in> set names}"
proof -
  have "length sel = length names" using look by (metis length_map)
  moreover have nth: "sel ! i \<in> set cs \<and> Container_Name (sel ! i) = names ! i" if "i < length sel" for i
    using arg_cong[OF look, of "\<lambda>l. l ! i"] that calculation by_name_lookup[OF d] by (simp add: eq_commute[of "Some _"])
  ultimately show names: "names = map Container_Name sel" by (auto intro!: nth_equalityI)
  have sub: "set sel \<subseteq> set cs" using nth by (auto simp: in_set_conv_nth)
  have inj: "inj_on Container_Name (set cs)" using d by (simp add: distinct_map)
  show "set sel = {c \<in> set cs. Container_Name c \<in> set names}"
  proof (intro equalityI subsetI)
    fix c assume "c \<in> {c \<in> set cs. Container_Name c \<in> set names}"
    then obtain s where "s \<in> set sel" "Container_Name s = Container_Name c" "c \<in> set cs" by (auto simp: names)
    then show "c \<in> set sel" using inj_onD[OF inj, of s c] sub by auto
  qed (use sub in \<open>auto simp: names\<close>)
qed

lemma selectContainers_Inr:
  assumes "selectContainers cs tracked = Inr (sel, names, mode)"
  shows "valid_containers cs" "names = map Container_Name sel" "sorted_wrt (<) names"
    "set sel = {c \<in> set cs. Container_Name c \<in> tracked_names tracked cs}" "set names = tracked_names tracked cs"
    "sel \<noteq> []" "mode = (if tracked = None then ''AllContainers'' else ''NamedContainers'')"
proof -
  define ns where "ns = (case tracked of None \<Rightarrow> map Container_Name cs | Some ts \<Rightarrow> ts)"
  obtain m where "available_containers cs [] = Inr m"
    using assms by (cases "available_containers cs []") (simp_all add: selectContainers_def)
  then have av: "available_containers cs [] = Inr (by_name cs)" and v: "valid_containers cs"
    by (simp_all add: available_containers_iff)
  have code: "selectContainers cs tracked =
      (if by_name cs = [] then Inl (errors_New ''workload has no regular containers'')
       else if tracked = Some [] then Inl (errors_New ''tracked containers must be omitted or non-empty'')
       else case select_names (by_name cs) None (sort ns) of Inl err \<Rightarrow> Inl err
         | Inr selected \<Rightarrow> Inr (selected, sort ns,
             if tracked = None then ''AllContainers'' else ''NamedContainers''))"
    unfolding ns_def by (cases tracked) (simp_all add: selectContainers_def av Let_def split: sum.split)
  have nonempty: "cs \<noteq> []" "tracked \<noteq> Some []" and sel: "select_names (by_name cs) None (sort ns) = Inr sel"
    and names: "names = sort ns" and mode: "mode = (if tracked = None then ''AllContainers'' else ''NamedContainers'')"
    using assms unfolding code by (auto simp: by_name_def split: if_splits sum.splits)
  have adj: "distinct_adj names" and look: "map Some sel = map (map_of (by_name cs)) names"
    using sel names by (auto simp: select_names_iff)
  have tn: "set names = tracked_names tracked cs"
    unfolding names by (auto simp: ns_def tracked_names_def split: option.splits)
  have "distinct (map Container_Name cs)" using v by (simp add: valid_containers_def)
  note chosen = lookup_selection[OF this look]
  show "sorted_wrt (<) names" using sorted_distinct_adj[OF _ adj] names by simp
  have "ns \<noteq> []" using nonempty by (auto simp: ns_def split: option.splits)
  then show "sel \<noteq> []" using chosen(1) names by (metis length_0_conv length_sort list.map_disc_iff)
  show "set sel = {c \<in> set cs. Container_Name c \<in> tracked_names tracked cs}" using chosen(2) tn by simp
  show "valid_containers cs" "names = map Container_Name sel" "set names = tracked_names tracked cs"
    "mode = (if tracked = None then ''AllContainers'' else ''NamedContainers'')" by (fact v chosen(1) tn mode)+
qed

text \<open>A selection is determined by the set of selected containers.\<close>

lemma sorted_by_name_unique:
  assumes "sorted_wrt (<) (map Container_Name xs)" "sorted_wrt (<) (map Container_Name ys)" "set xs = set ys"
  shows "xs = ys"
proof -
  have eq: "map Container_Name xs = map Container_Name ys"
    using assms strict_sorted_equal by (metis list.set_map)
  have "inj_on Container_Name (set xs)"
    using assms(1) by (metis distinct_map strict_sorted_iff)
  then show ?thesis using eq assms(3) by (metis inj_on_map_eq_map Un_absorb)
qed

section \<open>Encodings and hashes are injective\<close>

lemma hex_digit_inj:
  assumes "0 \<le> a" "a < 16" "0 \<le> b" "b < 16" "hex_digit a = hex_digit b"
  shows "a = b"
proof -
  have "distinct ''0123456789abcdef''" by simp
  then have "nat a = nat b"
    using assms nth_eq_iff_index_eq[of "''0123456789abcdef''" "nat a" "nat b"] by (simp add: hex_digit_def)
  then show ?thesis using assms by simp
qed

lemma byte_bounds: "0 \<le> byte c" "byte c < 256"
  using nat_of_char_less_256[of c] by (simp_all add: byte_def)

lemma byte_inj: "byte c = byte d \<Longrightarrow> c = d"
  by (simp add: byte_def)

lemma hex_byte_inj:
  assumes "hex_digit (byte c div 16) = hex_digit (byte d div 16)"
    "hex_digit (byte c mod 16) = hex_digit (byte d mod 16)"
  shows "c = d"
proof -
  have "byte c div 16 = byte d div 16" "byte c mod 16 = byte d mod 16"
    using assms byte_bounds[of c] byte_bounds[of d] by (auto intro!: hex_digit_inj)
  then show ?thesis by (metis byte_inj div_mult_mod_eq)
qed

lemma EncodeToString_inj: "EncodeToString xs = EncodeToString ys \<Longrightarrow> xs = ys"
proof (induction xs arbitrary: ys)
  case Nil
  then show ?case by (cases ys) (simp_all add: EncodeToString_def)
next
  case (Cons x xs)
  then show ?case by (cases ys) (auto simp: EncodeToString_def dest: hex_byte_inj)
qed

lemma hashJSON_inj: "hashJSON h x = hashJSON h y \<longleftrightarrow> h x = h y"
  by (auto simp: hashJSON_def dest: EncodeToString_inj)

text \<open>
  Plain text: what JSON writes as it is. Kubernetes container names and image references are.
\<close>

definition plain :: "string \<Rightarrow> bool" where
  "plain s = list_all html_safe s"

definition plain_container :: "Container \<Rightarrow> bool" where
  "plain_container c = (plain (Container_Name c) \<and> plain (Container_Image c))"

lemma json_escape_plain: "plain s \<Longrightarrow> json_escape s = s"
  by (induction s) (auto simp: plain_def html_safe_def)

lemma plain_no_quote: "plain s \<Longrightarrow> quote_char \<notin> set s"
  by (auto simp: plain_def html_safe_def list_all_iff)

lemma json_string_sep:
  assumes "json_string a @ x = json_string b @ y" "plain a" "plain b"
  shows "a = b \<and> x = y"
  using assms append_sep_inj[of a quote_char x b y]
  by (simp add: json_string_def json_escape_plain plain_no_quote)

lemma json_container_sep:
  assumes eq: "json_container c @ x = json_container d @ y" and "plain_container c" "plain_container d"
  shows "c = d \<and> x = y"
proof -
  have p: "plain (Container_Name c)" "plain (Container_Name d)" "plain (Container_Image c)" "plain (Container_Image d)"
    using assms(2,3) by (simp_all add: plain_container_def)
  let ?rest = "\<lambda>c x. '','' @ json_string ''image'' @ '':'' @ json_string (Container_Image c) @ ''}'' @ x"
  have "json_string (Container_Name c) @ ?rest c x = json_string (Container_Name d) @ ?rest d y"
    using eq by (simp add: json_container_def)
  from json_string_sep[OF this p(1,2)]
  have n: "Container_Name c = Container_Name d" and r: "?rest c x = ?rest d y" by auto
  then have "json_string (Container_Image c) @ ''}'' @ x = json_string (Container_Image d) @ ''}'' @ y" by simp
  from json_string_sep[OF this p(3,4)] n show ?thesis by simp
qed

lemma json_join_Cons: "json_join (x # xs) = x @ (if xs = [] then [] else '','' @ json_join xs)"
  by (cases xs) auto

lemma json_containers_inj:
  assumes "list_all plain_container cs" "list_all plain_container ds"
    "json_containers cs = json_containers ds"
  shows "cs = ds"
proof -
  have "json_join (map json_container cs) @ '']'' = json_join (map json_container ds) @ '']''"
    using assms(3) by (simp add: json_containers_def json_array_def)
  then show ?thesis using assms(1,2)
  proof (induction cs arbitrary: ds)
    case Nil
    then show ?case by (cases ds) (auto simp: json_join_Cons json_container_def)
  next
    case (Cons c cs)
    show ?case
    proof (cases ds)
      case Nil
      then show ?thesis using Cons.prems by (auto simp: json_join_Cons json_container_def)
    next
      case (Cons d ds')
      let ?r = "\<lambda>l. (if l = [] then [] else '','' @ json_join (map json_container l)) @ '']''"
      have "json_container c @ ?r cs = json_container d @ ?r ds'"
        using Cons.prems(1) Cons by (simp add: json_join_Cons)
      from json_container_sep[OF this] Cons.prems Cons
      have "c = d" and r: "?r cs = ?r ds'" by simp_all
      moreover have "cs = ds'"
        using r Cons.prems Cons.IH[of ds'] Cons by (cases "cs = []"; cases "ds' = []") auto
      ultimately show ?thesis using Cons by simp
    qed
  qed
qed

section \<open>Properties\<close>

lemma CalculateRevision_Inr:
  assumes "CalculateRevision h cs spec = Inr r"
  obtains names mode where "selectContainers cs (Spec_Containers spec) = Inr (Rev_Containers r, names, mode)"
    "Rev_RevisionHash r = hashJSON h (json_containers (Rev_Containers r))"
    "Rev_TrackingSpecHash r = hashJSON h (json_tracking \<lparr>Tracking_Version = 1,
       Tracking_Source = SourceContainerImages, Tracking_Mode = mode, Tracking_Containers = names\<rparr>)"
  using assms by (auto simp: CalculateRevision_def Let_def split: sum.splits if_splits)

text \<open>
  A revision is canonical: a successful calculation selects exactly the containers the tracking
  specification names, or all of them when it names none, at least one, in strictly increasing
  order of their names.
\<close>

theorem CalculateRevision_canonical:
  assumes "CalculateRevision Sum256 cs spec = Inr r"
  shows "set (Rev_Containers r) =
           {c \<in> set cs. case Spec_Containers spec of None \<Rightarrow> True | Some ts \<Rightarrow> Container_Name c \<in> set ts} \<and>
         Rev_Containers r \<noteq> [] \<and>
         sorted_wrt (<) (map Container_Name (Rev_Containers r))"
proof -
  obtain names mode where "selectContainers cs (Spec_Containers spec) = Inr (Rev_Containers r, names, mode)"
    using CalculateRevision_Inr[OF assms] by metis
  from selectContainers_Inr[OF this] show ?thesis
    by (auto simp: tracked_names_def split: option.splits)
qed

definition two_containers :: "Container list" where
  "two_containers = [\<lparr>Container_Name = ''sidecar'', Container_Image = ''proxy:v1''\<rparr>,
                     \<lparr>Container_Name = ''app'', Container_Image = ''app:v1''\<rparr>]"

definition track_all :: TrackingSpec where
  "track_all = \<lparr>Spec_Source = [], Spec_Containers = None\<rparr>"

lemma two_containers_revision:
  "\<exists>r. CalculateRevision Sum256 two_containers track_all = Inr r \<and>
       Rev_Containers r = [\<lparr>Container_Name = ''app'', Container_Image = ''app:v1''\<rparr>,
                     \<lparr>Container_Name = ''sidecar'', Container_Image = ''proxy:v1''\<rparr>]"
  by (simp add: CalculateRevision_def selectContainers_def two_containers_def track_all_def)

theorem CalculateRevision_canonical_witness:
  "\<exists>r. CalculateRevision (\<lambda>_. replicate 32 (CHR ''0'')) two_containers track_all = Inr r \<and>
       set (Rev_Containers r) = set two_containers"
proof -
  obtain r where r: "CalculateRevision (\<lambda>_. replicate 32 (CHR ''0'')) two_containers track_all = Inr r"
    using two_containers_revision by blast
  from CalculateRevision_canonical[OF r] r show ?thesis by (auto simp: track_all_def)
qed

lemma selectContainers_perm:
  assumes "mset cs = mset ds" "valid_containers cs"
  shows "selectContainers cs tracked = selectContainers ds tracked"
proof -
  have v: "valid_containers ds"
    using assms by (metis valid_containers_def mset_map mset_eq_imp_distinct_iff mset_eq_setD)
  have av: "available_containers cs [] = Inr (by_name cs)" "available_containers ds [] = Inr (by_name ds)"
    using assms(2) v by (simp_all add: available_containers_iff)
  have set: "set cs = set ds" using assms(1) by (rule mset_eq_setD)
  have d: "distinct (map Container_Name cs)" "distinct (map Container_Name ds)"
    using assms(2) v by (simp_all add: valid_containers_def)
  have look: "map_of (by_name cs) = map_of (by_name ds)"
  proof
    fix n
    show "map_of (by_name cs) n = map_of (by_name ds) n"
      using by_name_lookup[OF d(1), of n] by_name_lookup[OF d(2), of n] set
      by (cases "map_of (by_name cs) n"; cases "map_of (by_name ds) n") fastforce+
  qed
  have sorts: "sort (map Container_Name cs) = sort (map Container_Name ds)"
    using assms(1) by (intro properties_for_sort) simp_all
  have empty: "by_name cs = [] \<longleftrightarrow> by_name ds = []"
    using set by (auto simp: by_name_def simp del: set_empty simp flip: set_empty)
  show ?thesis
    by (cases tracked) (simp_all add: selectContainers_def av empty sorts Let_def select_names_cong[OF look] split: sum.split)
qed

text \<open>
  The revision does not depend on the order in which the pod template lists its containers:
  reordering them gives the same hashes and the same canonical list.
\<close>

theorem CalculateRevision_order_independent:
  assumes "mset cs = mset ds" and "CalculateRevision Sum256 cs spec = Inr r"
  shows "CalculateRevision Sum256 ds spec = Inr r"
proof -
  obtain names mode where sel: "selectContainers cs (Spec_Containers spec) = Inr (Rev_Containers r, names, mode)"
    using CalculateRevision_Inr[OF assms(2)] by metis
  have eq: "selectContainers ds (Spec_Containers spec) = selectContainers cs (Spec_Containers spec)"
    by (rule selectContainers_perm[OF assms(1) selectContainers_Inr(1)[OF sel], symmetric])
  have "CalculateRevision Sum256 ds spec = CalculateRevision Sum256 cs spec"
    by (simp only: CalculateRevision_def eq)
  with assms(2) show ?thesis by simp
qed

theorem CalculateRevision_order_independent_witness:
  "\<exists>r. CalculateRevision (\<lambda>_. replicate 32 (CHR ''0'')) two_containers track_all = Inr r \<and>
       CalculateRevision (\<lambda>_. replicate 32 (CHR ''0'')) (rev two_containers) track_all = Inr r"
proof -
  obtain r where r: "CalculateRevision (\<lambda>_. replicate 32 (CHR ''0'')) two_containers track_all = Inr r"
    using two_containers_revision by blast
  from CalculateRevision_order_independent[OF _ r, of "rev two_containers"] r show ?thesis by auto
qed

text \<open>
  C30: the revision hash identifies the tracked images: for two workloads whose container names and
  images are plain ASCII text, and unless SHA-256 collides on the two canonical encodings, the
  revision hashes are equal exactly when the sets of tracked (name, image) pairs are equal. An
  untracked sidecar or the order of containers never matters, a tracked image always does.
\<close>

theorem revision_hash_identifies_images:
  assumes r: "CalculateRevision Sum256 cs spec = Inr r" and s: "CalculateRevision Sum256 ds spec' = Inr s"
    and "list_all plain_container cs" "list_all plain_container ds"
    and no_collision: "Sum256 (json_containers (Rev_Containers r)) = Sum256 (json_containers (Rev_Containers s)) \<Longrightarrow>
      json_containers (Rev_Containers r) = json_containers (Rev_Containers s)"
  shows "Rev_RevisionHash r = Rev_RevisionHash s \<longleftrightarrow>
         {c \<in> set cs. case Spec_Containers spec of None \<Rightarrow> True | Some ts \<Rightarrow> Container_Name c \<in> set ts} =
         {c \<in> set ds. case Spec_Containers spec' of None \<Rightarrow> True | Some ts \<Rightarrow> Container_Name c \<in> set ts}"
proof -
  obtain n m where selr: "selectContainers cs (Spec_Containers spec) = Inr (Rev_Containers r, n, m)"
    and hr: "Rev_RevisionHash r = hashJSON Sum256 (json_containers (Rev_Containers r))"
    using CalculateRevision_Inr[OF r] by metis
  obtain n' m' where sels: "selectContainers ds (Spec_Containers spec') = Inr (Rev_Containers s, n', m')"
    and hs: "Rev_RevisionHash s = hashJSON Sum256 (json_containers (Rev_Containers s))"
    using CalculateRevision_Inr[OF s] by metis
  note R = selectContainers_Inr[OF selr] and S = selectContainers_Inr[OF sels]
  have sets: "set (Rev_Containers r) =
      {c \<in> set cs. case Spec_Containers spec of None \<Rightarrow> True | Some ts \<Rightarrow> Container_Name c \<in> set ts}"
    "set (Rev_Containers s) =
      {c \<in> set ds. case Spec_Containers spec' of None \<Rightarrow> True | Some ts \<Rightarrow> Container_Name c \<in> set ts}"
    using R(4) S(4) by (auto simp: tracked_names_def split: option.splits)
  then have plain: "list_all plain_container (Rev_Containers r)" "list_all plain_container (Rev_Containers s)"
    using assms(3,4) by (auto simp: list_all_iff)
  have "Rev_RevisionHash r = Rev_RevisionHash s \<longleftrightarrow> Rev_Containers r = Rev_Containers s"
    using no_collision json_containers_inj[OF plain] by (auto simp: hr hs hashJSON_inj)
  also have "\<dots> \<longleftrightarrow> set (Rev_Containers r) = set (Rev_Containers s)"
    using sorted_by_name_unique[of "Rev_Containers r" "Rev_Containers s"] R(2,3) S(2,3) by auto
  finally show ?thesis by (simp only: sets)
qed

text \<open>The identity stands for a hash function without collisions.\<close>

definition track_app :: TrackingSpec where
  "track_app = \<lparr>Spec_Source = [], Spec_Containers = Some [''app'']\<rparr>"

lemma app_revisions:
  "\<exists>r. CalculateRevision Sum256 two_containers track_app = Inr r"
  "\<exists>r. CalculateRevision Sum256 (tl two_containers) track_all = Inr r"
  by (simp_all add: CalculateRevision_def selectContainers_def two_containers_def track_all_def track_app_def)

lemma two_containers_plain: "list_all plain_container two_containers" "list_all plain_container (tl two_containers)"
  by (simp_all add: two_containers_def plain_container_def plain_def html_safe_def byte_def)

theorem revision_hash_identifies_images_witness:
  "\<exists>r s. CalculateRevision (\<lambda>x. x) two_containers track_app = Inr r \<and>
         CalculateRevision (\<lambda>x. x) (tl two_containers) track_all = Inr s \<and>
         Rev_RevisionHash r = Rev_RevisionHash s"
proof -
  obtain r s where r: "CalculateRevision (\<lambda>x. x) two_containers track_app = Inr r"
    and s: "CalculateRevision (\<lambda>x. x) (tl two_containers) track_all = Inr s"
    using app_revisions by blast
  have "Rev_RevisionHash r = Rev_RevisionHash s"
    by (subst revision_hash_identifies_images[OF r s two_containers_plain])
      (auto simp: two_containers_def track_all_def track_app_def)
  with r s show ?thesis by blast
qed

end
