(* ===== verification/Lifecycle.thy ===== *)
theory Lifecycle
  imports GoTime
begin

text \<open>
  Package \<^verbatim>\<open>internal/lifecycle\<close>, \<^verbatim>\<open>decision.go\<close>: the pure decision engine. The replica counts are
  Go \<^verbatim>\<open>int32\<close> values; they are only compared, copied and passed to \<^verbatim>\<open>min\<close>, so integers represent
  them exactly. A nil pointer to a snapshot is \<open>None\<close>.
\<close>

section \<open>The code\<close>

abbreviation ReasonRevisionExpired :: string where
  "ReasonRevisionExpired \<equiv> ''revision-lifecycle-expired''"
abbreviation ReasonRevisionExpiredDeleted :: string where
  "ReasonRevisionExpiredDeleted \<equiv> ''revision-lifecycle-expired:deleted''"
abbreviation ReasonScaleDownSkipped :: string where
  "ReasonScaleDownSkipped \<equiv> ''scale-down-skipped:redeploy''"
abbreviation ReasonScaleDownSkippedReplicaOverride :: string where
  "ReasonScaleDownSkippedReplicaOverride \<equiv> ''scale-down-skipped:replica-override''"
abbreviation ReasonScaleDownWindow :: string where
  "ReasonScaleDownWindow \<equiv> ''scale-down-window''"
abbreviation ReasonRestoreReplicas :: string where
  "ReasonRestoreReplicas \<equiv> ''restore-previous-replicas''"
abbreviation ReasonActiveWindow :: string where
  "ReasonActiveWindow \<equiv> ''active-window''"

record DecisionInput =
  In_Now :: gotime
  In_FirstSeenAt :: gotime
  In_MaxAge :: duration
  In_CurrentReplicas :: int
  In_SnapshotReplicas :: "int option"
  In_ScheduledDown :: bool
  In_ScheduledWindowName :: string
  In_ScheduledTarget :: int
  In_ExpiredTarget :: int
  In_ScaleDownSkipped :: bool
  In_ScaleDownSkipReason :: string
  In_ExpiredAction :: string

record Decision =
  DesiredReplicas :: int
  Reason :: string
  NeedsSnapshot :: bool
  ShouldScale :: bool
  ClearSnapshotAfterScale :: bool
  DeleteWorkload :: bool

definition mkDecision :: "int \<Rightarrow> string \<Rightarrow> bool \<Rightarrow> bool \<Rightarrow> bool \<Rightarrow> bool \<Rightarrow> Decision" where
  "mkDecision desired reason needs scale clear del =
     \<lparr>DesiredReplicas = desired, Reason = reason, NeedsSnapshot = needs, ShouldScale = scale,
      ClearSnapshotAfterScale = clear, DeleteWorkload = del\<rparr>"

text \<open>The zero value \<^verbatim>\<open>Decision{}\<close>.\<close>

definition zeroDecision :: Decision where
  "zeroDecision = mkDecision 0 [] False False False False"

definition downDecision :: "DecisionInput \<Rightarrow> int \<Rightarrow> string \<Rightarrow> Decision" where
  "downDecision input target reason =
     (let needsSnapshot = (In_SnapshotReplicas input = None);
          baseline = (case In_SnapshotReplicas input of
              None \<Rightarrow> In_CurrentReplicas input | Some snapshot \<Rightarrow> snapshot);
          desired = min target baseline
      in mkDecision desired reason needsSnapshot (desired \<noteq> In_CurrentReplicas input) False False)"

definition Decide :: "DecisionInput \<Rightarrow> Decision" where
  "Decide input =
     (if \<not> Before (In_Now input) (Add (In_FirstSeenAt input) (In_MaxAge input)) then
        (if In_ExpiredAction input = ''delete''
         then mkDecision (In_CurrentReplicas input) ReasonRevisionExpiredDeleted False False False True
         else downDecision input (In_ExpiredTarget input) ReasonRevisionExpired)
      else if In_ScaleDownSkipped input \<and> In_ScheduledDown input then
        (let reason = (if In_ScaleDownSkipReason input = [] then ReasonScaleDownSkipped
                       else In_ScaleDownSkipReason input)
         in mkDecision (In_CurrentReplicas input) reason False False False False)
      else if In_ScheduledDown input then
        (let reason = (if In_ScheduledWindowName input \<noteq> []
                       then ReasonScaleDownWindow @ '':'' @ In_ScheduledWindowName input
                       else ReasonScaleDownWindow)
         in downDecision input (In_ScheduledTarget input) reason)
      else (case In_SnapshotReplicas input of
          Some desired \<Rightarrow>
            mkDecision desired ReasonRestoreReplicas False (desired \<noteq> In_CurrentReplicas input) True False
        | None \<Rightarrow> mkDecision (In_CurrentReplicas input) ReasonActiveWindow False False False False))"

section \<open>Shared facts\<close>

lemma mkDecision_simps [simp]:
  "DesiredReplicas (mkDecision d r n s c x) = d" "Reason (mkDecision d r n s c x) = r"
  "NeedsSnapshot (mkDecision d r n s c x) = n" "ShouldScale (mkDecision d r n s c x) = s"
  "ClearSnapshotAfterScale (mkDecision d r n s c x) = c" "DeleteWorkload (mkDecision d r n s c x) = x"
  by (simp_all add: mkDecision_def)

lemmas decide_defs = Decide_def downDecision_def Let_def Before_def Add_def

section \<open>Properties\<close>

text \<open>
  The decision engine asks for a deletion exactly when the revision has reached its maximal age
  and the policy's expired action is the string \<^verbatim>\<open>delete\<close>, and then it asks for nothing else: no
  snapshot, no scale write, no clearing.
\<close>

theorem Decide_delete_iff:
  "DeleteWorkload (Decide input) =
     (t_ns (In_FirstSeenAt input) + In_MaxAge input \<le> t_ns (In_Now input) \<and> In_ExpiredAction input = ''delete'') \<and>
   \<not> (DeleteWorkload (Decide input) \<and>
      (NeedsSnapshot (Decide input) \<or> ShouldScale (Decide input) \<or> ClearSnapshotAfterScale (Decide input)))"
  by (auto simp: decide_defs split: option.splits)

text \<open>
  The engine never asks for a scale write that a snapshot does not cover: it scales only when a
  snapshot exists or it asks for one to be taken first, it takes one only when there is none and
  then never scales above the current count, and it clears one only in order to restore exactly
  the recorded count, outside every down window and before expiry.
\<close>

theorem Decide_snapshot_discipline:
  "let d = Decide input in
   (ShouldScale d \<longrightarrow> NeedsSnapshot d \<or> In_SnapshotReplicas input \<noteq> None) \<and>
   (NeedsSnapshot d \<longrightarrow> In_SnapshotReplicas input = None \<and> DesiredReplicas d \<le> In_CurrentReplicas input) \<and>
   (ClearSnapshotAfterScale d \<longleftrightarrow>
      In_SnapshotReplicas input = Some (DesiredReplicas d) \<and> \<not> In_ScheduledDown input \<and>
      t_ns (In_Now input) < t_ns (In_FirstSeenAt input) + In_MaxAge input)"
  by (auto simp: decide_defs split: option.splits)

definition sample_input :: DecisionInput where
  "sample_input = \<lparr>In_Now = \<lparr>t_ns = 100, t_offset = 0\<rparr>, In_FirstSeenAt = \<lparr>t_ns = 0, t_offset = 0\<rparr>,
     In_MaxAge = 1000, In_CurrentReplicas = 5, In_SnapshotReplicas = None, In_ScheduledDown = True,
     In_ScheduledWindowName = ''night'', In_ScheduledTarget = 1, In_ExpiredTarget = 0,
     In_ScaleDownSkipped = False, In_ScaleDownSkipReason = [], In_ExpiredAction = ''scale''\<rparr>"

theorem Decide_snapshot_discipline_witness:
  "Decide sample_input = mkDecision 1 ''scale-down-window:night'' True True False False \<and>
   DesiredReplicas (Decide sample_input) \<le> 5"
proof -
  have d: "Decide sample_input = mkDecision 1 ''scale-down-window:night'' True True False False"
    by (simp add: sample_input_def decide_defs)
  then show ?thesis using Decide_snapshot_discipline[of sample_input] by (simp add: sample_input_def)
qed

text \<open>
  Expiry overrides everything that belongs to the schedule: once the revision has expired, the
  decision does not depend on whether a down window is open, on its name or target, nor on either
  skip mark; and it stays so at every later time.
\<close>

theorem Decide_expiry_overrides:
  assumes "t_ns (In_FirstSeenAt input) + In_MaxAge input \<le> t_ns (In_Now input)"
    and "t_ns (In_Now input) \<le> t_ns later"
  shows "Decide (input\<lparr>In_Now := later, In_ScheduledDown := down, In_ScheduledWindowName := name,
            In_ScheduledTarget := target, In_ScaleDownSkipped := skipped, In_ScaleDownSkipReason := why\<rparr>) =
         Decide input"
  using assms by (auto simp: decide_defs split: option.splits)

theorem Decide_expiry_overrides_witness:
  "Decide (sample_input\<lparr>In_MaxAge := 50, In_Now := \<lparr>t_ns = 200, t_offset = 0\<rparr>, In_ScheduledDown := False,
      In_ScheduledWindowName := [], In_ScheduledTarget := 3, In_ScaleDownSkipped := True,
      In_ScaleDownSkipReason := ''x''\<rparr>) =
   mkDecision 0 ''revision-lifecycle-expired'' True True False False"
  using Decide_expiry_overrides[of "sample_input\<lparr>In_MaxAge := 50\<rparr>" "\<lparr>t_ns = 200, t_offset = 0\<rparr>",
      where down = False and name = "[]" and target = 3 and skipped = True and why = "''x''"]
  by (simp add: sample_input_def decide_defs)

text \<open>
  A skip mark holds for the open window: before expiry, with the mark set and a window open, the
  engine keeps the live count and asks for no write, whatever the snapshot and the targets are, and
  reports the stored reason, or the redeploy reason when none is stored.
\<close>

theorem Decide_skip_keeps_replicas:
  assumes "In_ScaleDownSkipped input" and "In_ScheduledDown input"
    and "t_ns (In_Now input) < t_ns (In_FirstSeenAt input) + In_MaxAge input"
  shows "Decide input = mkDecision (In_CurrentReplicas input)
           (if In_ScaleDownSkipReason input = [] then ''scale-down-skipped:redeploy''
            else In_ScaleDownSkipReason input) False False False False"
  using assms by (simp add: decide_defs)

theorem Decide_skip_keeps_replicas_witness:
  "Decide (sample_input\<lparr>In_ScaleDownSkipped := True\<rparr>) =
   mkDecision 5 ''scale-down-skipped:redeploy'' False False False False"
  using Decide_skip_keeps_replicas[of "sample_input\<lparr>In_ScaleDownSkipped := True\<rparr>"]
  by (simp add: sample_input_def)

text \<open>
  A down decision can still raise the replica count of a workload that is already down: with a
  snapshot of 5, a scheduled target of 3 and one live replica, the engine asks to scale up to 3. The
  target is bounded by the snapshot, not by the live count.
\<close>

theorem Decide_down_can_scale_up:
  "Decide (sample_input\<lparr>In_SnapshotReplicas := Some 5, In_ScheduledTarget := 3, In_CurrentReplicas := 1\<rparr>) =
   mkDecision 3 ''scale-down-window:night'' False True False False"
  by (simp add: sample_input_def decide_defs)

end
