(* ===== verification/Policy.thy ===== *)
theory Policy
  imports Schedule Revision Lifecycle
begin

text \<open>
  Package \<^verbatim>\<open>internal/policy\<close>: policy sets (\<^verbatim>\<open>types.go\<close>, \<^verbatim>\<open>raw.go\<close>), their compilation from the
  decoded document (\<^verbatim>\<open>validate.go\<close>) and the choice of the policy of a workload (\<^verbatim>\<open>matcher.go\<close>).

  What the package calls and does not implement is the record \<open>policy_env\<close>: the regular expression
  engine and the label selectors of Kubernetes, both of which give back a predicate, the time zone
  database, and the parser of Go durations.
\<close>

section \<open>Types (\<^verbatim>\<open>types.go\<close>, \<^verbatim>\<open>raw.go\<close>)\<close>

abbreviation APIVersion :: string where "APIVersion \<equiv> ''lifecycle.example.com/v1alpha1''"
abbreviation PolicyKind :: string where "PolicyKind \<equiv> ''WorkloadLifecyclePolicySet''"
abbreviation DefaultMaxAge :: duration where "DefaultMaxAge \<equiv> 72 * Hour_ns"
abbreviation ExpiredActionScale :: string where "ExpiredActionScale \<equiv> ''scale''"
abbreviation ExpiredActionDelete :: string where "ExpiredActionDelete \<equiv> ''delete''"

record LabelSelectorRequirement =
  Req_Key :: string
  Req_Operator :: string
  Req_Values :: "string list"

record LabelSelector =
  MatchLabels :: "string gomap"
  MatchExpressions :: "LabelSelectorRequirement list"

type_synonym selector = "string gomap \<Rightarrow> bool"
type_synonym regexp = "string \<Rightarrow> bool"

record policy_env =
  regexp_Compile :: "string \<Rightarrow> regexp result"
  LabelSelectorAsSelector :: "LabelSelector \<Rightarrow> selector result"
  time_LoadLocation :: "string \<Rightarrow> location result"
  ParseDuration :: "string \<Rightarrow> duration result"

record Target =
  Target_Kinds :: "Kind list"
  Target_Selector :: LabelSelector
  compiledSelector :: "selector option"
  Target_NamePatterns :: "string list"
  compiledPatterns :: "regexp list"

record LifecyclePolicy =
  MaxAge :: duration
  Revision_Spec :: TrackingSpec
  ExpiredAction :: string

record Replicas =
  ScheduledDown :: int
  Expired :: int

record Schedule =
  TimeZone :: string
  DownWindows :: "Window list"

record Policy =
  Policy_Name :: string
  Priority :: int
  Policy_Target :: Target
  Policy_Lifecycle :: LifecyclePolicy
  Policy_Replicas :: Replicas
  Policy_Schedule :: "Schedule option"

record PolicySet =
  Set_APIVersion :: string
  Set_Kind :: string
  Policies :: "Policy list"

text \<open>The decoded document; an optional or pointer field that is absent is \<open>None\<close>.\<close>

record rawSelectorRequirement =
  rawReq_Key :: string
  rawReq_Operator :: string
  rawReq_Values :: "string list option"

record rawSelector =
  rawMatchLabels :: "string gomap"
  rawMatchExpressions :: "rawSelectorRequirement list"

record rawTarget =
  rawKinds :: "Kind list option"
  rawTarget_Selector :: "rawSelector option"
  rawNamePatterns :: "string list option"

record rawRevision =
  rawSource :: "string option"
  rawContainers :: "string list option"

record rawLifecycle =
  rawMaxAge :: "string option"
  rawRevision_Spec :: "rawRevision option"
  rawExpiredAction :: "string option"

record rawReplicas =
  rawScheduledDown :: "int option"
  rawExpired :: "int option"

record rawSchedule =
  rawTimeZone :: string
  rawDownWindows :: "Window list option"

record rawPolicy =
  rawName :: string
  rawPriority :: "int option"
  rawPolicy_Target :: "rawTarget option"
  rawPolicy_Lifecycle :: "rawLifecycle option"
  rawPolicy_Replicas :: "rawReplicas option"
  rawPolicy_Schedule :: "rawSchedule option"

record rawPolicySet =
  rawAPIVersion :: string
  rawKind :: string
  rawSpec :: "rawPolicy list option option"

section \<open>Matching a target (\<^verbatim>\<open>types.go\<close>)\<close>

fun kindMatches :: "Kind list \<Rightarrow> Kind \<Rightarrow> bool" where
  "kindMatches [] kind = False"
| "kindMatches (candidate # kinds) kind = (candidate = kind \<or> kindMatches kinds kind)"

definition selectorMatches :: "Target \<Rightarrow> string gomap \<Rightarrow> bool" where
  "selectorMatches target workloadLabels =
     (case compiledSelector target of None \<Rightarrow> False | Some selector \<Rightarrow> selector workloadLabels)"

definition namePatternMatches :: "Target \<Rightarrow> string \<Rightarrow> bool" where
  "namePatternMatches target name =
     (if name = [] \<or> compiledPatterns target = [] then False
      else list_ex (\<lambda>pattern. pattern name) (compiledPatterns target))"

definition target_matches :: "Target \<Rightarrow> Kind \<Rightarrow> string \<Rightarrow> string gomap \<Rightarrow> bool" where
  "target_matches target kind name workloadLabels =
     (if \<not> kindMatches (Target_Kinds target) kind then False
      else if selectorMatches target workloadLabels then True
      else namePatternMatches target name)"

section \<open>Compilation (\<^verbatim>\<open>validate.go\<close>)\<close>

fun compile_kinds :: "Kind list \<Rightarrow> Kind list \<Rightarrow> goerr option" where
  "compile_kinds seenKinds [] = None"
| "compile_kinds seenKinds (kind # kinds) =
     (if kind \<noteq> KindDeployment \<and> kind \<noteq> KindStatefulSet
      then Some (Errorf ''unsupported kind %q'' [Str kind] [])
      else if List.member seenKinds kind
      then Some (Errorf ''duplicate kind %q'' [Str kind] [])
      else compile_kinds (kind # seenKinds) kinds)"

fun compile_requirements :: "nat \<Rightarrow> rawSelectorRequirement list \<Rightarrow> LabelSelectorRequirement list result" where
  "compile_requirements index [] = Inr []"
| "compile_requirements index (requirement # rest) =
     (let op = rawReq_Operator requirement;
          compiled = (if op = ''In'' \<or> op = ''NotIn'' then
              (case rawReq_Values requirement of
                 None \<Rightarrow> Inl (Errorf ''matchExpressions[%d]: %s requires non-empty values'' [Num (int index), Str op] [])
               | Some vs \<Rightarrow>
                   if vs = [] then Inl (Errorf ''matchExpressions[%d]: %s requires non-empty values'' [Num (int index), Str op] [])
                   else Inr \<lparr>Req_Key = rawReq_Key requirement, Req_Operator = op, Req_Values = vs\<rparr>)
            else if op = ''Exists'' \<or> op = ''DoesNotExist'' then
              (if rawReq_Values requirement \<noteq> None
               then Inl (Errorf ''matchExpressions[%d]: %s does not allow values'' [Num (int index), Str op] [])
               else Inr \<lparr>Req_Key = rawReq_Key requirement, Req_Operator = op, Req_Values = []\<rparr>)
            else Inl (Errorf ''matchExpressions[%d]: unsupported operator %q'' [Num (int index), Str op] []))
      in (case compiled of
            Inl err \<Rightarrow> Inl err
          | Inr c \<Rightarrow>
              (case compile_requirements (Suc index) rest of Inl err \<Rightarrow> Inl err | Inr cs \<Rightarrow> Inr (c # cs))))"

definition compileSelector :: "policy_env \<Rightarrow> rawSelector option \<Rightarrow> (LabelSelector \<times> selector) result" where
  "compileSelector env raw =
     (case raw of
        None \<Rightarrow> Inl (errors_New ''selector must be non-empty'')
      | Some raw \<Rightarrow>
          if rawMatchLabels raw = [] \<and> rawMatchExpressions raw = []
          then Inl (errors_New ''selector must be non-empty'')
          else (case compile_requirements 0 (rawMatchExpressions raw) of
              Inl err \<Rightarrow> Inl err
            | Inr requirements \<Rightarrow>
                let selector = \<lparr>MatchLabels = rawMatchLabels raw, MatchExpressions = requirements\<rparr>
                in (case LabelSelectorAsSelector env selector of
                      Inl err \<Rightarrow> Inl (Errorf ''invalid selector: %w'' [] [err])
                    | Inr compiled \<Rightarrow> Inr (selector, compiled))))"

definition anchored :: "string \<Rightarrow> string" where
  "anchored pattern = ''^(?:'' @ pattern @ '')$''"

fun compile_patterns :: "policy_env \<Rightarrow> nat \<Rightarrow> string list \<Rightarrow> regexp list result" where
  "compile_patterns env i [] = Inr []"
| "compile_patterns env i (pattern # rest) =
     (if pattern = [] then Inl (Errorf ''namePatterns[%d]: pattern must be non-empty'' [Num (int i)] [])
      else (case regexp_Compile env (anchored pattern) of
          Inl err \<Rightarrow> Inl (Errorf ''namePatterns[%d] %q: %w'' [Num (int i), Str pattern] [err])
        | Inr re \<Rightarrow>
            (case compile_patterns env (Suc i) rest of Inl err \<Rightarrow> Inl err | Inr res \<Rightarrow> Inr (re # res))))"

definition compileNamePatterns :: "policy_env \<Rightarrow> string list option \<Rightarrow> (regexp list \<times> string list) result" where
  "compileNamePatterns env raw =
     (case raw of
        None \<Rightarrow> Inr ([], [])
      | Some patterns \<Rightarrow>
          if patterns = [] then Inr ([], [])
          else (case compile_patterns env 0 patterns of
              Inl err \<Rightarrow> Inl err
            | Inr compiled \<Rightarrow> Inr (compiled, patterns)))"

definition zeroLabelSelector :: LabelSelector where
  "zeroLabelSelector = \<lparr>MatchLabels = [], MatchExpressions = []\<rparr>"

definition compileTarget :: "policy_env \<Rightarrow> rawTarget option \<Rightarrow> Target result" where
  "compileTarget env raw =
     (case raw of
        None \<Rightarrow> Inl (errors_New ''kinds must be configured and non-empty'')
      | Some raw \<Rightarrow>
        (case rawKinds raw of
           None \<Rightarrow> Inl (errors_New ''kinds must be configured and non-empty'')
         | Some kinds \<Rightarrow>
           if kinds = [] then Inl (errors_New ''kinds must be configured and non-empty'')
           else (case compile_kinds [] kinds of
               Some err \<Rightarrow> Inl err
             | None \<Rightarrow>
               let hasSelector = (case rawTarget_Selector raw of
                       None \<Rightarrow> False
                     | Some s \<Rightarrow> rawMatchLabels s \<noteq> [] \<or> rawMatchExpressions s \<noteq> []);
                   hasNamePatterns = (case rawNamePatterns raw of None \<Rightarrow> False | Some ps \<Rightarrow> ps \<noteq> [])
               in if \<not> hasSelector \<and> \<not> hasNamePatterns
                  then Inl (errors_New ''at least one of selector or namePatterns must be configured'')
                  else
                    let selected = (if hasSelector
                        then (case compileSelector env (rawTarget_Selector raw) of
                            Inl err \<Rightarrow> Inl err
                          | Inr (selector, compiled) \<Rightarrow> Inr (selector, Some compiled))
                        else Inr (zeroLabelSelector, None))
                    in (case selected of
                          Inl err \<Rightarrow> Inl err
                        | Inr (selector, compiled) \<Rightarrow>
                            (case compileNamePatterns env (rawNamePatterns raw) of
                               Inl err \<Rightarrow> Inl err
                             | Inr (patterns, namePatterns) \<Rightarrow>
                                 Inr \<lparr>Target_Kinds = kinds, Target_Selector = selector, compiledSelector = compiled,
                                      Target_NamePatterns = namePatterns, compiledPatterns = patterns\<rparr>)))))"

fun compile_containers :: "string list \<Rightarrow> string list \<Rightarrow> goerr option" where
  "compile_containers seen [] = None"
| "compile_containers seen (name # names) =
     (if name = [] then Some (errors_New ''revision.containers cannot contain an empty name'')
      else if List.member seen name then Some (Errorf ''duplicate revision container %q'' [Str name] [])
      else compile_containers (name # seen) names)"

definition defaultLifecycle :: LifecyclePolicy where
  "defaultLifecycle = \<lparr>MaxAge = DefaultMaxAge,
     Revision_Spec = \<lparr>Spec_Source = SourceContainerImages, Spec_Containers = None\<rparr>,
     ExpiredAction = ExpiredActionScale\<rparr>"

text \<open>The three optional parts of a raw lifecycle, in the order in which the code checks them.\<close>

definition compile_maxAge :: "policy_env \<Rightarrow> string option \<Rightarrow> duration result" where
  "compile_maxAge env raw =
     (case raw of
        None \<Rightarrow> Inr DefaultMaxAge
      | Some s \<Rightarrow>
          (case ParseDuration env s of
             Inl err \<Rightarrow> Inl (errors_New ''maxAge must be a positive Go duration'')
           | Inr parsed \<Rightarrow>
               if parsed \<le> 0 then Inl (errors_New ''maxAge must be a positive Go duration'') else Inr parsed))"

definition compile_revision :: "rawRevision option \<Rightarrow> TrackingSpec result" where
  "compile_revision raw =
     (case raw of
        None \<Rightarrow> Inr \<lparr>Spec_Source = SourceContainerImages, Spec_Containers = None\<rparr>
      | Some raw \<Rightarrow>
          let source = (case rawSource raw of None \<Rightarrow> SourceContainerImages | Some s \<Rightarrow> s)
          in if source \<noteq> SourceContainerImages
             then Inl (Errorf ''unsupported revision source %q'' [Str source] [])
             else (case rawContainers raw of
                 None \<Rightarrow> Inr \<lparr>Spec_Source = source, Spec_Containers = None\<rparr>
               | Some names \<Rightarrow>
                   if names = [] then Inl (errors_New ''revision.containers must be omitted or non-empty'')
                   else (case compile_containers [] names of
                       Some err \<Rightarrow> Inl err
                     | None \<Rightarrow> Inr \<lparr>Spec_Source = source, Spec_Containers = Some names\<rparr>)))"

definition compile_expiredAction :: "string option \<Rightarrow> string result" where
  "compile_expiredAction raw =
     (case raw of
        None \<Rightarrow> Inr ExpiredActionScale
      | Some action \<Rightarrow>
          if action = [] then Inr ExpiredActionScale
          else if action = ExpiredActionScale \<or> action = ExpiredActionDelete then Inr action
          else Inl (Errorf ''invalid expiredAction %q: must be %q or %q''
                 [Str action, Str ExpiredActionScale, Str ExpiredActionDelete] []))"

definition compileLifecycle :: "policy_env \<Rightarrow> rawLifecycle option \<Rightarrow> LifecyclePolicy result" where
  "compileLifecycle env raw =
     (case raw of
        None \<Rightarrow> Inr defaultLifecycle
      | Some raw \<Rightarrow>
        (case compile_maxAge env (rawMaxAge raw) of
           Inl err \<Rightarrow> Inl err
         | Inr maxAge \<Rightarrow>
           (case compile_revision (rawRevision_Spec raw) of
              Inl err \<Rightarrow> Inl err
            | Inr revision \<Rightarrow>
              (case compile_expiredAction (rawExpiredAction raw) of
                 Inl err \<Rightarrow> Inl err
               | Inr action \<Rightarrow>
                   Inr \<lparr>MaxAge = maxAge, Revision_Spec = revision, ExpiredAction = action\<rparr>))))"

definition compileReplicas :: "rawReplicas option \<Rightarrow> Replicas result" where
  "compileReplicas raw =
     (case raw of
        None \<Rightarrow> Inr \<lparr>ScheduledDown = 0, Expired = 0\<rparr>
      | Some raw \<Rightarrow>
          let result = \<lparr>ScheduledDown = (case rawScheduledDown raw of None \<Rightarrow> 0 | Some n \<Rightarrow> n),
                        Expired = (case rawExpired raw of None \<Rightarrow> 0 | Some n \<Rightarrow> n)\<rparr>
          in if ScheduledDown result < 0 \<or> Expired result < 0
             then Inl (errors_New ''replica targets must be non-negative'')
             else Inr result)"

fun compile_windows :: "nat \<Rightarrow> string list \<Rightarrow> Window list \<Rightarrow> goerr option" where
  "compile_windows index names [] = None"
| "compile_windows index names (window # windows) =
     (case ValidateWindow window of
        Some err \<Rightarrow> Some (Errorf ''downWindows[%d]: %w'' [Num (int index)] [err])
      | None \<Rightarrow>
          if List.member names (Window_Name window)
          then Some (Errorf ''duplicate down window name %q'' [Str (Window_Name window)] [])
          else compile_windows (Suc index) (Window_Name window # names) windows)"

definition compileSchedule :: "policy_env \<Rightarrow> rawSchedule option \<Rightarrow> Schedule option result" where
  "compileSchedule env raw =
     (case raw of
        None \<Rightarrow> Inr None
      | Some raw \<Rightarrow>
          if rawTimeZone raw = [] then Inl (errors_New ''timeZone must be configured'')
          else (case time_LoadLocation env (rawTimeZone raw) of
              Inl err \<Rightarrow> Inl (Errorf ''invalid IANA timeZone %q: %w'' [Str (rawTimeZone raw)] [err])
            | Inr _ \<Rightarrow>
                (case rawDownWindows raw of
                   None \<Rightarrow> Inl (errors_New ''downWindows must be configured and non-empty'')
                 | Some windows \<Rightarrow>
                     if windows = [] then Inl (errors_New ''downWindows must be configured and non-empty'')
                     else (case compile_windows 0 [] windows of
                         Some err \<Rightarrow> Inl err
                       | None \<Rightarrow> Inr (Some \<lparr>TimeZone = rawTimeZone raw, DownWindows = windows\<rparr>)))))"

definition compilePolicy :: "policy_env \<Rightarrow> rawPolicy \<Rightarrow> Policy result" where
  "compilePolicy env raw =
     (if rawName raw = [] then Inl (errors_New ''name must be non-empty'')
      else (case rawPriority raw of
          None \<Rightarrow> Inl (errors_New ''priority must be configured'')
        | Some priority \<Rightarrow>
          (case compileTarget env (rawPolicy_Target raw) of
             Inl err \<Rightarrow> Inl (Errorf ''target: %w'' [] [err])
           | Inr target \<Rightarrow>
             (case compileLifecycle env (rawPolicy_Lifecycle raw) of
                Inl err \<Rightarrow> Inl (Errorf ''lifecycle: %w'' [] [err])
              | Inr lifecyclePolicy \<Rightarrow>
                (case compileReplicas (rawPolicy_Replicas raw) of
                   Inl err \<Rightarrow> Inl (Errorf ''replicas: %w'' [] [err])
                 | Inr replicas \<Rightarrow>
                   (case compileSchedule env (rawPolicy_Schedule raw) of
                      Inl err \<Rightarrow> Inl (Errorf ''schedule: %w'' [] [err])
                    | Inr schedule \<Rightarrow>
                        Inr \<lparr>Policy_Name = rawName raw, Priority = priority, Policy_Target = target,
                             Policy_Lifecycle = lifecyclePolicy, Policy_Replicas = replicas,
                             Policy_Schedule = schedule\<rparr>))))))"

fun compile_policies :: "policy_env \<Rightarrow> nat \<Rightarrow> string list \<Rightarrow> rawPolicy list \<Rightarrow> Policy list result" where
  "compile_policies env index names [] = Inr []"
| "compile_policies env index names (item # items) =
     (case compilePolicy env item of
        Inl err \<Rightarrow> Inl (Errorf ''spec.policies[%d]: %w'' [Num (int index)] [err])
      | Inr compiled \<Rightarrow>
          if List.member names (Policy_Name compiled)
          then Inl (Errorf ''spec.policies[%d]: duplicate policy name %q'' [Num (int index), Str (Policy_Name compiled)] [])
          else (case compile_policies env (Suc index) (Policy_Name compiled # names) items of
              Inl err \<Rightarrow> Inl err
            | Inr rest \<Rightarrow> Inr (compiled # rest)))"

definition compilePolicySet :: "policy_env \<Rightarrow> rawPolicySet \<Rightarrow> PolicySet result" where
  "compilePolicySet env raw =
     (if rawAPIVersion raw \<noteq> APIVersion then Inl (Errorf ''unsupported apiVersion %q'' [Str (rawAPIVersion raw)] [])
      else if rawKind raw \<noteq> PolicyKind then Inl (Errorf ''unsupported kind %q'' [Str (rawKind raw)] [])
      else (case rawSpec raw of
          Some (Some policies) \<Rightarrow>
            (case compile_policies env 0 [] policies of
               Inl err \<Rightarrow> Inl err
             | Inr compiled \<Rightarrow> Inr \<lparr>Set_APIVersion = rawAPIVersion raw, Set_Kind = rawKind raw, Policies = compiled\<rparr>)
        | _ \<Rightarrow> Inl (errors_New ''spec.policies must be configured'')))"

section \<open>Choosing a policy (\<^verbatim>\<open>matcher.go\<close>)\<close>

record MatchResult =
  Result_Policy :: "Policy option"
  ConflictNames :: "string list"

definition Conflict :: "MatchResult \<Rightarrow> bool" where
  "Conflict result = (ConflictNames result \<noteq> [])"

definition policy_Match :: "PolicySet \<Rightarrow> Kind \<Rightarrow> string \<Rightarrow> string gomap \<Rightarrow> MatchResult" where
  "policy_Match policies kind name workloadLabels =
     (let matches = filter (\<lambda>candidate. target_matches (Policy_Target candidate) kind name workloadLabels) (Policies policies)
      in (case matches of
            [] \<Rightarrow> \<lparr>Result_Policy = None, ConflictNames = []\<rparr>
          | first # others \<Rightarrow>
              let highest = foldl (\<lambda>highest candidate. if Priority candidate > highest then Priority candidate else highest)
                              (Priority first) others;
                  winners = filter (\<lambda>candidate. Priority candidate = highest) matches
              in (case winners of
                    [winner] \<Rightarrow> \<lparr>Result_Policy = Some winner, ConflictNames = []\<rparr>
                  | _ \<Rightarrow> \<lparr>Result_Policy = None, ConflictNames = sort (map Policy_Name winners)\<rparr>)))"

section \<open>What compilation guarantees\<close>

definition wf_target :: "Target \<Rightarrow> bool" where
  "wf_target t = (Target_Kinds t \<noteq> [] \<and> distinct (Target_Kinds t) \<and> list_all (\<lambda>k. supported_kind k) (Target_Kinds t) \<and>
     (compiledSelector t \<noteq> None \<or> compiledPatterns t \<noteq> []) \<and>
     length (compiledPatterns t) = length (Target_NamePatterns t))"

definition wf_lifecycle :: "LifecyclePolicy \<Rightarrow> bool" where
  "wf_lifecycle l = (0 < MaxAge l \<and> Spec_Source (Revision_Spec l) = SourceContainerImages \<and>
     (case Spec_Containers (Revision_Spec l) of None \<Rightarrow> True
      | Some names \<Rightarrow> names \<noteq> [] \<and> distinct names \<and> [] \<notin> set names) \<and>
     ExpiredAction l \<in> {ExpiredActionScale, ExpiredActionDelete})"

definition wf_schedule :: "policy_env \<Rightarrow> Schedule \<Rightarrow> bool" where
  "wf_schedule env s = (TimeZone s \<noteq> [] \<and> \<not> isl (time_LoadLocation env (TimeZone s)) \<and> DownWindows s \<noteq> [] \<and>
     list_all valid_window (DownWindows s) \<and> distinct (map Window_Name (DownWindows s)))"

definition wf_policy :: "policy_env \<Rightarrow> Policy \<Rightarrow> bool" where
  "wf_policy env p = (Policy_Name p \<noteq> [] \<and> wf_target (Policy_Target p) \<and> wf_lifecycle (Policy_Lifecycle p) \<and>
     0 \<le> ScheduledDown (Policy_Replicas p) \<and> 0 \<le> Expired (Policy_Replicas p) \<and>
     (case Policy_Schedule p of None \<Rightarrow> True | Some s \<Rightarrow> wf_schedule env s))"

definition wf_policy_set :: "policy_env \<Rightarrow> PolicySet \<Rightarrow> bool" where
  "wf_policy_set env s = (Set_APIVersion s = APIVersion \<and> Set_Kind s = PolicyKind \<and>
     list_all (wf_policy env) (Policies s) \<and> distinct (map Policy_Name (Policies s)))"

lemmas compile_splits = if_splits option.splits sum.splits prod.splits

lemma compile_kinds_iff [spec_iff]:
  "compile_kinds seen kinds = None \<longleftrightarrow>
   list_all (\<lambda>k. supported_kind k) kinds \<and> distinct kinds \<and> set kinds \<inter> set seen = {}"
  by (induction kinds arbitrary: seen) auto

lemma compile_containers_iff [spec_iff]:
  "compile_containers seen names = None \<longleftrightarrow> [] \<notin> set names \<and> distinct names \<and> set names \<inter> set seen = {}"
  by (induction names arbitrary: seen) auto

lemma compile_windows_iff [spec_iff]:
  "compile_windows i names ws = None \<longleftrightarrow>
   list_all valid_window ws \<and> distinct (map Window_Name ws) \<and> Window_Name ` set ws \<inter> set names = {}"
proof (induction ws arbitrary: i names)
  case (Cons w ws)
  then show ?case by (cases "ValidateWindow w") (use ValidateWindow_iff[of w] in auto)
qed simp

lemma compile_patterns_Inr:
  "compile_patterns env i ps = Inr res \<longleftrightarrow>
   [] \<notin> set ps \<and> map (\<lambda>p. regexp_Compile env (anchored p)) ps = map Inr res"
proof (induction ps arbitrary: i res)
  case (Cons p ps)
  show ?case
  proof (cases res)
    case (Cons r rs)
    then show ?thesis using Cons.IH[of "Suc i" rs] by (auto split: sum.splits)
  qed (auto split: sum.splits)
qed auto

lemma compileNamePatterns_Inr:
  "compileNamePatterns env raw = Inr (compiled, names) \<longleftrightarrow>
   names = (case raw of None \<Rightarrow> [] | Some ps \<Rightarrow> ps) \<and> [] \<notin> set names \<and>
   map (\<lambda>p. regexp_Compile env (anchored p)) names = map Inr compiled"
proof (cases raw)
  case (Some ps)
  then show ?thesis
    using compile_patterns_Inr[of env 0 ps compiled] by (auto simp: compileNamePatterns_def split: sum.splits)
qed (auto simp: compileNamePatterns_def)

text \<open>Everything a compiled target is, in terms of the document it comes from.\<close>

lemma compileTarget_Inr:
  assumes "compileTarget env raw = Inr t"
  obtains r kinds where "raw = Some r" "rawKinds r = Some kinds" "kinds \<noteq> []" "Target_Kinds t = kinds"
    "list_all (\<lambda>k. supported_kind k) kinds" "distinct kinds"
    "compileNamePatterns env (rawNamePatterns r) = Inr (compiledPatterns t, Target_NamePatterns t)"
    "case compiledSelector t of
       None \<Rightarrow> (case rawTarget_Selector r of None \<Rightarrow> True | Some s \<Rightarrow> rawMatchLabels s = [] \<and> rawMatchExpressions s = []) \<and>
               (\<exists>p ps. rawNamePatterns r = Some (p # ps))
     | Some sel \<Rightarrow> compileSelector env (rawTarget_Selector r) = Inr (Target_Selector t, sel)"
proof -
  from assms obtain r kinds where r: "raw = Some r" "rawKinds r = Some kinds" "kinds \<noteq> []"
    and k: "compile_kinds [] kinds = None"
    by (auto simp: compileTarget_def split: compile_splits)
  let ?hasSel = "case rawTarget_Selector r of None \<Rightarrow> False | Some s \<Rightarrow> rawMatchLabels s \<noteq> [] \<or> rawMatchExpressions s \<noteq> []"
  show ?thesis
  proof (cases ?hasSel)
    case True
    with assms r k show ?thesis
      by (auto simp: compileTarget_def Let_def spec_iff intro!: that split: compile_splits)
  next
    case False
    then have "case rawTarget_Selector r of None \<Rightarrow> True | Some s \<Rightarrow> rawMatchLabels s = [] \<and> rawMatchExpressions s = []"
      by (auto split: option.splits)
    moreover have "\<exists>p ps. rawNamePatterns r = Some (p # ps)"
      using assms r k False
      by (auto simp: compileTarget_def Let_def neq_Nil_conv split: compile_splits)
    ultimately show ?thesis using assms r k False
      by (auto simp: compileTarget_def Let_def spec_iff intro!: that split: compile_splits)
  qed
qed


lemma compileTarget_wf: "compileTarget env raw = Inr t \<Longrightarrow> wf_target t"
  by (elim compileTarget_Inr)
    (auto simp: wf_target_def compileNamePatterns_Inr dest: map_eq_imp_length_eq split: option.splits)

lemma compile_maxAge_pos: "compile_maxAge env raw = Inr d \<Longrightarrow> 0 < d"
  by (auto simp: compile_maxAge_def split: compile_splits)

lemma compile_revision_wf:
  "compile_revision raw = Inr spec \<Longrightarrow>
   Spec_Source spec = SourceContainerImages \<and>
   (case Spec_Containers spec of None \<Rightarrow> True | Some names \<Rightarrow> names \<noteq> [] \<and> distinct names \<and> [] \<notin> set names)"
  by (auto simp: compile_revision_def Let_def spec_iff split: compile_splits)

lemma compile_expiredAction_wf:
  "compile_expiredAction raw = Inr a \<Longrightarrow> a \<in> {ExpiredActionScale, ExpiredActionDelete}"
  by (auto simp: compile_expiredAction_def split: compile_splits)

lemma compileLifecycle_wf:
  assumes "compileLifecycle env raw = Inr l"
  shows "wf_lifecycle l"
proof (cases raw)
  case None
  then show ?thesis using assms by (auto simp: compileLifecycle_def defaultLifecycle_def wf_lifecycle_def)
next
  case (Some r)
  then have "compile_maxAge env (rawMaxAge r) = Inr (MaxAge l)"
    "compile_revision (rawRevision_Spec r) = Inr (Revision_Spec l)"
    "compile_expiredAction (rawExpiredAction r) = Inr (ExpiredAction l)"
    using assms by (auto simp: compileLifecycle_def split: sum.splits)
  from compile_maxAge_pos[OF this(1)] compile_revision_wf[OF this(2)] compile_expiredAction_wf[OF this(3)]
  show ?thesis by (simp add: wf_lifecycle_def)
qed

lemma compileReplicas_wf:
  "compileReplicas raw = Inr r \<Longrightarrow> 0 \<le> ScheduledDown r \<and> 0 \<le> Expired r"
  by (auto simp: compileReplicas_def Let_def split: compile_splits)

lemma compileSchedule_wf: "compileSchedule env raw = Inr (Some s) \<Longrightarrow> wf_schedule env s"
  by (auto simp: compileSchedule_def wf_schedule_def spec_iff split: compile_splits)

lemma compilePolicy_wf:
  assumes "compilePolicy env raw = Inr p"
  shows "wf_policy env p" "Policy_Name p = rawName raw" "rawPriority raw = Some (Priority p)"
    "compileTarget env (rawPolicy_Target raw) = Inr (Policy_Target p)"
proof -
  from assms have parts: "compileTarget env (rawPolicy_Target raw) = Inr (Policy_Target p)"
      "compileLifecycle env (rawPolicy_Lifecycle raw) = Inr (Policy_Lifecycle p)"
      "compileReplicas (rawPolicy_Replicas raw) = Inr (Policy_Replicas p)"
      "compileSchedule env (rawPolicy_Schedule raw) = Inr (Policy_Schedule p)"
      "Policy_Name p = rawName raw" "rawName raw \<noteq> []" "rawPriority raw = Some (Priority p)"
    by (auto simp: compilePolicy_def split: compile_splits)
  then show "wf_policy env p"
    using compileTarget_wf compileLifecycle_wf compileReplicas_wf compileSchedule_wf
    by (auto simp: wf_policy_def split: option.splits)
  show "Policy_Name p = rawName raw" "rawPriority raw = Some (Priority p)"
    "compileTarget env (rawPolicy_Target raw) = Inr (Policy_Target p)"
    by (simp_all add: parts)
qed

lemma compile_policies_Inr:
  assumes "compile_policies env i names raws = Inr ps"
  shows "list_all (wf_policy env) ps" "distinct (map Policy_Name ps)" "set (map Policy_Name ps) \<inter> set names = {}"
    "map (compilePolicy env) raws = map Inr ps"
  using assms
proof (induction raws arbitrary: i names ps)
  case (Cons r rs)
  { case 1 then show ?case using Cons.IH(1) compilePolicy_wf(1) by (auto split: compile_splits) }
  { case 2 then show ?case using Cons.IH(2,3) by (fastforce split: compile_splits) }
  { case 3 then show ?case using Cons.IH(3) by (fastforce split: compile_splits) }
  { case 4 then show ?case using Cons.IH(4) by (auto split: compile_splits) }
qed auto

lemma compilePolicySet_Inr_wf: "compilePolicySet env raw = Inr policies \<Longrightarrow> wf_policy_set env policies"
  using compile_policies_Inr(1,2)
  by (auto simp: compilePolicySet_def wf_policy_set_def split: compile_splits)

text \<open>
  C24: a compiled policy set is well formed: the supported version and kind, policies with distinct
  non-empty names, each with a non-empty list of distinct supported kinds, a selector or a name
  pattern, a positive maximal age, a supported revision source with distinct named containers, an
  expired action that is scale or delete, non-negative replica targets, and, where it has a
  schedule, a loadable time zone and a non-empty list of valid windows with distinct names.
\<close>

theorem compilePolicySet_wf:
  assumes "compilePolicySet env raw = Inr policies"
  shows "wf_policy_set env policies"
  using assms by (rule compilePolicySet_Inr_wf)


text \<open>
  An environment for examples: a pattern matches its own text, a selector asks for the listed
  labels, every zone is eight hours east, every duration is the default one.
\<close>

definition sample_env :: policy_env where
  "sample_env = \<lparr>regexp_Compile = \<lambda>p. Inr (\<lambda>n. anchored n = p),
     LabelSelectorAsSelector = \<lambda>s. Inr (\<lambda>labels. list_all (\<lambda>(k, v). map_of labels k = Some v) (MatchLabels s)),
     time_LoadLocation = \<lambda>_. Inr (FixedZone 28800), ParseDuration = \<lambda>_. Inr (24 * Hour_ns)\<rparr>"

definition sample_rawTarget :: rawTarget where
  "sample_rawTarget = \<lparr>rawKinds = Some [KindDeployment],
     rawTarget_Selector = Some \<lparr>rawMatchLabels = [(''app'', ''api'')], rawMatchExpressions = []\<rparr>,
     rawNamePatterns = Some [''worker'']\<rparr>"

definition sample_rawPolicy :: "string \<Rightarrow> int \<Rightarrow> rawPolicy" where
  "sample_rawPolicy name priority = \<lparr>rawName = name, rawPriority = Some priority,
     rawPolicy_Target = Some sample_rawTarget,
     rawPolicy_Lifecycle = Some \<lparr>rawMaxAge = Some ''24h'', rawRevision_Spec = None, rawExpiredAction = Some ''delete''\<rparr>,
     rawPolicy_Replicas = None,
     rawPolicy_Schedule = Some \<lparr>rawTimeZone = ''Asia/Hong_Kong'', rawDownWindows = Some [night_window]\<rparr>\<rparr>"

definition sample_raw :: "(string \<times> int) list \<Rightarrow> rawPolicySet" where
  "sample_raw ps = \<lparr>rawAPIVersion = APIVersion, rawKind = PolicyKind,
     rawSpec = Some (Some (map (\<lambda>(n, p). sample_rawPolicy n p) ps))\<rparr>"

lemmas compile_defs = compilePolicySet_def compilePolicy_def compileTarget_def compileSelector_def
  compileNamePatterns_def compileLifecycle_def compile_maxAge_def compile_revision_def
  compile_expiredAction_def compileReplicas_def compileSchedule_def

lemmas sample_defs = sample_env_def sample_rawTarget_def sample_rawPolicy_def sample_raw_def

lemma sample_policy: "\<exists>p. compilePolicy sample_env (sample_rawPolicy (c # n) i) = Inr p"
  by (simp add: compile_defs sample_defs night_valid)

lemma sample_compiles: "\<exists>s. compilePolicySet sample_env (sample_raw [(''base'', 1), (''strict'', 2)]) = Inr s"
proof -
  obtain p q where pq: "compilePolicy sample_env (sample_rawPolicy ''base'' 1) = Inr p"
    "compilePolicy sample_env (sample_rawPolicy ''strict'' 2) = Inr q"
    using sample_policy by meson
  then have "Policy_Name p = ''base''" "Policy_Name q = ''strict''"
    using compilePolicy_wf(2) by (fastforce simp: sample_rawPolicy_def)+
  with pq show ?thesis by (simp add: compilePolicySet_def sample_raw_def)
qed

theorem compilePolicySet_wf_witness:
  "\<exists>s. compilePolicySet sample_env (sample_raw [(''base'', 1), (''strict'', 2)]) = Inr s \<and> wf_policy_set sample_env s"
  using sample_compiles compilePolicySet_wf by blast

text \<open>
  A compiled target matches a workload exactly as the document says: the kind is listed, and
  either the configured label selector accepts the labels or some configured pattern, anchored at
  both ends, accepts the non-empty name.
\<close>

theorem compiled_target_matches:
  assumes "compileTarget env (Some r) = Inr t"
  shows "target_matches t kind name labels \<longleftrightarrow>
    (\<exists>kinds. rawKinds r = Some kinds \<and> kind \<in> set kinds) \<and>
    ((\<exists>s sel. compileSelector env (rawTarget_Selector r) = Inr (s, sel) \<and> sel labels) \<or>
     name \<noteq> [] \<and> (\<exists>ps p re. rawNamePatterns r = Some ps \<and> p \<in> set ps \<and> regexp_Compile env (anchored p) = Inr re \<and> re name))"
proof -
  from assms obtain kinds where k: "rawKinds r = Some kinds" "Target_Kinds t = kinds"
    and pat: "compileNamePatterns env (rawNamePatterns r) = Inr (compiledPatterns t, Target_NamePatterns t)"
    and sel: "case compiledSelector t of
       None \<Rightarrow> (case rawTarget_Selector r of None \<Rightarrow> True | Some s \<Rightarrow> rawMatchLabels s = [] \<and> rawMatchExpressions s = []) \<and>
               (\<exists>p ps. rawNamePatterns r = Some (p # ps))
     | Some sel \<Rightarrow> compileSelector env (rawTarget_Selector r) = Inr (Target_Selector t, sel)"
    by (elim compileTarget_Inr) (use option.inject in blast)
  have "kindMatches ks kind \<longleftrightarrow> kind \<in> set ks" for ks by (induction ks) auto
  moreover have "selectorMatches t labels \<longleftrightarrow>
      (\<exists>s sel. compileSelector env (rawTarget_Selector r) = Inr (s, sel) \<and> sel labels)"
    using sel by (auto simp: selectorMatches_def compileSelector_def split: option.splits)
  moreover have "namePatternMatches t name \<longleftrightarrow> name \<noteq> [] \<and> (\<exists>ps p re. rawNamePatterns r = Some ps \<and>
      p \<in> set ps \<and> regexp_Compile env (anchored p) = Inr re \<and> re name)" (is "_ \<longleftrightarrow> _ \<and> ?pats")
  proof -
    let ?c = "compiledPatterns t" and ?ps = "case rawNamePatterns r of None \<Rightarrow> [] | Some ps \<Rightarrow> ps"
    have eq: "map (\<lambda>p. regexp_Compile env (anchored p)) ?ps = map Inr ?c"
      using pat unfolding compileNamePatterns_Inr by metis
    have "?pats \<longleftrightarrow> (\<exists>x \<in> set (map (\<lambda>p. regexp_Compile env (anchored p)) ?ps). \<exists>re. x = Inr re \<and> re name)"
      by (cases "rawNamePatterns r") auto
    also have "\<dots> \<longleftrightarrow> (\<exists>re \<in> set ?c. re name)" unfolding eq by auto
    finally show ?thesis by (auto simp: namePatternMatches_def list_ex_iff)
  qed
  ultimately show ?thesis using k by (simp add: target_matches_def) blast
qed

lemma sample_target: "\<exists>t. compileTarget sample_env (Some sample_rawTarget) = Inr t"
  by (simp add: compile_defs sample_defs)

theorem compiled_target_matches_witness:
  "\<exists>t. compileTarget sample_env (Some sample_rawTarget) = Inr t \<and>
       target_matches t KindDeployment ''worker'' [] \<and> target_matches t KindDeployment ''x'' [(''app'', ''api'')] \<and>
       \<not> target_matches t KindDeployment ''worker2'' [] \<and> \<not> target_matches t KindStatefulSet ''worker'' []"
proof -
  obtain t where t: "compileTarget sample_env (Some sample_rawTarget) = Inr t" using sample_target by blast
  have "target_matches t KindDeployment ''worker'' []" "target_matches t KindDeployment ''x'' [(''app'', ''api'')]"
    "\<not> target_matches t KindDeployment ''worker2'' []" "\<not> target_matches t KindStatefulSet ''worker'' []"
    unfolding compiled_target_matches[OF t] by (simp_all add: compile_defs sample_defs anchored_def)
  with t show ?thesis by blast
qed


section \<open>The policy of a workload\<close>

definition matching :: "PolicySet \<Rightarrow> Kind \<Rightarrow> string \<Rightarrow> string gomap \<Rightarrow> Policy set" where
  "matching s kind name labels = {p \<in> set (Policies s). target_matches (Policy_Target p) kind name labels}"

definition top_policies :: "PolicySet \<Rightarrow> Kind \<Rightarrow> string \<Rightarrow> string gomap \<Rightarrow> Policy set" where
  "top_policies s kind name labels =
     {p \<in> matching s kind name labels. \<forall>q \<in> matching s kind name labels. Priority q \<le> Priority p}"

lemma foldl_highest:
  fixes a :: int
  shows "foldl (\<lambda>h c. if f c > h then f c else h) a xs = Max (insert a (f ` set xs))"
proof (induction xs arbitrary: a)
  case (Cons x xs)
  have "(if f x > a then f x else a) = max a (f x)" by simp
  then have "foldl (\<lambda>h c. if f c > h then f c else h) a (x # xs) = Max (insert (max a (f x)) (f ` set xs))"
    using Cons.IH by simp
  also have "\<dots> = Max (insert a (insert (f x) (f ` set xs)))"
    by (cases "set xs = {}") (simp_all add: ac_simps)
  finally show ?case by simp
qed simp

lemma policy_Match_winners:
  obtains winners where "set winners = top_policies s kind name labels"
    "distinct (map Policy_Name (Policies s)) \<Longrightarrow> distinct (map Policy_Name winners)"
    "policy_Match s kind name labels =
      (case winners of [] \<Rightarrow> \<lparr>Result_Policy = None, ConflictNames = []\<rparr>
       | [w] \<Rightarrow> \<lparr>Result_Policy = Some w, ConflictNames = []\<rparr>
       | _ \<Rightarrow> \<lparr>Result_Policy = None, ConflictNames = sort (map Policy_Name winners)\<rparr>)"
proof -
  let ?m = "filter (\<lambda>c. target_matches (Policy_Target c) kind name labels) (Policies s)"
  have m: "set ?m = matching s kind name labels" by (auto simp: matching_def)
  show thesis
  proof (cases ?m)
    case Nil
    then show thesis using m by (intro that[of "[]"]) (auto simp: top_policies_def policy_Match_def)
  next
    case (Cons f os)
    define h where "h = foldl (\<lambda>h c. if Priority c > h then Priority c else h) (Priority f) os"
    have h: "h = Max (Priority ` set ?m)" unfolding h_def foldl_highest by (simp add: Cons)
    let ?w = "filter (\<lambda>c. Priority c = h) ?m"
    have ne: "Priority ` set ?m \<noteq> {}" using Cons by simp
    have upper: "Priority q \<le> h" if "q \<in> matching s kind name labels" for q
      using that unfolding h m by (intro Max_ge) (auto simp flip: m)
    obtain x where x: "x \<in> matching s kind name labels" "Priority x = h"
      using Max_in[OF _ ne] unfolding h m by (auto simp flip: m)
    have set_w: "set ?w = top_policies s kind name labels"
    proof -
      have "Priority p = h \<longleftrightarrow> (\<forall>q \<in> matching s kind name labels. Priority q \<le> Priority p)"
        if "p \<in> matching s kind name labels" for p
        using that upper x antisym by metis
      then show ?thesis using m by (auto simp: top_policies_def)
    qed
    have "\<exists>x \<in> set ?m. Priority x = h" using x m by auto
    then have w_ne: "?w \<noteq> []" by (auto simp: filter_empty_conv)
    have "policy_Match s kind name labels =
       (case ?w of [w] \<Rightarrow> \<lparr>Result_Policy = Some w, ConflictNames = []\<rparr>
        | _ \<Rightarrow> \<lparr>Result_Policy = None, ConflictNames = sort (map Policy_Name ?w)\<rparr>)"
      by (simp only: policy_Match_def Cons Let_def list.case h_def)
    with w_ne show thesis
      by (intro that[OF set_w]) (auto simp: distinct_map_filter split: list.splits)
  qed
qed

lemma policy_Match_cases:
  obtains (none) "policy_Match s kind name labels = \<lparr>Result_Policy = None, ConflictNames = []\<rparr>" "top_policies s kind name labels = {}"
  | (unique) p where "policy_Match s kind name labels = \<lparr>Result_Policy = Some p, ConflictNames = []\<rparr>" "top_policies s kind name labels = {p}"
  | (several) "Conflict (policy_Match s kind name labels)"
      "distinct (map Policy_Name (Policies s)) \<Longrightarrow> 2 \<le> card (top_policies s kind name labels)"
proof -
  obtain ws where ws: "set ws = top_policies s kind name labels"
    "distinct (map Policy_Name (Policies s)) \<Longrightarrow> distinct (map Policy_Name ws)"
    and eq: "policy_Match s kind name labels =
      (case ws of [] \<Rightarrow> \<lparr>Result_Policy = None, ConflictNames = []\<rparr>
       | [w] \<Rightarrow> \<lparr>Result_Policy = Some w, ConflictNames = []\<rparr>
       | _ \<Rightarrow> \<lparr>Result_Policy = None, ConflictNames = sort (map Policy_Name ws)\<rparr>)"
    by (rule policy_Match_winners[of s kind name labels]) blast
  consider "ws = []" | w where "ws = [w]" | a b r where "ws = a # b # r" by (metis neq_Nil_conv)
  then show thesis
  proof cases
    case 1
    then show thesis using none ws(1) eq by simp
  next
    case (2 w)
    then show thesis using unique[of w] ws(1) eq by simp
  next
    case (3 a b r)
    have "2 \<le> card (top_policies s kind name labels)" if "distinct (map Policy_Name (Policies s))"
    proof -
      have "distinct ws" using ws(2)[OF that] by (simp add: distinct_map)
      then have "card (set ws) = length ws" by (rule distinct_card)
      then show ?thesis using 3 by (simp add: ws(1)[symmetric])
    qed
    moreover have "sort (map Policy_Name ws) \<noteq> []" using 3 by (metis list.discI list.map_disc_iff set_empty set_sort)
    ultimately show thesis using several 3 eq by (simp add: Conflict_def)
  qed
qed

text \<open>
  C22: the matcher picks the unique matching policy of highest priority, and otherwise, when several
  share the highest priority, reports exactly their names in sorted order and picks none; without a
  match it reports nothing. Since the statement speaks of the set of policies only, the order in
  which the document lists them does not matter.
\<close>

theorem policy_Match_correct:
  assumes "wf_policy_set env s"
  shows "(Result_Policy (policy_Match s kind name labels) = Some p \<longleftrightarrow> top_policies s kind name labels = {p}) \<and>
    ConflictNames (policy_Match s kind name labels) =
      (if card (top_policies s kind name labels) \<ge> 2
       then sorted_list_of_set (Policy_Name ` top_policies s kind name labels) else [])"
proof -
  obtain ws where ws: "set ws = top_policies s kind name labels" "distinct (map Policy_Name ws)"
    and eq: "policy_Match s kind name labels =
      (case ws of [] \<Rightarrow> \<lparr>Result_Policy = None, ConflictNames = []\<rparr>
       | [w] \<Rightarrow> \<lparr>Result_Policy = Some w, ConflictNames = []\<rparr>
       | _ \<Rightarrow> \<lparr>Result_Policy = None, ConflictNames = sort (map Policy_Name ws)\<rparr>)"
    using policy_Match_winners[of s kind name labels] assms by (metis wf_policy_set_def)
  have d: "distinct ws" using ws(2) by (simp add: distinct_map)
  have c: "card (top_policies s kind name labels) = length ws"
    using d ws(1) distinct_card by fastforce
  have sl: "sorted_list_of_set (Policy_Name ` top_policies s kind name labels) = sort (map Policy_Name ws)"
    using ws sorted_list_of_set_sort_remdups[of "map Policy_Name ws"] by (simp add: distinct_remdups_id)
  have "Result_Policy (policy_Match s kind name labels) = Some p \<longleftrightarrow> set ws = {p}"
    using d by (auto simp: eq split: list.splits)
  moreover have "ConflictNames (policy_Match s kind name labels) = (if length ws \<ge> 2 then sort (map Policy_Name ws) else [])"
    by (auto simp: eq split: list.splits)
  ultimately show ?thesis by (simp only: c sl ws(1))
qed

definition worker_policy :: "string \<Rightarrow> int \<Rightarrow> Policy" where
  "worker_policy name priority = \<lparr>Policy_Name = name, Priority = priority,
     Policy_Target = \<lparr>Target_Kinds = [KindDeployment], Target_Selector = zeroLabelSelector, compiledSelector = None,
       Target_NamePatterns = [''worker''], compiledPatterns = [\<lambda>n. n = ''worker'']\<rparr>,
     Policy_Lifecycle = defaultLifecycle, Policy_Replicas = \<lparr>ScheduledDown = 0, Expired = 0\<rparr>, Policy_Schedule = None\<rparr>"

definition worker_policies :: PolicySet where
  "worker_policies = \<lparr>Set_APIVersion = APIVersion, Set_Kind = PolicyKind,
     Policies = [worker_policy ''base'' 1, worker_policy ''strict'' 2, worker_policy ''fast'' 2]\<rparr>"

lemma worker_policy_Name [simp]: "Policy_Name (worker_policy n i) = n"
  by (simp add: worker_policy_def)

lemma worker_policies_wf: "wf_policy_set sample_env worker_policies"
  by (simp add: wf_policy_set_def wf_policy_def wf_target_def wf_lifecycle_def worker_policies_def
      worker_policy_def defaultLifecycle_def)

lemma worker_policies_top:
  "top_policies worker_policies KindDeployment ''worker'' [] = {worker_policy ''strict'' 2, worker_policy ''fast'' 2}"
proof -
  have "matching worker_policies KindDeployment ''worker'' [] = set (Policies worker_policies)"
    by (auto simp: matching_def worker_policies_def worker_policy_def target_matches_def selectorMatches_def
        namePatternMatches_def)
  moreover have "Priority (worker_policy n i) = i" for n i by (simp add: worker_policy_def)
  ultimately show ?thesis by (auto simp: top_policies_def worker_policies_def)
qed

lemma worker_policy_distinct: "n \<noteq> m \<Longrightarrow> worker_policy n i \<noteq> worker_policy m j"
  by (metis worker_policy_Name)

theorem policy_Match_correct_witness:
  "wf_policy_set sample_env worker_policies \<and>
   ConflictNames (policy_Match worker_policies KindDeployment ''worker'' []) = [''fast'', ''strict'']"
  using worker_policies_wf policy_Match_correct[OF worker_policies_wf, of KindDeployment "''worker''" "[]"]
  by (simp add: worker_policies_top worker_policy_distinct)

end
