(* ===== verification/State_Document.thy ===== *)
theory State_Document
  imports Revision GoTime
begin

text \<open>
  Package \<^verbatim>\<open>internal/state\<close>: the persisted document (\<^verbatim>\<open>types.go\<close>, \<^verbatim>\<open>document.go\<close>), the removal of
  states of deleted workloads (\<^verbatim>\<open>cleanup.go\<close>) and the capacity of the ConfigMap (\<^verbatim>\<open>capacity.go\<close>).
  A Go map that may be nil is an optional association list. The wire format is the record
  \<open>json_codec\<close>: package \<^verbatim>\<open>encoding/json\<close> on the document type without its own methods.
\<close>

section \<open>Types (\<^verbatim>\<open>types.go\<close>)\<close>

abbreviation (input) FormatVersion :: int where "FormatVersion \<equiv> 1"

record ReplicaSnapshot =
  Snap_Replicas :: int
  Snap_CapturedAt :: gotime
  Snap_CapturedReason :: string

record StateRevision =
  State_Source :: string
  State_Containers :: "Container list"

record WorkloadState =
  State_Kind :: Kind
  State_Namespace :: string
  State_Name :: string
  State_WorkloadUID :: string
  State_LastPolicyName :: string
  State_TrackingSpecHash :: string
  State_RevisionHash :: string
  State_Revision :: StateRevision
  State_FirstSeenAt :: gotime
  State_LastSeenAt :: gotime
  State_ReplicaSnapshot :: "ReplicaSnapshot option"
  State_WindowEntryRevision :: string
  State_WindowInstanceID :: string
  State_ScaleDownSkipped :: bool
  State_ScaleDownSkipReason :: string

definition state_Key :: "WorkloadState \<Rightarrow> string" where
  "state_Key s = State_Kind s @ ''/'' @ State_Namespace s @ ''/'' @ State_Name s"

record Document =
  Doc_FormatVersion :: int
  Doc_States :: "WorkloadState gomap option"

definition NewDocument :: Document where
  "NewDocument = \<lparr>Doc_FormatVersion = FormatVersion, Doc_States = Some []\<rparr>"

section \<open>Validation (\<^verbatim>\<open>document.go\<close>)\<close>

definition ErrInvalidDocument :: goerr where
  "ErrInvalidDocument = errors_New ''invalid state document''"

definition ErrUnsupportedFormatVersion :: goerr where
  "ErrUnsupportedFormatVersion = errors_New ''unsupported state format version''"

definition is_upper :: "char \<Rightarrow> bool" where
  "is_upper c = (65 \<le> byte c \<and> byte c \<le> 90)"

definition lower_hex :: "char \<Rightarrow> bool" where
  "lower_hex c = (is_digit c \<or> 97 \<le> byte c \<and> byte c \<le> 102)"

text \<open>\<^verbatim>\<open>hex.DecodeString\<close> succeeds on an even number of hexadecimal digits of either case.\<close>

definition hex_decodes :: "string \<Rightarrow> bool" where
  "hex_decodes s = (list_all (\<lambda>c. lower_hex c \<or> 65 \<le> byte c \<and> byte c \<le> 70) s \<and> even (length s))"

definition validateHash :: "string \<Rightarrow> string \<Rightarrow> goerr option" where
  "validateHash field value =
     (let prefix = ''sha256:'' in
      if \<not> HasPrefix value prefix \<or> length value \<noteq> length prefix + 64
      then Some (Errorf ''%s must be sha256 followed by 64 lowercase hexadecimal characters'' [Str field] [])
      else let digest = TrimPrefix value prefix in
        if list_ex is_upper digest then Some (Errorf ''%s must use lowercase hexadecimal'' [Str field] [])
        else if \<not> hex_decodes digest then Some (Errorf ''%s has invalid hexadecimal digest'' [Str field] [])
        else None)"

definition validateUTCTime :: "string \<Rightarrow> gotime \<Rightarrow> goerr option" where
  "validateUTCTime field value =
     (if IsZero value then Some (Errorf ''%s must be set'' [Str field] [])
      else if t_offset value \<noteq> 0 then Some (Errorf ''%s must use UTC'' [Str field] [])
      else None)"

text \<open>The loop over the containers of a revision; the empty string stands for no previous name, as in the code.\<close>

fun validate_containers :: "string \<Rightarrow> Container list \<Rightarrow> goerr option" where
  "validate_containers previousName [] = None"
| "validate_containers previousName (c # cs) =
     (if Container_Name c = [] \<or> Container_Image c = []
      then Some (errors_New ''revision container name and image must be non-empty'')
      else if previousName \<noteq> [] \<and> Container_Name c \<le> previousName
      then Some (errors_New ''revision containers must be uniquely sorted by name'')
      else validate_containers (Container_Name c) cs)"

text \<open>A sequence of checks, of which the first that fails is reported.\<close>

fun first_failure :: "goerr option list \<Rightarrow> goerr option" where
  "first_failure [] = None"
| "first_failure (None # checks) = first_failure checks"
| "first_failure (Some err # checks) = Some err"

definition check :: "bool \<Rightarrow> goerr \<Rightarrow> goerr option" where
  "check failed err = (if failed then Some err else None)"

definition validateWorkloadState :: "string \<Rightarrow> WorkloadState \<Rightarrow> goerr option" where
  "validateWorkloadState key s = first_failure
     [check (State_Kind s \<noteq> KindDeployment \<and> State_Kind s \<noteq> KindStatefulSet)
        (Errorf ''unsupported kind %q'' [Str (State_Kind s)] []),
      check (State_Namespace s = [] \<or> State_Name s = [] \<or> State_WorkloadUID s = [])
        (errors_New ''namespace, name, and workloadUID must be non-empty''),
      check (key \<noteq> state_Key s) (Errorf ''key does not match identity %q'' [Str (state_Key s)] []),
      check (State_LastPolicyName s = []) (errors_New ''lastPolicyName must be non-empty''),
      validateHash ''trackingSpecHash'' (State_TrackingSpecHash s),
      validateHash ''revisionHash'' (State_RevisionHash s),
      check (State_Source (State_Revision s) \<noteq> SourceContainerImages)
        (Errorf ''unsupported revision source %q'' [Str (State_Source (State_Revision s))] []),
      check (State_Containers (State_Revision s) = []) (errors_New ''revision containers must be non-empty''),
      validate_containers [] (State_Containers (State_Revision s)),
      validateUTCTime ''firstSeenAt'' (State_FirstSeenAt s),
      validateUTCTime ''lastSeenAt'' (State_LastSeenAt s),
      check (Before (State_LastSeenAt s) (State_FirstSeenAt s))
        (errors_New ''lastSeenAt must not be before firstSeenAt''),
      (case State_ReplicaSnapshot s of
         None \<Rightarrow> None
       | Some snapshot \<Rightarrow> first_failure
           [check (Snap_Replicas snapshot < 0) (errors_New ''replicaSnapshot.replicas must be non-negative''),
            validateUTCTime ''replicaSnapshot.capturedAt'' (Snap_CapturedAt snapshot),
            check (Snap_CapturedReason snapshot = []) (errors_New ''replicaSnapshot.capturedReason must be non-empty'')])]"

fun validate_states :: "WorkloadState gomap \<Rightarrow> goerr option" where
  "validate_states [] = None"
| "validate_states ((key, s) # rest) =
     (case validateWorkloadState key s of
        Some err \<Rightarrow> Some (Errorf ''%w: state %q: %v'' [Str key, ErrV err] [ErrInvalidDocument])
      | None \<Rightarrow> validate_states rest)"

definition ValidateDocument :: "Document \<Rightarrow> goerr option" where
  "ValidateDocument document =
     (if Doc_FormatVersion document \<noteq> FormatVersion
      then Some (Errorf ''%w: %w: got %d, want %d'' [Num (Doc_FormatVersion document), Num FormatVersion]
             [ErrInvalidDocument, ErrUnsupportedFormatVersion])
      else (case Doc_States document of
          None \<Rightarrow> Some (Errorf ''%w: states must be an object'' [] [ErrInvalidDocument])
        | Some states \<Rightarrow> validate_states states))"

definition normalizeState :: "WorkloadState \<Rightarrow> WorkloadState" where
  "normalizeState s = s\<lparr>State_FirstSeenAt := UTC (State_FirstSeenAt s), State_LastSeenAt := UTC (State_LastSeenAt s),
     State_ReplicaSnapshot := map_option (\<lambda>snapshot. snapshot\<lparr>Snap_CapturedAt := UTC (Snap_CapturedAt snapshot)\<rparr>)
       (State_ReplicaSnapshot s)\<rparr>"

definition normalizeDocument :: "Document \<Rightarrow> Document" where
  "normalizeDocument document = document\<lparr>Doc_States :=
     map_option (map (\<lambda>(key, s). (key, normalizeState s))) (Doc_States document)\<rparr>"

section \<open>Encoding (\<^verbatim>\<open>document.go\<close>)\<close>

text \<open>
  \<open>Marshal_wire\<close> encodes the plain structure; it fails on times \<^verbatim>\<open>encoding/json\<close> cannot express.
  \<open>Valid_json\<close> is the syntax check of \<^verbatim>\<open>json.Unmarshal\<close> on the whole input, \<open>Decode_wire\<close> the strict
  decoding of the first value of a stream, \<open>Decode_next\<close> the outcome of decoding another one.
\<close>

record json_codec =
  Marshal_wire :: "Document \<Rightarrow> string result"
  Valid_json :: "string \<Rightarrow> goerr option"
  Decode_wire :: "string \<Rightarrow> Document result"
  Decode_next :: "string \<Rightarrow> unit result"

definition json_EOF :: goerr where
  "json_EOF = errors_New ''EOF''"

definition MarshalJSON :: "json_codec \<Rightarrow> Document \<Rightarrow> string result" where
  "MarshalJSON json d =
     (let normalized = normalizeDocument d in
      case ValidateDocument normalized of
        Some err \<Rightarrow> Inl err
      | None \<Rightarrow> Marshal_wire json normalized)"

definition UnmarshalJSON :: "json_codec \<Rightarrow> string \<Rightarrow> Document result" where
  "UnmarshalJSON json data =
     (case Decode_wire json data of
        Inl err \<Rightarrow> Inl (Errorf ''%w: decode: %v'' [ErrV err] [ErrInvalidDocument])
      | Inr decoded \<Rightarrow>
          (case Decode_next json data of
             Inr _ \<Rightarrow> Inl (Errorf ''%w: multiple JSON values'' [] [ErrInvalidDocument])
           | Inl err \<Rightarrow>
               if \<not> errors_Is err json_EOF
               then Inl (Errorf ''%w: trailing data: %v'' [ErrV err] [ErrInvalidDocument])
               else (case ValidateDocument decoded of
                   Some err \<Rightarrow> Inl err
                 | None \<Rightarrow> Inr (normalizeDocument decoded))))"

text \<open>\<^verbatim>\<open>json.Marshal\<close> wraps the error of a \<^verbatim>\<open>MarshalJSON\<close> method, \<^verbatim>\<open>json.Unmarshal\<close> passes that of \<^verbatim>\<open>UnmarshalJSON\<close> on.\<close>

definition EncodeDocument :: "json_codec \<Rightarrow> Document \<Rightarrow> string result" where
  "EncodeDocument json document =
     (case MarshalJSON json document of
        Inl err \<Rightarrow> Inl (Errorf ''json: error calling MarshalJSON for type %s: %w'' [Str ''state.Document''] [err])
      | Inr payload \<Rightarrow> Inr payload)"

definition json_Unmarshal :: "json_codec \<Rightarrow> string \<Rightarrow> Document result" where
  "json_Unmarshal json data =
     (case Valid_json json data of Some err \<Rightarrow> Inl err | None \<Rightarrow> UnmarshalJSON json data)"

definition DecodeDocument :: "json_codec \<Rightarrow> string \<Rightarrow> Document result" where
  "DecodeDocument json data =
     (case json_Unmarshal json data of
        Inl err \<Rightarrow>
          if errors_Is err ErrInvalidDocument then Inl err
          else Inl (Errorf ''%w: decode: %v'' [ErrV err] [ErrInvalidDocument])
      | Inr document \<Rightarrow> Inr document)"

section \<open>Cleanup (\<^verbatim>\<open>cleanup.go\<close>)\<close>

record KindInventory =
  ListSucceeded :: bool
  UIDs :: "string gomap"

type_synonym Inventory = "KindInventory gomap"

record CleanupStats =
  Removed :: int
  Retained :: int
  ProtectedSnapshots :: int
  IncompleteInventory :: int

definition InventoryKey :: "string \<Rightarrow> string \<Rightarrow> string" where
  "InventoryKey namespace name = namespace @ ''/'' @ name"

text \<open>The loop: the states left to visit, the cleaned map and the counters so far.\<close>

fun cleanup_states :: "Inventory \<Rightarrow> gotime \<Rightarrow> duration \<Rightarrow> WorkloadState gomap \<Rightarrow>
  WorkloadState gomap \<times> CleanupStats \<Rightarrow> (WorkloadState gomap \<times> CleanupStats) result" where
  "cleanup_states inventory now retention [] acc = Inr acc"
| "cleanup_states inventory now retention ((key, cur) # rest) (cleaned, stats) =
     (case map_of inventory (State_Kind cur) of
        None \<Rightarrow> cleanup_states inventory now retention rest
          (cleaned, stats\<lparr>Retained := Retained stats + 1, IncompleteInventory := IncompleteInventory stats + 1\<rparr>)
      | Some listed \<Rightarrow>
          if \<not> ListSucceeded listed
          then cleanup_states inventory now retention rest
            (cleaned, stats\<lparr>Retained := Retained stats + 1, IncompleteInventory := IncompleteInventory stats + 1\<rparr>)
          else
            let live = map_of (UIDs listed) (InventoryKey (State_Namespace cur) (State_Name cur)) in
            if live = Some [] then Inl (Errorf ''inventory contains empty UID for %s'' [Str key] [])
            else if live = Some (State_WorkloadUID cur)
            then cleanup_states inventory now retention rest
              (cleaned, stats\<lparr>Retained := Retained stats + 1,
                 ProtectedSnapshots := ProtectedSnapshots stats + (if State_ReplicaSnapshot cur \<noteq> None then 1 else 0)\<rparr>)
            else if Before now (Add (State_LastSeenAt cur) retention)
            then cleanup_states inventory now retention rest (cleaned, stats\<lparr>Retained := Retained stats + 1\<rparr>)
            else cleanup_states inventory now retention rest
              (AList.delete key cleaned, stats\<lparr>Removed := Removed stats + 1\<rparr>))"

definition zeroCleanupStats :: CleanupStats where
  "zeroCleanupStats = \<lparr>Removed = 0, Retained = 0, ProtectedSnapshots = 0, IncompleteInventory = 0\<rparr>"

definition CleanupDeleted ::
  "Document \<Rightarrow> Inventory \<Rightarrow> gotime \<Rightarrow> duration \<Rightarrow> (Document \<times> CleanupStats) result" where
  "CleanupDeleted document inventory now retention =
     (case ValidateDocument document of
        Some err \<Rightarrow> Inl err
      | None \<Rightarrow>
          if IsZero now then Inl (errors_New ''cleanup time must be set'')
          else if retention < 0 then Inl (errors_New ''cleanup retention must be non-negative'')
          else
            let cleaned = normalizeDocument document;
                states = (case Doc_States document of None \<Rightarrow> [] | Some m \<Rightarrow> m);
                cleanedStates = (case Doc_States cleaned of None \<Rightarrow> [] | Some m \<Rightarrow> m)
            in (case cleanup_states inventory now retention states (cleanedStates, zeroCleanupStats) of
                  Inl err \<Rightarrow> Inl err
                | Inr (m, stats) \<Rightarrow> Inr (cleaned\<lparr>Doc_States := Some m\<rparr>, stats)))"

section \<open>Capacity (\<^verbatim>\<open>capacity.go\<close>)\<close>

abbreviation ConfigMapMaxDataBytes :: int where "ConfigMapMaxDataBytes \<equiv> 1048576"

definition ConfigMapCapacityWarningBytes :: int where
  "ConfigMapCapacityWarningBytes = ConfigMapMaxDataBytes * 80 div 100"

definition ErrStateCapacityExceeded :: goerr where
  "ErrStateCapacityExceeded = errors_New ''state ConfigMap capacity exceeded''"

record Capacity =
  StateBytes :: int
  TotalBytes :: int
  WarningBytes :: int
  LimitBytes :: int
  NearLimit :: bool
  Exceeded :: bool

definition MeasureCapacity :: "int \<Rightarrow> int \<Rightarrow> Capacity" where
  "MeasureCapacity stateBytes totalBytes =
     \<lparr>StateBytes = stateBytes, TotalBytes = totalBytes, WarningBytes = ConfigMapCapacityWarningBytes,
      LimitBytes = ConfigMapMaxDataBytes, NearLimit = (totalBytes \<ge> ConfigMapCapacityWarningBytes),
      Exceeded = (totalBytes > ConfigMapMaxDataBytes)\<rparr>"

section \<open>What validation means\<close>

lemma first_failure_iff [spec_iff]: "first_failure cs = None \<longleftrightarrow> list_all (\<lambda>c. c = None) cs"
  by (induction cs rule: first_failure.induct) auto

lemma check_iff [spec_iff]: "check b e = None \<longleftrightarrow> \<not> b"
  by (simp add: check_def)

definition valid_hash :: "string \<Rightarrow> bool" where
  "valid_hash v = (HasPrefix v ''sha256:'' \<and> length v = length ''sha256:'' + 64 \<and>
     list_all lower_hex (TrimPrefix v ''sha256:''))"

lemma lower_digest:
  "\<not> list_ex is_upper d \<and> list_all (\<lambda>c. lower_hex c \<or> 65 \<le> byte c \<and> byte c \<le> 70) d \<longleftrightarrow> list_all lower_hex d"
  by (induction d) (auto simp: lower_hex_def is_upper_def is_digit_def)

lemma validateHash_iff [spec_iff]: "validateHash f v = None \<longleftrightarrow> valid_hash v"
proof (cases "HasPrefix v ''sha256:'' \<and> length v = length ''sha256:'' + 64")
  case True
  then have "length (TrimPrefix v ''sha256:'') = 64" by (simp only: TrimPrefix_def if_True length_drop)
  with True show ?thesis
    using lower_digest[of "TrimPrefix v ''sha256:''"]
    by (simp only: validateHash_def valid_hash_def Let_def hex_decodes_def) auto
next
  case False
  then show ?thesis by (auto simp: validateHash_def valid_hash_def Let_def)
qed

lemma valid_hash_nonempty: "valid_hash v \<Longrightarrow> v \<noteq> []"
  by (auto simp: valid_hash_def)

definition utc_set :: "gotime \<Rightarrow> bool" where
  "utc_set t = (\<not> IsZero t \<and> t_offset t = 0)"

lemma validateUTCTime_iff [spec_iff]: "validateUTCTime f t = None \<longleftrightarrow> utc_set t"
  by (simp add: validateUTCTime_def utc_set_def)

lemma validate_containers_iff:
  "validate_containers p cs = None \<longleftrightarrow>
   list_all (\<lambda>c. Container_Name c \<noteq> [] \<and> Container_Image c \<noteq> []) cs \<and>
   sorted_wrt (<) (map Container_Name cs) \<and> (cs = [] \<or> p = [] \<or> p < Container_Name (hd cs))"
proof (induction cs arbitrary: p)
  case (Cons c cs)
  have "sorted_wrt (<) (map Container_Name (c # cs)) \<longleftrightarrow>
      sorted_wrt (<) (map Container_Name cs) \<and> (cs = [] \<or> Container_Name c < Container_Name (hd cs))"
  proof (cases cs)
    case (Cons d ds)
    have "transp ((<) :: string \<Rightarrow> _)" by (rule transp_on_less)
    from sorted_wrt2[OF this] Cons show ?thesis by (simp only: list.map list.sel) blast
  qed simp
  then show ?case using Cons.IH[of "Container_Name c"] by (simp del: sorted_wrt.simps add: not_le) (metis not_le)
qed simp

definition valid_snapshot :: "ReplicaSnapshot \<Rightarrow> bool" where
  "valid_snapshot s = (0 \<le> Snap_Replicas s \<and> utc_set (Snap_CapturedAt s) \<and> Snap_CapturedReason s \<noteq> [])"

definition valid_state :: "string \<Rightarrow> WorkloadState \<Rightarrow> bool" where
  "valid_state key s =
     (supported_kind (State_Kind s) \<and> State_Namespace s \<noteq> [] \<and> State_Name s \<noteq> [] \<and> State_WorkloadUID s \<noteq> [] \<and>
      key = state_Key s \<and> State_LastPolicyName s \<noteq> [] \<and>
      valid_hash (State_TrackingSpecHash s) \<and> valid_hash (State_RevisionHash s) \<and>
      State_Source (State_Revision s) = SourceContainerImages \<and> State_Containers (State_Revision s) \<noteq> [] \<and>
      list_all (\<lambda>c. Container_Name c \<noteq> [] \<and> Container_Image c \<noteq> []) (State_Containers (State_Revision s)) \<and>
      sorted_wrt (<) (map Container_Name (State_Containers (State_Revision s))) \<and>
      utc_set (State_FirstSeenAt s) \<and> utc_set (State_LastSeenAt s) \<and>
      t_ns (State_FirstSeenAt s) \<le> t_ns (State_LastSeenAt s) \<and>
      (case State_ReplicaSnapshot s of None \<Rightarrow> True | Some snapshot \<Rightarrow> valid_snapshot snapshot))"

lemma validateWorkloadState_iff [spec_iff]: "validateWorkloadState key s = None \<longleftrightarrow> valid_state key s"
  by (auto simp: validateWorkloadState_def valid_state_def valid_snapshot_def spec_iff validate_containers_iff
      Before_def split: option.splits)

definition valid_document :: "Document \<Rightarrow> bool" where
  "valid_document d = (Doc_FormatVersion d = FormatVersion \<and>
     (case Doc_States d of None \<Rightarrow> False | Some m \<Rightarrow> list_all (\<lambda>(k, s). valid_state k s) m))"

lemma validate_states_iff: "validate_states m = None \<longleftrightarrow> list_all (\<lambda>(k, s). valid_state k s) m"
proof (induction m)
  case (Cons x m)
  obtain k s where "x = (k, s)" by fastforce
  then show ?case using Cons validateWorkloadState_iff[of k s] by (auto split: option.splits)
qed simp

lemma ValidateDocument_iff [spec_iff]: "ValidateDocument d = None \<longleftrightarrow> valid_document d"
  by (simp add: ValidateDocument_def valid_document_def validate_states_iff split: option.splits)

lemma normalizeState_valid: "valid_state k s \<Longrightarrow> normalizeState s = s"
  by (auto simp: valid_state_def normalizeState_def utc_set_def valid_snapshot_def UTC_id split: option.splits)

lemma normalizeDocument_valid: "valid_document d \<Longrightarrow> normalizeDocument d = d"
proof -
  assume v: "valid_document d"
  then obtain m where m: "Doc_States d = Some m" "list_all (\<lambda>(k, s). valid_state k s) m"
    by (auto simp: valid_document_def split: option.splits)
  then have "map (\<lambda>(key, s). (key, normalizeState s)) m = m"
    by (intro map_idI) (auto simp: list_all_iff normalizeState_valid)
  then show ?thesis using m by (simp add: normalizeDocument_def)
qed

lemma ValidateDocument_wraps: "ValidateDocument d = Some err \<Longrightarrow> errors_Is err ErrInvalidDocument"
proof -
  have "validate_states m = Some err \<Longrightarrow> errors_Is err ErrInvalidDocument" for m
    by (induction m) (auto split: option.splits)
  then show "ValidateDocument d = Some err \<Longrightarrow> errors_Is err ErrInvalidDocument"
    by (auto simp: ValidateDocument_def split: if_splits option.splits)
qed

text \<open>
  C27: decoding a stored payload never passes off malformed state as a document: it either fails with
  an error that wraps \<^verbatim>\<open>ErrInvalidDocument\<close>, or gives a document that satisfies the complete
  persisted-state invariant, with all times in UTC.
\<close>

theorem DecodeDocument_strict:
  "case DecodeDocument json payload of
     Inl err \<Rightarrow> errors_Is err ErrInvalidDocument
   | Inr d \<Rightarrow> ValidateDocument d = None \<and> valid_document d \<and> normalizeDocument d = d"
  using ValidateDocument_wraps normalizeDocument_valid ValidateDocument_iff
  by (auto simp: DecodeDocument_def json_Unmarshal_def UnmarshalJSON_def split: sum.splits option.splits if_splits)


lemma hex_digit_lower: "0 \<le> n \<Longrightarrow> n < 16 \<Longrightarrow> lower_hex (hex_digit n)"
proof -
  assume "0 \<le> n" "n < 16"
  then have "n \<in> {0, 1, 2, 3, 4, 5, 6, 7, 8, 9, 10, 11, 12, 13, 14, 15}" by (simp only: insert_iff empty_iff) arith
  then show ?thesis by (auto simp: hex_digit_def lower_hex_def is_digit_def byte_def)
qed

lemma EncodeToString_lower: "list_all lower_hex (EncodeToString bs)"
proof (induction bs)
  case (Cons b bs)
  have "0 \<le> byte b div 16" "byte b div 16 < 16" using byte_bounds[of b] by simp_all
  then show ?case using Cons by (simp add: EncodeToString_def hex_digit_lower)
qed (simp add: EncodeToString_def)

lemma length_EncodeToString: "length (EncodeToString bs) = 2 * length bs"
  by (induction bs) (auto simp: EncodeToString_def)

lemma hashJSON_valid: "length (Sum256 x) = 32 \<Longrightarrow> valid_hash (hashJSON Sum256 x)"
  by (simp add: valid_hash_def hashJSON_def HasPrefix_def TrimPrefix_def EncodeToString_lower length_EncodeToString)

lemma CalculateRevision_valid:
  assumes "\<And>x. length (Sum256 x) = 32" and r: "CalculateRevision Sum256 cs spec = Inr r"
  shows "valid_hash (Rev_TrackingSpecHash r)" "valid_hash (Rev_RevisionHash r)" "Rev_Containers r \<noteq> []"
    "list_all (\<lambda>c. Container_Name c \<noteq> [] \<and> Container_Image c \<noteq> []) (Rev_Containers r)"
    "sorted_wrt (<) (map Container_Name (Rev_Containers r))"
proof -
  obtain n m where sel: "selectContainers cs (Spec_Containers spec) = Inr (Rev_Containers r, n, m)"
    and h: "Rev_RevisionHash r = hashJSON Sum256 (json_containers (Rev_Containers r))"
      "Rev_TrackingSpecHash r = hashJSON Sum256 (json_tracking \<lparr>Tracking_Version = 1,
         Tracking_Source = SourceContainerImages, Tracking_Mode = m, Tracking_Containers = n\<rparr>)"
    using CalculateRevision_Inr[OF r] by metis
  show "valid_hash (Rev_TrackingSpecHash r)" "valid_hash (Rev_RevisionHash r)"
    by (simp_all add: h hashJSON_valid assms(1))
  note S = selectContainers_Inr[OF sel]
  show "Rev_Containers r \<noteq> []" "sorted_wrt (<) (map Container_Name (Rev_Containers r))" using S by auto
  show "list_all (\<lambda>c. Container_Name c \<noteq> [] \<and> Container_Image c \<noteq> []) (Rev_Containers r)"
    using S(1,4) by (auto simp: valid_containers_def list_all_iff)
qed

text \<open>
  The hashes the revision calculator produces are exactly of the form that state validation
  demands, so that a state built from a calculated revision passes the hash checks; the only
  assumption on the hash function is that a digest has 32 bytes.
\<close>

theorem CalculateRevision_hashes_validate:
  assumes "\<And>x. length (Sum256 x) = 32" and "CalculateRevision Sum256 cs spec = Inr r"
  shows "validateHash f (Rev_TrackingSpecHash r) = None \<and> validateHash f (Rev_RevisionHash r) = None \<and>
         validate_containers [] (Rev_Containers r) = None"
  using CalculateRevision_valid[OF assms] by (simp add: spec_iff validate_containers_iff)

theorem CalculateRevision_hashes_validate_witness:
  "\<exists>r. CalculateRevision (\<lambda>_. replicate 32 (CHR ''0'')) two_containers track_all = Inr r \<and>
       validateHash ''revisionHash'' (Rev_RevisionHash r) = None"
proof -
  obtain r where r: "CalculateRevision (\<lambda>_. replicate 32 (CHR ''0'')) two_containers track_all = Inr r"
    using two_containers_revision by blast
  from CalculateRevision_hashes_validate[OF _ r] r show ?thesis by auto
qed

section \<open>Cleanup\<close>

text \<open>The states that may go: the kind was listed completely, the recorded object is gone, the retention is over.\<close>

definition removable :: "Inventory \<Rightarrow> gotime \<Rightarrow> duration \<Rightarrow> WorkloadState \<Rightarrow> bool" where
  "removable inventory now retention s =
     (case map_of inventory (State_Kind s) of
        None \<Rightarrow> False
      | Some listed \<Rightarrow>
          ListSucceeded listed \<and>
          map_of (UIDs listed) (InventoryKey (State_Namespace s) (State_Name s)) \<noteq> Some (State_WorkloadUID s) \<and>
          t_ns (State_LastSeenAt s) + retention \<le> t_ns now)"

definition no_empty_uid :: "Inventory \<Rightarrow> bool" where
  "no_empty_uid inventory = list_all (\<lambda>(kind, listed). list_all (\<lambda>(k, uid). uid \<noteq> []) (UIDs listed)) inventory"

lemma no_empty_uid_lookup:
  "no_empty_uid inventory \<Longrightarrow> map_of inventory kind = Some listed \<Longrightarrow> map_of (UIDs listed) k \<noteq> Some []"
  by (fastforce simp: no_empty_uid_def list_all_iff dest: map_of_SomeD)

text \<open>One turn of the loop on a state that stays.\<close>

lemma cleanup_states_keep:
  assumes "no_empty_uid inventory" "\<not> removable inventory now retention s"
  shows "\<exists>stats1. cleanup_states inventory now retention ((k, s) # rest) (cleaned, stats) =
      cleanup_states inventory now retention rest (cleaned, stats1) \<and>
    Removed stats1 = Removed stats \<and> Retained stats1 = Retained stats + 1"
proof (cases "map_of inventory (State_Kind s)")
  case None
  then show ?thesis
    by (intro exI[of _ "stats\<lparr>Retained := Retained stats + 1, IncompleteInventory := IncompleteInventory stats + 1\<rparr>"]) simp
next
  case (Some listed)
  let ?live = "map_of (UIDs listed) (InventoryKey (State_Namespace s) (State_Name s))"
  have ne: "?live \<noteq> Some []" using no_empty_uid_lookup[OF assms(1) Some] .
  consider "\<not> ListSucceeded listed" | "ListSucceeded listed" "?live = Some (State_WorkloadUID s)"
    | "ListSucceeded listed" "?live \<noteq> Some (State_WorkloadUID s)" "Before now (Add (State_LastSeenAt s) retention)"
    using assms(2) Some by (simp add: removable_def Before_def Add_def) fastforce
  then show ?thesis
  proof cases
    case 1
    then show ?thesis using Some
      by (intro exI[of _ "stats\<lparr>Retained := Retained stats + 1, IncompleteInventory := IncompleteInventory stats + 1\<rparr>"]) simp
  next
    case 2
    then show ?thesis using Some ne
      by (intro exI[of _ "stats\<lparr>Retained := Retained stats + 1,
        ProtectedSnapshots := ProtectedSnapshots stats + (if State_ReplicaSnapshot s \<noteq> None then 1 else 0)\<rparr>"])
        (simp add: Let_def)
  next
    case 3
    then show ?thesis using Some ne
      by (intro exI[of _ "stats\<lparr>Retained := Retained stats + 1\<rparr>"]) (simp add: Let_def)
  qed
qed

lemma cleanup_states_correct:
  assumes "no_empty_uid inventory"
  shows "\<exists>stats'. cleanup_states inventory now retention rest (cleaned, stats) =
      Inr (filter (\<lambda>(k, _). k \<notin> fst ` set (filter (\<lambda>(k, s). removable inventory now retention s) rest)) cleaned, stats') \<and>
    Removed stats' = Removed stats + int (length (filter (\<lambda>(k, s). removable inventory now retention s) rest)) \<and>
    Removed stats' + Retained stats' = Removed stats + Retained stats + int (length rest)"
proof (induction rest arbitrary: cleaned stats)
  case Nil
  then show ?case by simp
next
  case (Cons x rest)
  obtain k s where x: "x = (k, s)" by fastforce
  let ?R = "removable inventory now retention"
  show ?case
  proof (cases "?R s")
    case True
    then have step: "cleanup_states inventory now retention (x # rest) (cleaned, stats) =
        cleanup_states inventory now retention rest (AList.delete k cleaned, stats\<lparr>Removed := Removed stats + 1\<rparr>)"
      using no_empty_uid_lookup[OF assms]
      by (auto simp: x removable_def Before_def Add_def Let_def split: option.splits)
    have "filter P (AList.delete k cleaned) = filter (\<lambda>y. fst y \<noteq> k \<and> P y) cleaned" for P
      by (auto simp: AList.delete_eq split_beta intro!: filter_cong)
    then show ?thesis
      using Cons.IH[of "AList.delete k cleaned" "stats\<lparr>Removed := Removed stats + 1\<rparr>"] True
      unfolding step by (auto simp: x split_beta)
  next
    case False
    from cleanup_states_keep[OF assms this] x
    obtain stats1 where step: "cleanup_states inventory now retention (x # rest) (cleaned, stats) =
        cleanup_states inventory now retention rest (cleaned, stats1)"
      and "Removed stats1 = Removed stats" "Retained stats1 = Retained stats + 1" by blast
    then show ?thesis
      using Cons.IH[of cleaned stats1] False unfolding step by (auto simp: x)
  qed
qed


text \<open>
  C31: cleanup removes exactly the states it may remove. On a valid document, with a set clock, a
  non-negative retention and an inventory without empty UIDs, it succeeds; the result holds, in
  order and unchanged, every state whose kind was not listed completely, or whose recorded object
  still lives under the same UID, or which was seen within the retention period, and no other; the
  counters account for every state.
\<close>

theorem CleanupDeleted_correct:
  assumes "ValidateDocument d = None" "Doc_States d = Some m" "is_gomap m"
    and "\<not> IsZero now" "0 \<le> retention" "no_empty_uid inventory"
  shows "\<exists>stats. CleanupDeleted d inventory now retention =
      Inr (d\<lparr>Doc_States := Some (filter (\<lambda>(k, s). \<not> removable inventory now retention s) m)\<rparr>, stats) \<and>
    Removed stats = int (length (filter (\<lambda>(k, s). removable inventory now retention s) m)) \<and>
    Removed stats + Retained stats = int (length m)"
proof -
  let ?R = "removable inventory now retention"
  have norm: "normalizeDocument d = d" using assms(1) by (simp add: spec_iff normalizeDocument_valid)
  have "k \<in> fst ` set (filter (\<lambda>(k, s). ?R s) m) \<longleftrightarrow> ?R s" if "(k, s) \<in> set m" for k s
    using that map_of_gomap[OF assms(3)] by (force simp: image_iff)
  then have keep: "filter (\<lambda>(k, _). k \<notin> fst ` set (filter (\<lambda>(k, s). ?R s) m)) m = filter (\<lambda>(k, s). \<not> ?R s) m"
    by (intro filter_cong) auto
  from cleanup_states_correct[OF assms(6), of now retention m m zeroCleanupStats] assms norm show ?thesis
    unfolding keep by (auto simp: CleanupDeleted_def Let_def zeroCleanupStats_def)
qed

definition sample_state :: WorkloadState where
  "sample_state = \<lparr>State_Kind = KindDeployment, State_Namespace = ''shop'', State_Name = ''api'',
     State_WorkloadUID = ''u1'', State_LastPolicyName = ''base'',
     State_TrackingSpecHash = ''sha256:'' @ replicate 64 (CHR ''0''), State_RevisionHash = ''sha256:'' @ replicate 64 (CHR ''0''),
     State_Revision = \<lparr>State_Source = SourceContainerImages, State_Containers = [\<lparr>Container_Name = ''app'', Container_Image = ''app:v1''\<rparr>]\<rparr>,
     State_FirstSeenAt = \<lparr>t_ns = 0, t_offset = 0\<rparr>, State_LastSeenAt = \<lparr>t_ns = 0, t_offset = 0\<rparr>,
     State_ReplicaSnapshot = None, State_WindowEntryRevision = [], State_WindowInstanceID = [],
     State_ScaleDownSkipped = False, State_ScaleDownSkipReason = []\<rparr>"

definition sample_document :: Document where
  "sample_document = \<lparr>Doc_FormatVersion = 1, Doc_States = Some [(''Deployment/shop/api'', sample_state)]\<rparr>"

lemma sample_state_valid: "valid_state ''Deployment/shop/api'' sample_state"
  by (simp add: valid_state_def sample_state_def state_Key_def valid_hash_def HasPrefix_def TrimPrefix_def
      list_all_replicate lower_hex_def is_digit_def byte_def utc_set_def IsZero_def zero_ns_def)

lemma sample_document_valid: "ValidateDocument sample_document = None"
  by (simp add: spec_iff valid_document_def sample_document_def sample_state_valid)

definition replaced_inventory :: Inventory where
  "replaced_inventory = [(KindDeployment, \<lparr>ListSucceeded = True, UIDs = [(''shop/api'', ''u2'')]\<rparr>)]"

lemma sample_removable: "removable replaced_inventory \<lparr>t_ns = 100, t_offset = 0\<rparr> 50 sample_state"
  by (simp add: removable_def replaced_inventory_def sample_state_def InventoryKey_def)

theorem CleanupDeleted_correct_witness:
  "\<exists>stats. CleanupDeleted sample_document replaced_inventory \<lparr>t_ns = 100, t_offset = 0\<rparr> 50 =
       Inr (sample_document\<lparr>Doc_States := Some []\<rparr>, stats) \<and> Removed stats = 1"
proof -
  have m: "Doc_States sample_document = Some [(''Deployment/shop/api'', sample_state)]"
    "is_gomap [(''Deployment/shop/api'', sample_state)]" by (simp_all add: sample_document_def is_gomap_def)
  have "\<not> IsZero \<lparr>t_ns = 100, t_offset = 0\<rparr>" "no_empty_uid replaced_inventory"
    by (simp_all add: IsZero_def zero_ns_def no_empty_uid_def replaced_inventory_def)
  from CleanupDeleted_correct[OF sample_document_valid m this(1) _ this(2), of 50] show ?thesis
    by (auto simp: sample_removable)
qed

end
