(* ===== verification/State_Store.thy ===== *)
theory State_Store
  imports State_Document
begin

text \<open>
  Package \<^verbatim>\<open>internal/state\<close>, \<^verbatim>\<open>configmap.go\<close>: the store that keeps the document in one ConfigMap. The
  Kubernetes client, the context, the timer and the capacity observer are actions of the record
  \<open>cm_client\<close>, and so are the classifications of API errors by package \<^verbatim>\<open>apierrors\<close>.

  The factor of the backoff is an integer here: the only backoff the program uses doubles its delay,
  and the delays are small enough for the floating-point product of the source to be exact.
\<close>

section \<open>The code\<close>

abbreviation ConfigMapDataKey :: string where "ConfigMapDataKey \<equiv> ''states.json''"

definition ErrMissingStateData :: goerr where
  "ErrMissingStateData = errors_New ''state ConfigMap is missing states.json''"

definition ErrConflictRetriesExhausted :: goerr where
  "ErrConflictRetriesExhausted = errors_New ''state ConfigMap conflict retries exhausted''"

text \<open>\<open>CM_Rest\<close> stands for the rest of the object (resource version, labels), which the store only copies.\<close>

record ConfigMap =
  CM_Name :: string
  CM_Namespace :: string
  CM_Data :: "string gomap option"
  CM_BinaryData :: "string gomap"
  CM_Rest :: string

record ConflictBackoff =
  Steps :: int
  InitialDelay :: duration
  Factor :: int
  MaxDelay :: duration

abbreviation Millisecond :: duration where "Millisecond \<equiv> 1000000"

definition DefaultConflictBackoff :: ConflictBackoff where
  "DefaultConflictBackoff = \<lparr>Steps = 5, InitialDelay = 10 * Millisecond, Factor = 2, MaxDelay = 160 * Millisecond\<rparr>"

record 'w cm_client =
  cm_Get :: "string \<Rightarrow> ('w, ConfigMap result) io"
  cm_Create :: "ConfigMap \<Rightarrow> ('w, ConfigMap result) io"
  cm_Update :: "ConfigMap \<Rightarrow> ('w, ConfigMap result) io"
  cm_ctx_Err :: "('w, goerr option) io"
  cm_timer :: "duration \<Rightarrow> ('w, goerr option) io"
  IsNotFound :: "goerr \<Rightarrow> bool"
  IsConflict :: "goerr \<Rightarrow> bool"
  IsAlreadyExists :: "goerr \<Rightarrow> bool"

record 'w ConfigMapStateStore =
  store_client :: "'w cm_client"
  store_namespace :: string
  store_name :: string
  store_backoff :: ConflictBackoff
  capacityObserver :: "(Capacity \<Rightarrow> ('w, unit) io) option"
  store_json :: json_codec

definition NewConfigMapStateStore :: "'w cm_client \<Rightarrow> json_codec \<Rightarrow> string \<Rightarrow> string \<Rightarrow> 'w ConfigMapStateStore" where
  "NewConfigMapStateStore client json namespace name =
     \<lparr>store_client = client, store_namespace = namespace, store_name = name,
      store_backoff = DefaultConflictBackoff, capacityObserver = None, store_json = json\<rparr>"

definition SetCapacityObserver :: "(Capacity \<Rightarrow> ('w, unit) io) \<Rightarrow> 'w ConfigMapStateStore \<Rightarrow> 'w ConfigMapStateStore" where
  "SetCapacityObserver observer s = s\<lparr>capacityObserver := Some observer\<rparr>"

definition sleepContext :: "'w cm_client \<Rightarrow> duration \<Rightarrow> ('w, goerr option) io" where
  "sleepContext c delay = (if delay \<le> 0 then ret None else cm_timer c delay)"

definition decodeConfigMap :: "json_codec \<Rightarrow> ConfigMap \<Rightarrow> Document result" where
  "decodeConfigMap json cm =
     (case (case CM_Data cm of None \<Rightarrow> None | Some data \<Rightarrow> map_of data ConfigMapDataKey) of
        None \<Rightarrow> Inl ErrMissingStateData
      | Some payload \<Rightarrow> DecodeDocument json payload)"

definition configmap_capacity :: "ConfigMap \<Rightarrow> Capacity" where
  "configmap_capacity cm =
     (let data = (case CM_Data cm of None \<Rightarrow> [] | Some m \<Rightarrow> m);
          stateBytes = (case map_of data ConfigMapDataKey of None \<Rightarrow> 0 | Some v \<Rightarrow> int (length v));
          totalBytes = int (sum_list (map (\<lambda>(k, v). length v) data)) +
                       int (sum_list (map (\<lambda>(k, v). length v) (CM_BinaryData cm)))
      in MeasureCapacity stateBytes totalBytes)"

definition observeCapacity :: "'w ConfigMapStateStore \<Rightarrow> ConfigMap \<Rightarrow> ('w, Capacity) io" where
  "observeCapacity s cm = do {
     let capacity = configmap_capacity cm;
     _ \<leftarrow> (case capacityObserver s of None \<Rightarrow> ret () | Some ObserveStateCapacity \<Rightarrow> ObserveStateCapacity capacity);
     ret capacity
   }"

definition capacity_error :: "Capacity \<Rightarrow> goerr" where
  "capacity_error capacity =
     Errorf ''%w: %d bytes exceeds %d'' [Num (TotalBytes capacity), Num (LimitBytes capacity)] [ErrStateCapacityExceeded]"

definition new_configmap :: "'w ConfigMapStateStore \<Rightarrow> string \<Rightarrow> ConfigMap" where
  "new_configmap s payload =
     \<lparr>CM_Name = store_name s, CM_Namespace = store_namespace s, CM_Data = Some [(ConfigMapDataKey, payload)],
      CM_BinaryData = [], CM_Rest = []\<rparr>"

definition createPayload :: "'w ConfigMapStateStore \<Rightarrow> string \<Rightarrow> ('w, ConfigMap result) io" where
  "createPayload s payload = do {
     capacity \<leftarrow> observeCapacity s (new_configmap s payload);
     if Exceeded capacity then ret (Inl (capacity_error capacity))
     else cm_Create (store_client s) (new_configmap s payload)
   }"

definition store_create :: "'w ConfigMapStateStore \<Rightarrow> Document \<Rightarrow> ('w, ConfigMap result) io" where
  "store_create s document =
     (case EncodeDocument (store_json s) document of
        Inl err \<Rightarrow> ret (Inl err)
      | Inr payload \<Rightarrow> createPayload s payload)"

text \<open>
  The retry loop: the number of attempts left, the next delay and the operation. The loop is entered
  with at least one attempt.
\<close>

definition next_delay :: "ConflictBackoff \<Rightarrow> duration \<Rightarrow> duration" where
  "next_delay b delay =
     (let scaled = delay * (if Factor b < 1 then 1 else Factor b)
      in if MaxDelay b > 0 \<and> scaled > MaxDelay b then MaxDelay b else scaled)"

fun retry_loop :: "'w ConfigMapStateStore \<Rightarrow> nat \<Rightarrow> duration \<Rightarrow> ('w, 'a result) io \<Rightarrow> ('w, 'a result) io" where
  "retry_loop s 0 delay operation = ret (Inl (Errorf ''%w: %v'' [] [ErrConflictRetriesExhausted]))"
| "retry_loop s (Suc attempts) delay operation = do {
     cancelled \<leftarrow> cm_ctx_Err (store_client s);
     case cancelled of
       Some err \<Rightarrow> ret (Inl err)
     | None \<Rightarrow> do {
         answer \<leftarrow> operation;
         case answer of
           Inr a \<Rightarrow> ret (Inr a)
         | Inl err \<Rightarrow>
             if \<not> IsConflict (store_client s) err \<and> \<not> IsAlreadyExists (store_client s) err then ret (Inl err)
             else if attempts = 0 then ret (Inl (Errorf ''%w: %v'' [ErrV err] [ErrConflictRetriesExhausted]))
             else do {
               interrupted \<leftarrow> sleepContext (store_client s) delay;
               case interrupted of
                 Some err \<Rightarrow> ret (Inl err)
               | None \<Rightarrow> retry_loop s attempts (next_delay (store_backoff s) delay) operation
             }
       }
   }"

definition store_retry :: "'w ConfigMapStateStore \<Rightarrow> ('w, 'a result) io \<Rightarrow> ('w, 'a result) io" where
  "store_retry s operation =
     retry_loop s (nat (max 1 (Steps (store_backoff s)))) (InitialDelay (store_backoff s)) operation"

definition load_operation :: "'w ConfigMapStateStore \<Rightarrow> ('w, Document result) io" where
  "load_operation s = do {
     got \<leftarrow> cm_Get (store_client s) (store_name s);
     cm \<leftarrow> (case got of
        Inl err \<Rightarrow> if IsNotFound (store_client s) err then store_create s NewDocument else ret (Inl err)
      | Inr cm \<Rightarrow> ret (Inr cm));
     case cm of
       Inl err \<Rightarrow> ret (Inl err)
     | Inr cm \<Rightarrow> do {
         _ \<leftarrow> observeCapacity s cm;
         ret (decodeConfigMap (store_json s) cm)
       }
   }"

definition store_Load :: "'w ConfigMapStateStore \<Rightarrow> ('w, Document result) io" where
  "store_Load s = do {
     answer \<leftarrow> store_retry s (load_operation s);
     ret (case answer of
         Inl err \<Rightarrow> Inl (Errorf ''load state ConfigMap %s/%s: %w'' [Str (store_namespace s), Str (store_name s)] [err])
       | Inr document \<Rightarrow> Inr document)
   }"

definition with_payload :: "ConfigMap \<Rightarrow> string \<Rightarrow> ConfigMap" where
  "with_payload cm payload =
     cm\<lparr>CM_Data := Some (AList.update ConfigMapDataKey payload (case CM_Data cm of None \<Rightarrow> [] | Some m \<Rightarrow> m))\<rparr>"

definition save_operation :: "'w ConfigMapStateStore \<Rightarrow> string \<Rightarrow> ('w, unit result) io" where
  "save_operation s payload = do {
     got \<leftarrow> cm_Get (store_client s) (store_name s);
     case got of
       Inl err \<Rightarrow>
         if IsNotFound (store_client s) err then do {
           created \<leftarrow> createPayload s payload;
           ret (case created of Inl err \<Rightarrow> Inl err | Inr _ \<Rightarrow> Inr ())
         } else ret (Inl err)
     | Inr cm \<Rightarrow>
         (case decodeConfigMap (store_json s) cm of
            Inl err \<Rightarrow> ret (Inl err)
          | Inr _ \<Rightarrow> do {
              capacity \<leftarrow> observeCapacity s (with_payload cm payload);
              if Exceeded capacity then ret (Inl (capacity_error capacity))
              else do {
                updated \<leftarrow> cm_Update (store_client s) (with_payload cm payload);
                ret (case updated of Inl err \<Rightarrow> Inl err | Inr _ \<Rightarrow> Inr ())
              }
            })
   }"

definition store_Save :: "'w ConfigMapStateStore \<Rightarrow> Document \<Rightarrow> ('w, goerr option) io" where
  "store_Save s document =
     (case EncodeDocument (store_json s) document of
        Inl err \<Rightarrow> ret (Some (Errorf ''encode state ConfigMap %s/%s: %w'' [Str (store_namespace s), Str (store_name s)] [err]))
      | Inr payload \<Rightarrow> do {
          answer \<leftarrow> store_retry s (save_operation s payload);
          ret (case answer of
              Inl err \<Rightarrow> Some (Errorf ''save state ConfigMap %s/%s: %w'' [Str (store_namespace s), Str (store_name s)] [err])
            | Inr _ \<Rightarrow> None)
        })"

section \<open>Recorded calls\<close>

datatype cm_call = Got "ConfigMap result" | Created ConfigMap "ConfigMap result" | Updated ConfigMap "ConfigMap result"

definition unlogged :: "('w, 'a) io \<Rightarrow> ('w \<times> 'x, 'a) io" where
  "unlogged m = State (\<lambda>(w, tr). case run_state m w of (a, w') \<Rightarrow> (a, (w', tr)))"

definition traced_cm :: "'w cm_client \<Rightarrow> ('w \<times> cm_call list) cm_client" where
  "traced_cm c =
     \<lparr>cm_Get = \<lambda>n. logged Got (cm_Get c n), cm_Create = \<lambda>cm. logged (Created cm) (cm_Create c cm),
      cm_Update = \<lambda>cm. logged (Updated cm) (cm_Update c cm), cm_ctx_Err = unlogged (cm_ctx_Err c),
      cm_timer = \<lambda>d. unlogged (cm_timer c d),
      IsNotFound = IsNotFound c, IsConflict = IsConflict c, IsAlreadyExists = IsAlreadyExists c\<rparr>"

definition traced_store :: "'w ConfigMapStateStore \<Rightarrow> ('w \<times> cm_call list) ConfigMapStateStore" where
  "traced_store s = \<lparr>store_client = traced_cm (store_client s), store_namespace = store_namespace s,
     store_name = store_name s, store_backoff = store_backoff s,
     capacityObserver = map_option (\<lambda>observe capacity. unlogged (observe capacity)) (capacityObserver s), store_json = store_json s\<rparr>"

text \<open>
  Retrying: at most \<open>n\<close> attempts were made, each left calls that satisfy \<open>A\<close> with its result, and a
  success is that of the last attempt.
\<close>

definition attempts :: "('a result \<Rightarrow> 'ev list \<Rightarrow> bool) \<Rightarrow> nat \<Rightarrow> 'ev list \<Rightarrow> 'a result \<Rightarrow> 'ev list \<Rightarrow> bool" where
  "attempts A n tr r tr' \<longleftrightarrow> (\<exists>css. tr' = tr @ concat css \<and> length css \<le> n \<and> (\<forall>cs \<in> set css. \<exists>r'. A r' cs) \<and>
     (\<forall>a. r = Inr a \<longrightarrow> css \<noteq> [] \<and> A (Inr a) (last css)))"

lemma attempts_stop: "attempts A n tr (Inl e) tr"
  unfolding attempts_def by (rule exI[of _ "[]"]) simp

lemma attempts_success: "A (Inr a) cs \<Longrightarrow> attempts A (Suc n) tr (Inr a) (tr @ cs)"
  unfolding attempts_def by (rule exI[of _ "[cs]"]) auto

lemma attempts_failure: "A r' cs \<Longrightarrow> attempts A (Suc n) tr (Inl e) (tr @ cs)"
  unfolding attempts_def by (rule exI[of _ "[cs]"]) auto

lemma attempts_more:
  assumes "A r' cs" "attempts A n (tr @ cs) r tr'"
  shows "attempts A (Suc n) tr r tr'"
proof -
  from assms(2) obtain css where css: "tr' = (tr @ cs) @ concat css" "length css \<le> n"
    "\<forall>cs \<in> set css. \<exists>r'. A r' cs" "\<forall>a. r = Inr a \<longrightarrow> css \<noteq> [] \<and> A (Inr a) (last css)"
    unfolding attempts_def by blast
  show ?thesis unfolding attempts_def by (rule exI[of _ "cs # css"]) (use css assms(1) in auto)
qed

text \<open>
  Which calls an attempt to save may leave, with its result: a read; a creation only after a read
  that found nothing; an update only of an object that was read and whose payload decodes, with
  nothing but the payload changed; no write beyond the size limit; and the result of an attempt that
  wrote is the answer to the write.
\<close>

definition fits :: "ConfigMap \<Rightarrow> bool" where
  "fits cm = (\<not> Exceeded (configmap_capacity cm))"

definition save_calls :: "'w ConfigMapStateStore \<Rightarrow> string \<Rightarrow> unit result \<Rightarrow> cm_call list \<Rightarrow> bool" where
  "save_calls s payload r calls \<longleftrightarrow>
     (\<exists>g. calls = [Got g]) \<and> (\<exists>e. r = Inl e) \<or>
     (\<exists>e a. calls = [Got (Inl e), Created (new_configmap s payload) a] \<and> IsNotFound (store_client s) e \<and>
        fits (new_configmap s payload) \<and> r = map_sum id (\<lambda>_. ()) a) \<or>
     (\<exists>cm d a. calls = [Got (Inr cm), Updated (with_payload cm payload) a] \<and> decodeConfigMap (store_json s) cm = Inr d \<and>
        fits (with_payload cm payload) \<and> r = map_sum id (\<lambda>_. ()) a)"

definition load_calls :: "'w ConfigMapStateStore \<Rightarrow> Document result \<Rightarrow> cm_call list \<Rightarrow> bool" where
  "load_calls s r calls \<longleftrightarrow>
     (\<exists>g. calls = [Got g] \<and> (\<forall>d. r = Inr d \<longrightarrow> (\<exists>cm. g = Inr cm \<and> decodeConfigMap (store_json s) cm = Inr d))) \<or>
     (\<exists>e payload a. calls = [Got (Inl e), Created (new_configmap s payload) a] \<and> IsNotFound (store_client s) e \<and>
        EncodeDocument (store_json s) NewDocument = Inr payload \<and> fits (new_configmap s payload) \<and>
        (\<forall>d. r = Inr d \<longrightarrow> (\<exists>cm. a = Inr cm \<and> decodeConfigMap (store_json s) cm = Inr d)))"

text \<open>
  What the proofs use of a store that records its calls: reads and writes append what was asked and
  answered to the trace, whatever the answer is; the context, the timer and the observer leave it alone.
\<close>

locale recording_store =
  fixes s :: "('w \<times> cm_call list) ConfigMapStateStore"
  assumes get_rule: "(\<And>a w'. Q a (w', snd st @ [Got a])) \<Longrightarrow> wp (cm_Get (store_client s) n) Q st"
    and create_rule: "(\<And>a w'. Q' a (w', snd st @ [Created cm a])) \<Longrightarrow> wp (cm_Create (store_client s) cm) Q' st"
    and update_rule: "(\<And>a w'. Q' a (w', snd st @ [Updated cm a])) \<Longrightarrow> wp (cm_Update (store_client s) cm) Q' st"
    and ctx_rule: "(\<And>a w'. R a (w', snd st)) \<Longrightarrow> wp (cm_ctx_Err (store_client s)) R st"
    and timer_rule: "(\<And>a w'. R a (w', snd st)) \<Longrightarrow> wp (cm_timer (store_client s) d) R st"
    and observe_rule: "capacityObserver s = Some observer \<Longrightarrow> (\<And>a w'. U a (w', snd st)) \<Longrightarrow> wp (observer cap) U st"
begin

lemma sleep_rule: "(\<And>a w'. R a (w', snd st)) \<Longrightarrow> wp (sleepContext (store_client s) d) R st"
  using timer_rule by (cases st) (auto simp: sleepContext_def wp_simps)

lemma observeCapacity_rule:
  assumes "\<And>w'. U (configmap_capacity cm) (w', snd st)"
  shows "wp (observeCapacity s cm) U st"
  unfolding observeCapacity_def wp_simps Let_def
  using assms by (cases "capacityObserver s"; cases st) (auto simp: wp_simps intro!: observe_rule)

text \<open>What follows an attempt: the loop ends, or it sleeps and goes on.\<close>

lemma retry_after_rule:
  assumes cs: "snd st1 = tr @ cs" "A r cs"
    and again: "\<And>d w. wp (retry_loop s n d operation) (\<lambda>r st'. attempts A n (tr @ cs) r (snd st')) (w, tr @ cs)"
  shows "wp (case r of
        Inr a \<Rightarrow> ret (Inr a)
      | Inl err \<Rightarrow>
          if \<not> IsConflict (store_client s) err \<and> \<not> IsAlreadyExists (store_client s) err then ret (Inl err)
          else if n = 0 then ret (Inl (Errorf ''%w: %v'' [ErrV err] [ErrConflictRetriesExhausted]))
          else State_Monad.bind (sleepContext (store_client s) delay) (\<lambda>interrupted. case interrupted of
                 Some err \<Rightarrow> ret (Inl err)
               | None \<Rightarrow> retry_loop s n (next_delay (store_backoff s) delay) operation))
      (\<lambda>r st'. attempts A (Suc n) tr r (snd st')) st1"
proof (cases r)
  case (Inr a)
  then show ?thesis using cs by (simp add: wp_simps attempts_success)
next
  case (Inl err)
  have more: "wp (retry_loop s n d operation) (\<lambda>r st'. attempts A (Suc n) tr r (snd st')) (w, tr @ cs)" for d w
    by (rule wp_mono[OF again]) (use cs attempts_more[where A = A] in auto)
  have "wp (sleepContext (store_client s) delay) (\<lambda>i. wp (case i of Some err \<Rightarrow> ret (Inl err)
             | None \<Rightarrow> retry_loop s n (next_delay (store_backoff s) delay) operation)
      (\<lambda>r st'. attempts A (Suc n) tr r (snd st'))) st1"
    by (rule sleep_rule) (use more cs in \<open>auto simp: wp_return attempts_failure split: option.split\<close>)
  then show ?thesis using cs by (simp add: Inl wp_return wp_bind attempts_failure)
qed

lemma retry_loop_rule:
  assumes op: "\<And>st. wp operation (\<lambda>r st'. \<exists>cs. snd st' = snd st @ cs \<and> A r cs) st"
  shows "wp (retry_loop s n delay operation) (\<lambda>r st'. attempts A n (snd st) r (snd st')) st"
proof (induction n arbitrary: delay st)
  case 0
  then show ?case by (simp add: wp_simps attempts_stop)
next
  case (Suc n)
  show ?case
    unfolding retry_loop.simps wp_bind
  proof (rule ctx_rule, goal_cases)
    case (1 cancelled w1)
    have again: "wp (retry_loop s n d operation) (\<lambda>r st'. attempts A n (snd st @ cs) r (snd st')) (w, snd st @ cs)" for d w cs
      using Suc.IH[of d "(w, snd st @ cs)"] by simp
    have "wp operation (\<lambda>r st'. \<exists>cs. snd st' = snd st @ cs \<and> A r cs) (w1, snd st)" using op[of "(w1, snd st)"] by simp
    then show ?case
      by (cases cancelled) (auto simp: wp_return wp_bind attempts_stop retry_after_rule[where A = A, OF _ _ again] elim!: wp_mono)
  qed
qed

lemma createPayload_rule:
  assumes "\<And>w'. \<not> fits (new_configmap s payload) \<Longrightarrow> Q (Inl (capacity_error (configmap_capacity (new_configmap s payload)))) (w', snd st)"
    and "\<And>a w'. fits (new_configmap s payload) \<Longrightarrow> Q a (w', snd st @ [Created (new_configmap s payload) a])"
  shows "wp (createPayload s payload) Q st"
  unfolding createPayload_def wp_bind
  by (rule observeCapacity_rule) (use assms in \<open>auto simp: wp_return fits_def intro!: create_rule\<close>)

lemma save_operation_rule:
  "wp (save_operation s payload) (\<lambda>r st'. \<exists>cs. snd st' = snd st @ cs \<and> save_calls s payload r cs) st"
  unfolding save_operation_def wp_bind
proof (rule get_rule, goal_cases)
  case (1 got w1)
  let ?Q = "\<lambda>r st'. \<exists>cs. snd st' = snd st @ cs \<and> save_calls s payload r cs"
  have read: "\<exists>cs. snd st @ [Got g] = snd st @ cs \<and> save_calls s payload (Inl e) cs" for g e
    by (auto simp: save_calls_def)
  show ?case
  proof (cases got)
    case (Inl err)
    have "wp (createPayload s payload) (\<lambda>a. wp (ret (case a of Inl err \<Rightarrow> Inl err | Inr _ \<Rightarrow> Inr ())) ?Q) (w1, snd st @ [Got (Inl err)])"
      if "IsNotFound (store_client s) err"
      by (rule createPayload_rule)
        (use that read in \<open>auto simp: wp_return save_calls_def split: sum.splits\<close>)
    then show ?thesis using read by (simp add: Inl wp_bind wp_return)
  next
    case (Inr cm)
    show ?thesis
    proof (cases "decodeConfigMap (store_json s) cm")
      case (Inl err)
      then show ?thesis using read by (simp add: Inr wp_return)
    next
      case d: (Inr d)
      have "wp (cm_Update (store_client s) (with_payload cm payload)) (\<lambda>a. wp (ret (case a of Inl err \<Rightarrow> Inl err | Inr _ \<Rightarrow> Inr ())) ?Q) (w, snd st @ [Got (Inr cm)])"
        if "fits (with_payload cm payload)" for w
        by (rule update_rule) (use that d in \<open>auto simp: wp_return save_calls_def split: sum.splits\<close>)
      then have "wp (observeCapacity s (with_payload cm payload)) (\<lambda>capacity. wp (if Exceeded capacity then ret (Inl (capacity_error capacity))
            else State_Monad.bind (cm_Update (store_client s) (with_payload cm payload)) (\<lambda>a. ret (case a of Inl err \<Rightarrow> Inl err | Inr _ \<Rightarrow> Inr ()))) ?Q)
          (w1, snd st @ [Got (Inr cm)])"
        by (intro observeCapacity_rule) (use read in \<open>auto simp: wp_return wp_bind fits_def\<close>)
      then show ?thesis by (simp add: Inr d wp_bind)
    qed
  qed
qed

text \<open>How a load ends once it has an object, and when it creates one.\<close>

lemma load_finish_rule:
  assumes "load_calls s (decodeConfigMap (store_json s) cm) cs"
  shows "wp (State_Monad.bind (observeCapacity s cm) (\<lambda>_. ret (decodeConfigMap (store_json s) cm)))
    (\<lambda>r st'. \<exists>cs. snd st' = tr @ cs \<and> load_calls s r cs) (w, tr @ cs)"
  unfolding wp_bind by (rule observeCapacity_rule) (use assms in \<open>auto simp: wp_return\<close>)

lemma load_create_rule:
  assumes "IsNotFound (store_client s) err" "EncodeDocument (store_json s) NewDocument = Inr payload"
  shows "wp (createPayload s payload) (\<lambda>cm. wp (case cm of Inl err \<Rightarrow> ret (Inl err)
       | Inr cm \<Rightarrow> State_Monad.bind (observeCapacity s cm) (\<lambda>_. ret (decodeConfigMap (store_json s) cm)))
     (\<lambda>r st'. \<exists>cs. snd st' = tr @ cs \<and> load_calls s r cs)) (w, tr @ [Got (Inl err)])"
proof (rule createPayload_rule, goal_cases)
  case (1 w')
  then show ?case by (auto simp: wp_return load_calls_def)
next
  case (2 a w')
  have "load_calls s r [Got (Inl err), Created (new_configmap s payload) a]"
    if "\<And>d. r = Inr d \<Longrightarrow> \<exists>cm. a = Inr cm \<and> decodeConfigMap (store_json s) cm = Inr d" for r
    unfolding load_calls_def using assms 2 that by auto
  then show ?case
    using load_finish_rule[of _ "[Got (Inl err), Created (new_configmap s payload) a]" tr w']
    by (cases a) (auto simp: wp_return)
qed

lemma load_operation_rule:
  "wp (load_operation s) (\<lambda>r st'. \<exists>cs. snd st' = snd st @ cs \<and> load_calls s r cs) st"
  unfolding load_operation_def wp_bind
proof (rule get_rule, goal_cases)
  case (1 got w1)
  have read: "\<exists>cs. snd st @ [Got g] = snd st @ cs \<and> load_calls s (Inl e) cs" for g e
    by (auto simp: load_calls_def)
  show ?case
  proof (cases got)
    case (Inr cm)
    then show ?thesis using load_finish_rule[of cm "[Got (Inr cm)]" "snd st" w1] by (simp add: wp_return wp_bind load_calls_def)
  next
    case (Inl err)
    then show ?thesis
      using read load_create_rule[of err _ "snd st" w1]
      by (cases "EncodeDocument (store_json s) NewDocument") (auto simp: store_create_def wp_return)
  qed
qed

end

lemma wp_unlogged: "(\<And>a w'. Q a (w', snd st)) \<Longrightarrow> wp (unlogged m) Q st"
  by (cases st) (simp add: wp_def unlogged_def split: prod.splits)

interpretation recorded: recording_store "traced_store s" for s
  by unfold_locales (auto simp: traced_store_def traced_cm_def wp_logged_any wp_unlogged)


section \<open>Stores that do the same\<close>

text \<open>
  The observer of a store does something with a capacity, or nothing when there is none.
\<close>

definition observe :: "'w ConfigMapStateStore \<Rightarrow> Capacity \<Rightarrow> ('w, unit) io" where
  "observe s capacity = (case capacityObserver s of None \<Rightarrow> ret () | Some ObserveStateCapacity \<Rightarrow> ObserveStateCapacity capacity)"

lemma observeCapacity_observe:
  "observeCapacity s cm = State_Monad.bind (observe s (configmap_capacity cm)) (\<lambda>_. ret (configmap_capacity cm))"
  by (simp add: observeCapacity_def observe_def Let_def)

text \<open>
  A store over a larger world, whose client and observer do to the smaller world what those of the other
  store do: so do its operations.
\<close>

locale erasing_store =
  fixes s :: "('w \<times> 'x) ConfigMapStateStore" and s' :: "'w ConfigMapStateStore"
  assumes same: "store_namespace s = store_namespace s'" "store_name s = store_name s'"
      "store_backoff s = store_backoff s'" "store_json s = store_json s'"
      "IsNotFound (store_client s) = IsNotFound (store_client s')" "IsConflict (store_client s) = IsConflict (store_client s')"
      "IsAlreadyExists (store_client s) = IsAlreadyExists (store_client s')"
    and client: "erases (cm_Get (store_client s) n) (cm_Get (store_client s') n)"
      "erases (cm_Create (store_client s) cm) (cm_Create (store_client s') cm)"
      "erases (cm_Update (store_client s) cm) (cm_Update (store_client s') cm)"
      "erases (cm_ctx_Err (store_client s)) (cm_ctx_Err (store_client s'))"
      "erases (cm_timer (store_client s) d) (cm_timer (store_client s') d)"
      "erases (observe s capacity) (observe s' capacity)"
begin

lemma same_configmap: "new_configmap s payload = new_configmap s' payload"
  by (simp add: new_configmap_def same)

lemma erases_sleep: "erases (sleepContext (store_client s) d) (sleepContext (store_client s') d)"
  by (auto simp: sleepContext_def intro!: erases_intros client)

lemma erases_observeCapacity: "erases (observeCapacity s cm) (observeCapacity s' cm)"
  unfolding observeCapacity_observe by (intro erases_intros client)

lemma erases_retry_loop: "erases m m' \<Longrightarrow> erases (retry_loop s n d m) (retry_loop s' n d m')"
  by (induction n arbitrary: d) (auto simp: same intro!: erases_intros erases_sleep client)

lemma erases_createPayload: "erases (createPayload s p) (createPayload s' p)"
  by (auto simp: createPayload_def same_configmap intro!: erases_intros erases_observeCapacity client)

lemma erases_store_Save: "erases (store_Save s d) (store_Save s' d)"
  by (auto simp: store_Save_def store_retry_def save_operation_def same
      intro!: erases_intros erases_retry_loop erases_createPayload erases_observeCapacity client) (auto simp: same split: sum.split intro: erases_intros)

lemma erases_store_Load: "erases (store_Load s) (store_Load s')"
  by (auto simp: store_Load_def store_retry_def load_operation_def store_create_def same
      intro!: erases_intros erases_retry_loop erases_createPayload erases_observeCapacity client) (auto simp: same split: sum.split intro: erases_intros)

end

lemma erases_unlogged [erases_intros]: "erases (unlogged m) m"
  by (simp add: erases_def unlogged_def split: prod.splits)

lemma traced_store_simps [simp]:
  "store_client (traced_store s) = traced_cm (store_client s)" "store_namespace (traced_store s) = store_namespace s"
  "store_name (traced_store s) = store_name s" "store_backoff (traced_store s) = store_backoff s"
  "store_json (traced_store s) = store_json s"
  "capacityObserver (traced_store s) = map_option (\<lambda>observe capacity. unlogged (observe capacity)) (capacityObserver s)"
  "new_configmap (traced_store s) payload = new_configmap s payload"
  by (simp_all add: traced_store_def new_configmap_def)

lemma traced_cm_simps [simp]:
  "IsNotFound (traced_cm c) = IsNotFound c" "IsConflict (traced_cm c) = IsConflict c"
  "IsAlreadyExists (traced_cm c) = IsAlreadyExists c"
  by (simp_all add: traced_cm_def)

text \<open>Recording does not change what the store does.\<close>

lemma erases_traced_observe: "erases (observe (traced_store s) capacity) (observe s capacity)"
  by (cases "capacityObserver s") (auto simp: observe_def traced_store_def intro!: erases_intros)

interpretation unrecorded: erasing_store "traced_store s" s for s
  by unfold_locales (simp_all add: erases_traced_observe, simp_all add: traced_cm_def erases_intros)

section \<open>Properties\<close>

text \<open>A call sequence in which every write is justified by the read right before it.\<close>

fun guarded :: "'w ConfigMapStateStore \<Rightarrow> string \<Rightarrow> cm_call list \<Rightarrow> bool" where
  "guarded s payload [] = True"
| "guarded s payload (Got (Inl e) # Created cm a # calls) =
     (IsNotFound (store_client s) e \<and> cm = new_configmap s payload \<and> fits cm \<and> guarded s payload calls)"
| "guarded s payload (Got (Inr cm0) # Updated cm a # calls) =
     (\<not> isl (decodeConfigMap (store_json s) cm0) \<and> cm = with_payload cm0 payload \<and> fits cm \<and> guarded s payload calls)"
| "guarded s payload (Got g # calls) = guarded s payload calls"
| "guarded s payload (call # calls) = False"

definition reads :: "cm_call list \<Rightarrow> nat" where
  "reads calls = length (filter (\<lambda>call. \<exists>g. call = Got g) calls)"

fun stored_payload :: "cm_call \<Rightarrow> string option" where
  "stored_payload (Created cm (Inr _)) = (case CM_Data cm of None \<Rightarrow> None | Some m \<Rightarrow> map_of m ConfigMapDataKey)"
| "stored_payload (Updated cm (Inr _)) = (case CM_Data cm of None \<Rightarrow> None | Some m \<Rightarrow> map_of m ConfigMapDataKey)"
| "stored_payload _ = None"

lemma guarded_hd: "guarded s p (call # calls) \<Longrightarrow> \<exists>g. call = Got g"
  by (cases call) auto

lemma guarded_Got: "guarded s p calls \<Longrightarrow> guarded s p (Got g # calls)"
proof (cases calls)
  case (Cons call rest)
  moreover assume "guarded s p calls"
  ultimately obtain g' where "call = Got g'" using guarded_hd by blast
  then show ?thesis using Cons \<open>guarded s p calls\<close> by (cases g) auto
qed (cases g; simp)

lemma guarded_append: "guarded s p xs \<Longrightarrow> guarded s p ys \<Longrightarrow> guarded s p (xs @ ys)"
  by (induction s p xs rule: guarded.induct) (auto intro: guarded_Got)

lemma write_answer [simp]:
  "Inr () = map_sum id (\<lambda>_. ()) a \<longleftrightarrow> (\<exists>cm. a = Inr cm)" "Inl e = map_sum id (\<lambda>_. ()) a \<longleftrightarrow> a = Inl e"
  by (cases a; auto)+

lemma save_calls_guarded:
  "save_calls s payload r cs \<Longrightarrow> guarded s payload cs"
  "save_calls s payload r cs \<Longrightarrow> reads cs = 1"
  "save_calls s payload (Inr ()) cs \<Longrightarrow> cs \<noteq> [] \<and> stored_payload (last cs) = Some payload"
  by (auto simp: save_calls_def reads_def with_payload_def new_configmap_def AList.update_conv)


lemma reads_append [simp]: "reads (xs @ ys) = reads xs + reads ys" "reads [] = 0"
  by (simp_all add: reads_def)

lemma attempts_guarded:
  assumes "attempts (save_calls s payload) n [] r calls"
  shows "guarded s payload calls" "reads calls \<le> n"
    "r = Inr () \<Longrightarrow> calls \<noteq> [] \<and> stored_payload (last calls) = Some payload"
proof -
  from assms obtain css where css: "calls = concat css" "length css \<le> n" "\<forall>cs \<in> set css. \<exists>r'. save_calls s payload r' cs"
    "\<forall>a. r = Inr a \<longrightarrow> css \<noteq> [] \<and> save_calls s payload (Inr a) (last css)" by (auto simp: attempts_def)
  from css(3) have "guarded s payload (concat css) \<and> reads (concat css) = length css"
    by (induction css) (auto intro!: guarded_append dest: save_calls_guarded(1) save_calls_guarded(2))
  then show "guarded s payload calls" "reads calls \<le> n" using css(1,2) by auto
  show "calls \<noteq> [] \<and> stored_payload (last calls) = Some payload" if "r = Inr ()"
    using that css(1,4) save_calls_guarded(3)[of s payload "last css"]
    by (metis append_butlast_last_id append_is_Nil_conv concat.simps(1,2) concat_append last_appendR append_Nil2)
qed

text \<open>
  C6: saving is durable and safe. If the document does not encode, nothing is called and an error is
  returned. Otherwise every write is justified by the read right before it: an object is created
  only when none was found, and updated only when its stored payload decodes, with nothing but the
  payload changed and within the size limit; the object is read at most as often as the backoff
  allows; and success is reported only when the last call was an accepted write of exactly the
  encoded document.
\<close>

theorem store_Save_durable:
  assumes "run_state (store_Save (traced_store s) d) (w, []) = (r, (w', calls))"
  shows "case EncodeDocument (store_json s) d of
      Inl err \<Rightarrow> r \<noteq> None \<and> calls = []
    | Inr payload \<Rightarrow> guarded s payload calls \<and> reads calls \<le> nat (max 1 (Steps (store_backoff s))) \<and>
        (r = None \<longrightarrow> calls \<noteq> [] \<and> stored_payload (last calls) = Some payload)"
proof (cases "EncodeDocument (store_json s) d")
  case (Inl err)
  then show ?thesis using assms by (auto simp: store_Save_def)
next
  case (Inr payload)
  let ?n = "nat (max 1 (Steps (store_backoff s)))"
  have eq: "save_calls (traced_store s) payload = save_calls s payload"
    by (intro ext) (simp add: save_calls_def)
  have op: "wp (save_operation (traced_store s) payload)
      (\<lambda>r st'. \<exists>cs. snd st' = snd st @ cs \<and> save_calls s payload r cs) st" for st
    using recorded.save_operation_rule[of s payload] by (simp add: eq)
  have "wp (store_retry (traced_store s) (save_operation (traced_store s) payload))
      (\<lambda>r st'. attempts (save_calls s payload) ?n [] r (snd st')) (w, [])"
    using recorded.retry_loop_rule[where st = "(w, [])", OF op]
    by (simp add: store_retry_def)
  then have "wp (store_Save (traced_store s) d) (\<lambda>r st'. guarded s payload (snd st') \<and> reads (snd st') \<le> ?n \<and>
      (r = None \<longrightarrow> snd st' \<noteq> [] \<and> stored_payload (last (snd st')) = Some payload)) (w, [])"
    unfolding store_Save_def Inr[folded traced_store_simps(5)[of s]] sum.case wp_bind
    by (rule wp_mono) (auto simp: wp_return dest: attempts_guarded split: sum.splits)
  from wp_run[OF this assms] show ?thesis by (simp add: Inr)
qed


text \<open>A server for examples: one slot for the object, no other writer, a context that is never cancelled.\<close>

definition api_notfound :: goerr where "api_notfound = errors_New ''not found''"

definition slot_server :: "ConfigMap option cm_client" where
  "slot_server =
     \<lparr>cm_Get = \<lambda>n. State (\<lambda>w. (case w of None \<Rightarrow> Inl api_notfound | Some cm \<Rightarrow> Inr cm, w)),
      cm_Create = \<lambda>cm. State (\<lambda>w. (Inr cm, Some cm)), cm_Update = \<lambda>cm. State (\<lambda>w. (Inr cm, Some cm)),
      cm_ctx_Err = ret None, cm_timer = \<lambda>_. ret None,
      IsNotFound = \<lambda>e. e = api_notfound, IsConflict = \<lambda>_. False, IsAlreadyExists = \<lambda>_. False\<rparr>"

text \<open>A codec for examples that knows the empty document and the sample document.\<close>

definition two_documents :: json_codec where
  "two_documents =
     \<lparr>Marshal_wire = \<lambda>d. if d = NewDocument then Inr ''new'' else if d = sample_document then Inr ''sample''
        else Inl (errors_New ''codec''),
      Valid_json = \<lambda>_. None,
      Decode_wire = \<lambda>p. if p = ''new'' then Inr NewDocument else if p = ''sample'' then Inr sample_document
        else Inl (errors_New ''codec''),
      Decode_next = \<lambda>_. Inl json_EOF\<rparr>"

definition slot_store :: "ConfigMap option ConfigMapStateStore" where
  "slot_store = NewConfigMapStateStore slot_server two_documents ''kwlm'' ''state''"

lemma sample_encodes: "EncodeDocument two_documents sample_document = Inr ''sample''"
proof -
  have v: "valid_document sample_document" using sample_document_valid by (simp add: spec_iff)
  have "sample_document \<noteq> NewDocument" by (simp add: sample_document_def NewDocument_def)
  then show ?thesis
    by (simp add: EncodeDocument_def MarshalJSON_def normalizeDocument_valid[OF v] sample_document_valid two_documents_def)
qed

lemma run_unlogged: "run_state (unlogged m) st = (case run_state m (fst st) of (a, w') \<Rightarrow> (a, (w', snd st)))"
  by (simp add: unlogged_def split: prod.splits)

lemmas slot_simps = traced_cm_def slot_server_def run_logged run_unlogged

lemma slot_store_simps:
  "store_client slot_store = slot_server" "store_json slot_store = two_documents"
  "store_backoff slot_store = DefaultConflictBackoff" "capacityObserver slot_store = None"
  by (simp_all add: slot_store_def NewConfigMapStateStore_def)

lemma small_payload_fits: "length payload \<le> 1048576 \<Longrightarrow> \<not> Exceeded (configmap_capacity (new_configmap s payload))"
  by (simp add: configmap_capacity_def new_configmap_def MeasureCapacity_def Let_def)

lemma slot_save:
  "run_state (save_operation (traced_store slot_store) ''sample'') (None, []) =
   (Inr (), (Some (new_configmap slot_store ''sample''),
     [Got (Inl api_notfound), Created (new_configmap slot_store ''sample'') (Inr (new_configmap slot_store ''sample''))]))"
  by (simp add: save_operation_def createPayload_def observeCapacity_def Let_def slot_store_simps slot_simps small_payload_fits)

lemma slot_retry:
  "run_state op (w, tr) = (Inr a, st) \<Longrightarrow> run_state (store_retry (traced_store slot_store) op) (w, tr) = (Inr a, st)"
proof -
  have n: "nat (max 1 (Steps (store_backoff (traced_store slot_store)))) = Suc 4"
    by (simp add: slot_store_simps DefaultConflictBackoff_def)
  assume "run_state op (w, tr) = (Inr a, st)"
  then show ?thesis unfolding store_retry_def n retry_loop.simps by (simp add: slot_store_simps slot_simps)
qed

theorem store_Save_durable_witness:
  "\<exists>w' calls. run_state (store_Save (traced_store slot_store) sample_document) (None, []) = (None, (w', calls)) \<and>
     guarded slot_store ''sample'' calls \<and> stored_payload (last calls) = Some ''sample''"
proof -
  have enc: "EncodeDocument (store_json slot_store) sample_document = Inr ''sample''"
    using sample_encodes by (simp add: slot_store_simps)
  then obtain w' calls where run: "run_state (store_Save (traced_store slot_store) sample_document) (None, []) = (None, (w', calls))"
    by (simp add: store_Save_def slot_retry[OF slot_save])
  from store_Save_durable[OF run] run show ?thesis using enc by auto
qed


fun answered :: "cm_call \<Rightarrow> ConfigMap option" where
  "answered (Got (Inr cm)) = Some cm"
| "answered (Created _ (Inr cm)) = Some cm"
| "answered (Updated _ (Inr cm)) = Some cm"
| "answered _ = None"

text \<open>The calls loading may make: reads, and the creation of an empty document.\<close>

definition load_call :: "'w ConfigMapStateStore \<Rightarrow> cm_call \<Rightarrow> bool" where
  "load_call s call = (case call of
      Got _ \<Rightarrow> True
    | Created cm _ \<Rightarrow> (case EncodeDocument (store_json s) NewDocument of
        Inl _ \<Rightarrow> False | Inr payload \<Rightarrow> cm = new_configmap s payload \<and> fits cm)
    | Updated _ _ \<Rightarrow> False)"

lemma load_calls_facts:
  "load_calls s r cs \<Longrightarrow> list_all (load_call s) cs" "load_calls s r cs \<Longrightarrow> reads cs = 1"
  "load_calls s (Inr d) cs \<Longrightarrow> cs \<noteq> [] \<and> (\<exists>cm. answered (last cs) = Some cm \<and> decodeConfigMap (store_json s) cm = Inr d)"
  by (auto simp: load_calls_def load_call_def reads_def)

lemma attempts_load:
  assumes "attempts (load_calls s) n [] r calls"
  shows "list_all (load_call s) calls" "reads calls \<le> n"
    "r = Inr d \<Longrightarrow> calls \<noteq> [] \<and> (\<exists>cm. answered (last calls) = Some cm \<and> decodeConfigMap (store_json s) cm = Inr d)"
proof -
  from assms obtain css where css: "calls = concat css" "length css \<le> n" "\<forall>cs \<in> set css. \<exists>r'. load_calls s r' cs"
    "\<forall>a. r = Inr a \<longrightarrow> css \<noteq> [] \<and> load_calls s (Inr a) (last css)" by (auto simp: attempts_def)
  from css(3) have "list_all (load_call s) (concat css) \<and> reads (concat css) = length css"
    by (induction css) (auto dest: load_calls_facts(1) load_calls_facts(2))
  then show "list_all (load_call s) calls" "reads calls \<le> n" using css(1,2) by auto
  show "calls \<noteq> [] \<and> (\<exists>cm. answered (last calls) = Some cm \<and> decodeConfigMap (store_json s) cm = Inr d)" if "r = Inr d"
  proof -
    from that css(4) have "css \<noteq> []" and l: "load_calls s (Inr d) (last css)" by auto
    then have "calls = concat (butlast css) @ last css"
      using css(1) by (metis append_butlast_last_id append_Nil2 concat.simps concat_append)
    then show ?thesis using load_calls_facts(3)[OF l] by auto
  qed
qed

lemma decodeConfigMap_valid: "decodeConfigMap json cm = Inr d \<Longrightarrow> valid_document d"
  by (auto simp: decodeConfigMap_def DecodeDocument_def json_Unmarshal_def UnmarshalJSON_def spec_iff
      normalizeDocument_valid split: option.splits sum.splits if_splits)

lemma store_Load_trace:
  "wp (store_Load (traced_store s)) (\<lambda>r st'. list_all (load_call s) (snd st') \<and>
      reads (snd st') \<le> nat (max 1 (Steps (store_backoff s))) \<and>
      (\<forall>d. r = Inr d \<longrightarrow> ValidateDocument d = None \<and> snd st' \<noteq> [] \<and>
       (\<exists>cm. answered (last (snd st')) = Some cm \<and> decodeConfigMap (store_json s) cm = Inr d))) (w, [])"
proof -
  let ?n = "nat (max 1 (Steps (store_backoff s)))"
  have eq: "load_calls (traced_store s) = load_calls s" by (intro ext) (simp add: load_calls_def)
  have op: "wp (load_operation (traced_store s)) (\<lambda>r st'. \<exists>cs. snd st' = snd st @ cs \<and> load_calls s r cs) st" for st
    using recorded.load_operation_rule[of s] by (simp add: eq)
  have "wp (store_retry (traced_store s) (load_operation (traced_store s)))
      (\<lambda>r st'. attempts (load_calls s) ?n [] r (snd st')) (w, [])"
    using recorded.retry_loop_rule[where st = "(w, [])", OF op]
    by (simp add: store_retry_def)
  then show ?thesis
    unfolding store_Load_def wp_bind
    by (rule wp_mono) (auto simp: wp_return spec_iff dest: attempts_load decodeConfigMap_valid split: sum.splits)
qed

lemma store_Load_valid: "wp (store_Load s) (\<lambda>r _. \<forall>d. r = Inr d \<longrightarrow> valid_document d) w"
proof -
  from unrecorded.erases_store_Load[of s, unfolded erases_def, rule_format, of w "[]"]
  obtain tr where "run_state (store_Load (traced_store s)) (w, []) =
      (fst (run_state (store_Load s) w), (snd (run_state (store_Load s) w), tr))" by blast
  with store_Load_trace[of s w] show ?thesis by (simp add: wp_def spec_iff split: prod.splits)
qed

text \<open>
  C29: loading never damages stored state: it only reads, or creates the object with an encoded empty
  document, within the size limit; it reads at most as often as the backoff allows; and the document
  it returns is the decoded payload of the object that the last call returned, and satisfies the
  persisted-state invariant.
\<close>

theorem store_Load_safe:
  assumes "run_state (store_Load (traced_store s)) (w, []) = (r, (w', calls))"
  shows "list_all (load_call s) calls \<and> reads calls \<le> nat (max 1 (Steps (store_backoff s))) \<and>
    (\<forall>d. r = Inr d \<longrightarrow> ValidateDocument d = None \<and> calls \<noteq> [] \<and>
       (\<exists>cm. answered (last calls) = Some cm \<and> decodeConfigMap (store_json s) cm = Inr d))"
  using wp_run[OF store_Load_trace assms] by simp

lemma new_encodes: "EncodeDocument two_documents NewDocument = Inr ''new''"
  by (simp add: EncodeDocument_def MarshalJSON_def normalizeDocument_def ValidateDocument_def two_documents_def NewDocument_def)

lemma new_decodes: "decodeConfigMap two_documents (new_configmap slot_store ''new'') = Inr NewDocument"
proof -
  have "ValidateDocument NewDocument = None" "normalizeDocument NewDocument = NewDocument"
    by (simp_all add: ValidateDocument_def normalizeDocument_def NewDocument_def)
  then show ?thesis
    by (simp add: decodeConfigMap_def new_configmap_def DecodeDocument_def json_Unmarshal_def UnmarshalJSON_def two_documents_def)
qed

lemma slot_load:
  "\<exists>st. run_state (load_operation (traced_store slot_store)) (None, []) = (Inr NewDocument, st)"
  by (simp add: load_operation_def store_create_def new_encodes createPayload_def observeCapacity_def Let_def
      slot_store_simps slot_simps small_payload_fits new_decodes)

theorem store_Load_safe_witness:
  "\<exists>w' calls. run_state (store_Load (traced_store slot_store)) (None, []) = (Inr NewDocument, (w', calls)) \<and>
     list_all (load_call slot_store) calls \<and> ValidateDocument NewDocument = None"
proof -
  obtain w' calls where "run_state (load_operation (traced_store slot_store)) (None, []) = (Inr NewDocument, (w', calls))"
    using slot_load by (metis surj_pair)
  then have run: "run_state (store_Load (traced_store slot_store)) (None, []) = (Inr NewDocument, (w', calls))"
    by (simp add: store_Load_def slot_retry)
  from store_Load_safe[OF run] run show ?thesis by auto
qed

end
