(* ===== verification/Transition.thy ===== *)
theory Transition
  imports Policy State_Store
begin

text \<open>
  Package \<^verbatim>\<open>internal/controller\<close>, \<^verbatim>\<open>transition.go\<close>: one workload's durable state and scale transition. The
  reconciler's dependencies are the record \<open>Reconciler\<close>: the interfaces of the source, each method an
  action on an arbitrary world, and beside them the hash function and the time zone database.

  The document's map is shared by reference in the source, so that a write to it is seen by every
  later use of the document; here the document is passed on explicitly. Writing to a nil map panics,
  which is the error \<open>panic_nil_map\<close>; after the first write the map is never nil.
\<close>

section \<open>Dependencies\<close>

record 'w Reconciler =
  r_Evaluate :: "Workload \<Rightarrow> ('w, HPAEvaluation) io"
  r_Now :: "('w, gotime) io"
  r_Load :: "('w, Document result) io"
  r_Save :: "Document \<Rightarrow> ('w, goerr option) io"
  r_Read :: "Workload \<Rightarrow> ('w, Workload result) io"
  r_Update :: "Workload \<Rightarrow> int \<Rightarrow> ('w, goerr option) io"
  r_Delete :: "Workload \<Rightarrow> ('w, goerr option) io"
  r_Sum256 :: "string \<Rightarrow> string"
  r_LoadLocation :: "string \<Rightarrow> location result"

definition ErrInvalidReconciler :: goerr where
  "ErrInvalidReconciler = errors_New ''controller reconciler dependencies must be configured''"

text \<open>\<^verbatim>\<open>NewReconciler\<close>: a nil interface is \<open>None\<close>.\<close>

definition NewReconciler ::
  "(('w, Document result) io \<times> (Document \<Rightarrow> ('w, goerr option) io)) option \<Rightarrow>
   ((Workload \<Rightarrow> ('w, Workload result) io) \<times> (Workload \<Rightarrow> int \<Rightarrow> ('w, goerr option) io)) option \<Rightarrow>
   (Workload \<Rightarrow> ('w, goerr option) io) option \<Rightarrow> (Workload \<Rightarrow> ('w, HPAEvaluation) io) option \<Rightarrow>
   ('w, gotime) io option \<Rightarrow> (string \<Rightarrow> string) \<Rightarrow> (string \<Rightarrow> location result) \<Rightarrow> 'w Reconciler result" where
  "NewReconciler store scale deleter hpa clock Sum256 LoadLocation =
     (case (store, scale, deleter, hpa, clock) of
        (Some (load, save), Some (read, update), Some delete, Some evaluate, Some now) \<Rightarrow>
          Inr \<lparr>r_Evaluate = evaluate, r_Now = now, r_Load = load, r_Save = save, r_Read = read, r_Update = update,
               r_Delete = delete, r_Sum256 = Sum256, r_LoadLocation = LoadLocation\<rparr>
      | _ \<Rightarrow> Inl ErrInvalidReconciler)"

section \<open>Pure steps\<close>

definition zeroState :: WorkloadState where
  "zeroState = \<lparr>State_Kind = [], State_Namespace = [], State_Name = [], State_WorkloadUID = [],
     State_LastPolicyName = [], State_TrackingSpecHash = [], State_RevisionHash = [],
     State_Revision = \<lparr>State_Source = [], State_Containers = []\<rparr>, State_FirstSeenAt = zero_time,
     State_LastSeenAt = zero_time, State_ReplicaSnapshot = None, State_WindowEntryRevision = [],
     State_WindowInstanceID = [], State_ScaleDownSkipped = False, State_ScaleDownSkipReason = []\<rparr>"

text \<open>Reading a missing key of a map gives the zero value.\<close>

definition lookup_state :: "WorkloadState gomap \<Rightarrow> string \<Rightarrow> WorkloadState" where
  "lookup_state states key = (case map_of states key of None \<Rightarrow> zeroState | Some s \<Rightarrow> s)"

definition put_state :: "string \<Rightarrow> WorkloadState \<Rightarrow> Document \<Rightarrow> Document" where
  "put_state key s document =
     document\<lparr>Doc_States := Some (AList.update key s (case Doc_States document of None \<Rightarrow> [] | Some m \<Rightarrow> m))\<rparr>"

definition remove_state :: "string \<Rightarrow> Document \<Rightarrow> Document" where
  "remove_state key document = document\<lparr>Doc_States := map_option (AList.delete key) (Doc_States document)\<rparr>"

definition reconcileIdentity ::
  "WorkloadState \<Rightarrow> Workload \<Rightarrow> Policy \<Rightarrow> LifecycleRevision \<Rightarrow> gotime \<Rightarrow> WorkloadState \<times> bool" where
  "reconcileIdentity previous current selected revision now =
     (let sameUID = (State_WorkloadUID previous \<noteq> [] \<and> State_WorkloadUID previous = Workload_UID current);
          sameIdentity = (sameUID \<and> State_TrackingSpecHash previous = Rev_TrackingSpecHash revision \<and>
                          State_RevisionHash previous = Rev_RevisionHash revision);
          firstSeen = (if sameIdentity then State_FirstSeenAt previous else now);
          snapshot = (if sameUID then State_ReplicaSnapshot previous else None);
          next_state = \<lparr>State_Kind = Workload_Kind current, State_Namespace = Workload_Namespace current,
            State_Name = Workload_Name current, State_WorkloadUID = Workload_UID current,
            State_LastPolicyName = Policy_Name selected, State_TrackingSpecHash = Rev_TrackingSpecHash revision,
            State_RevisionHash = Rev_RevisionHash revision,
            State_Revision = \<lparr>State_Source = SourceContainerImages, State_Containers = Rev_Containers revision\<rparr>,
            State_FirstSeenAt = firstSeen, State_LastSeenAt = now, State_ReplicaSnapshot = snapshot,
            State_WindowEntryRevision = (if sameUID then State_WindowEntryRevision previous else []),
            State_WindowInstanceID = (if sameUID then State_WindowInstanceID previous else []),
            State_ScaleDownSkipped = (sameUID \<and> State_ScaleDownSkipped previous),
            State_ScaleDownSkipReason = (if sameUID then State_ScaleDownSkipReason previous else [])\<rparr>
      in (next_state, \<not> sameIdentity))"

definition matchSchedule ::
  "(string \<Rightarrow> location result) \<Rightarrow> gotime \<Rightarrow> Schedule option \<Rightarrow> (string \<times> bool) result" where
  "matchSchedule LoadLocation now configured =
     (case configured of
        None \<Rightarrow> Inr ([], False)
      | Some s \<Rightarrow> schedule_Match LoadLocation now (TimeZone s) (DownWindows s))"

definition computeWindowInstanceID ::
  "(string \<Rightarrow> location result) \<Rightarrow> gotime \<Rightarrow> Schedule option \<Rightarrow> string \<Rightarrow> string result" where
  "computeWindowInstanceID LoadLocation now configured windowName =
     (case configured of
        None \<Rightarrow> Inr []
      | Some s \<Rightarrow> WindowInstanceID LoadLocation now (TimeZone s) windowName (DownWindows s))"

definition reconcileWindowCycle :: "WorkloadState \<Rightarrow> string \<Rightarrow> bool \<Rightarrow> WorkloadState" where
  "reconcileWindowCycle cur windowInstanceID scheduledDown =
     (if \<not> scheduledDown \<or> windowInstanceID \<noteq> State_WindowInstanceID cur
      then cur\<lparr>State_WindowEntryRevision := [], State_WindowInstanceID := [], State_ScaleDownSkipped := False,
               State_ScaleDownSkipReason := []\<rparr>
      else cur)"

section \<open>Actions\<close>

definition r_save :: "'w Reconciler \<Rightarrow> Document \<Rightarrow> string \<Rightarrow> string \<Rightarrow> ('w, goerr option) io" where
  "r_save r document key operation = do {
     answer \<leftarrow> r_Save r document;
     ret (case answer of None \<Rightarrow> None | Some err \<Rightarrow> Some (Errorf ''%s for %s: %w'' [Str operation, Str key] [err]))
   }"

definition r_updateScale :: "'w Reconciler \<Rightarrow> Workload \<Rightarrow> int \<Rightarrow> string \<Rightarrow> ('w, goerr option) io" where
  "r_updateScale r current replicas reason = do {
     answer \<leftarrow> r_Update r current replicas;
     ret (case answer of
         None \<Rightarrow> None
       | Some err \<Rightarrow> Some (Errorf ''update scale for %s to %d (%s): %w'' [Str (workload_Key current), Num replicas, Str reason] [err]))
   }"

definition handleRedeployDuringWindow ::
  "'w Reconciler \<Rightarrow> Document \<Rightarrow> WorkloadState \<Rightarrow> Workload \<Rightarrow> string \<Rightarrow> ('w, (Document \<times> WorkloadState) result) io" where
  "handleRedeployDuringWindow r document cur live key = do {
     restored \<leftarrow> (case State_ReplicaSnapshot cur of
        None \<Rightarrow> ret None
      | Some snapshot \<Rightarrow> r_updateScale r live (Snap_Replicas snapshot) ReasonScaleDownSkipped);
     case restored of
       Some err \<Rightarrow> ret (Inl err)
     | None \<Rightarrow> do {
         let cur = cur\<lparr>State_ReplicaSnapshot := None, State_ScaleDownSkipped := True,
                       State_ScaleDownSkipReason := ReasonScaleDownSkipped\<rparr>;
         let document = put_state key cur document;
         saved \<leftarrow> r_save r document key ''mark scale-down-skipped'';
         ret (case saved of Some err \<Rightarrow> Inl err | None \<Rightarrow> Inr (document, cur))
       }
   }"

definition applyDecision ::
  "'w Reconciler \<Rightarrow> Workload \<Rightarrow> Decision \<Rightarrow> Document \<Rightarrow> WorkloadState \<Rightarrow> bool \<Rightarrow> gotime \<Rightarrow> ('w, goerr option) io" where
  "applyDecision r live decision document cur identitySaved now =
     (let key = workload_Key live in
      if NeedsSnapshot decision then do {
        let cur = cur\<lparr>State_ReplicaSnapshot := Some \<lparr>Snap_Replicas = Workload_CurrentReplicas live, Snap_CapturedAt = now,
                      Snap_CapturedReason = Reason decision\<rparr>\<rparr>;
        let document = put_state key cur document;
        saved \<leftarrow> r_save r document key ''persist replica snapshot'';
        case saved of
          Some err \<Rightarrow> ret (Some err)
        | None \<Rightarrow>
            if ShouldScale decision then r_updateScale r live (DesiredReplicas decision) (Reason decision)
            else ret None
      }
      else if ClearSnapshotAfterScale decision then do {
        restored \<leftarrow> r_updateScale r live (DesiredReplicas decision) (Reason decision);
        case restored of
          Some err \<Rightarrow> ret (Some err)
        | None \<Rightarrow> r_save r (put_state key (cur\<lparr>State_ReplicaSnapshot := None\<rparr>) document) key ''clear replica snapshot''
      }
      else do {
        scaled \<leftarrow> (if ShouldScale decision then r_updateScale r live (DesiredReplicas decision) (Reason decision)
                  else ret None);
        case scaled of
          Some err \<Rightarrow> ret (Some err)
        | None \<Rightarrow>
            if identitySaved \<and> \<not> ShouldScale decision then ret None
            else r_save r (put_state key cur document) key ''update workload state''
      })"

text \<open>
  The input of the decision engine.
\<close>

definition decision_input :: "gotime \<Rightarrow> Policy \<Rightarrow> Workload \<Rightarrow> string \<Rightarrow> bool \<Rightarrow> WorkloadState \<Rightarrow> DecisionInput" where
  "decision_input now selected live windowName scheduledDown cur =
     \<lparr>In_Now = now, In_FirstSeenAt = State_FirstSeenAt cur, In_MaxAge = MaxAge (Policy_Lifecycle selected),
      In_CurrentReplicas = Workload_CurrentReplicas live,
      In_SnapshotReplicas = map_option Snap_Replicas (State_ReplicaSnapshot cur),
      In_ScheduledDown = scheduledDown, In_ScheduledWindowName = windowName,
      In_ScheduledTarget = ScheduledDown (Policy_Replicas selected), In_ExpiredTarget = Expired (Policy_Replicas selected),
      In_ScaleDownSkipped = State_ScaleDownSkipped cur, In_ScaleDownSkipReason = State_ScaleDownSkipReason cur,
      In_ExpiredAction = ExpiredAction (Policy_Lifecycle selected)\<rparr>"

section \<open>Reconcile\<close>

text \<open>
  \<^verbatim>\<open>Reconcile\<close> in five parts, in the order of the source: from the decision on, the window state with
  the redeploy and override handling, the live scale and the schedule, the identity, and the entry.
\<close>

definition reconcile_decide ::
  "'w Reconciler \<Rightarrow> Workload \<Rightarrow> Policy \<Rightarrow> gotime \<Rightarrow> Workload \<Rightarrow> string \<Rightarrow> bool \<Rightarrow> bool \<Rightarrow> Document \<Rightarrow> WorkloadState \<Rightarrow>
   ('w, Decision \<times> goerr option) io" where
  "reconcile_decide r current selected now live windowName scheduledDown identityChanged document cur =
     (let decision = Decide (decision_input now selected live windowName scheduledDown cur) in
      if DeleteWorkload decision then do {
        deleted \<leftarrow> r_Delete r live;
        case deleted of
          Some err \<Rightarrow> ret (decision, Some (Errorf ''delete expired workload %s: %w'' [Str (workload_Key current)] [err]))
        | None \<Rightarrow> do {
            saved \<leftarrow> r_Save r (remove_state (workload_Key current) document);
            ret (decision, case saved of
                None \<Rightarrow> None
              | Some err \<Rightarrow> Some (Errorf ''clean state after deleting %s: %w'' [Str (workload_Key current)] [err]))
          }
      }
      else do {
        applied \<leftarrow> applyDecision r live decision document cur identityChanged now;
        ret (decision, applied)
      })"

definition reconcile_override ::
  "'w Reconciler \<Rightarrow> Workload \<Rightarrow> Policy \<Rightarrow> Workload \<Rightarrow> bool \<Rightarrow> Document \<Rightarrow> WorkloadState \<Rightarrow>
   ('w, (Document \<times> WorkloadState) result) io" where
  "reconcile_override r current selected live scheduledDown document cur =
     (if scheduledDown \<and> \<not> State_ScaleDownSkipped cur \<and> State_ReplicaSnapshot cur \<noteq> None \<and>
         Workload_CurrentReplicas live > ScheduledDown (Policy_Replicas selected)
      then do {
        let cur = cur\<lparr>State_ScaleDownSkipped := True,
                      State_ScaleDownSkipReason := ReasonScaleDownSkippedReplicaOverride, State_ReplicaSnapshot := None\<rparr>;
        let document = put_state (workload_Key current) cur document;
        saved \<leftarrow> r_save r document (workload_Key current) ''mark scale-down-skipped:replica-override'';
        ret (case saved of Some err \<Rightarrow> Inl err | None \<Rightarrow> Inr (document, cur))
      }
      else ret (Inr (document, cur)))"

definition window_state :: "WorkloadState \<Rightarrow> string \<Rightarrow> bool \<Rightarrow> LifecycleRevision \<Rightarrow> WorkloadState" where
  "window_state cur windowInstanceID scheduledDown revision =
     (let cur = reconcileWindowCycle cur windowInstanceID scheduledDown in
      if scheduledDown \<and> windowInstanceID \<noteq> [] \<and> State_WindowEntryRevision cur = []
      then cur\<lparr>State_WindowEntryRevision := Rev_RevisionHash revision, State_WindowInstanceID := windowInstanceID\<rparr>
      else cur)"

definition reconcile_window ::
  "'w Reconciler \<Rightarrow> Workload \<Rightarrow> Policy \<Rightarrow> LifecycleRevision \<Rightarrow> gotime \<Rightarrow> Workload \<Rightarrow> string \<Rightarrow> bool \<Rightarrow> string \<Rightarrow> bool \<Rightarrow>
   Document \<Rightarrow> WorkloadState \<Rightarrow> ('w, Decision \<times> goerr option) io" where
  "reconcile_window r current selected revision now live windowName scheduledDown windowInstanceID identityChanged document cur =
     (let key = workload_Key current;
          cur = window_state cur windowInstanceID scheduledDown revision;
          document = put_state key cur document
      in do {
        handled \<leftarrow> (if scheduledDown \<and> \<not> State_ScaleDownSkipped cur \<and> State_WindowEntryRevision cur \<noteq> [] \<and>
                      State_WindowEntryRevision cur \<noteq> Rev_RevisionHash revision
                   then handleRedeployDuringWindow r document cur live key
                   else ret (Inr (document, cur)));
        case handled of
          Inl err \<Rightarrow> ret (zeroDecision, Some (Errorf ''handle redeploy during window for %s: %w'' [Str key] [err]))
        | Inr (document, cur) \<Rightarrow> do {
            overridden \<leftarrow> reconcile_override r current selected live scheduledDown document cur;
            case overridden of
              Inl err \<Rightarrow> ret (zeroDecision, Some err)
            | Inr (document, cur) \<Rightarrow>
                reconcile_decide r current selected now live windowName scheduledDown identityChanged document cur
          }
      })"

definition reconcile_live ::
  "'w Reconciler \<Rightarrow> Workload \<Rightarrow> Policy \<Rightarrow> LifecycleRevision \<Rightarrow> gotime \<Rightarrow> bool \<Rightarrow> Document \<Rightarrow> WorkloadState \<Rightarrow>
   ('w, Decision \<times> goerr option) io" where
  "reconcile_live r current selected revision now identityChanged document cur = do {
     answer \<leftarrow> r_Read r current;
     case answer of
       Inl err \<Rightarrow> ret (zeroDecision, Some (Errorf ''read live scale for %s: %w'' [Str (workload_Key current)] [err]))
     | Inr live \<Rightarrow>
         (case matchSchedule (r_LoadLocation r) now (Policy_Schedule selected) of
            Inl err \<Rightarrow> ret (zeroDecision, Some (Errorf ''evaluate schedule for %s: %w'' [Str (workload_Key current)] [err]))
          | Inr (windowName, scheduledDown) \<Rightarrow>
              (case (if scheduledDown \<and> windowName \<noteq> []
                     then computeWindowInstanceID (r_LoadLocation r) now (Policy_Schedule selected) windowName
                     else Inr []) of
                 Inl err \<Rightarrow> ret (zeroDecision, Some (Errorf ''compute window instance ID for %s: %w'' [Str (workload_Key current)] [err]))
               | Inr windowInstanceID \<Rightarrow>
                   reconcile_window r current selected revision now live windowName scheduledDown windowInstanceID
                     identityChanged document cur))
   }"

definition panic_nil_map :: goerr where
  "panic_nil_map = errors_New ''panic: assignment to entry in nil map''"

definition reconcile_loaded ::
  "'w Reconciler \<Rightarrow> Workload \<Rightarrow> Policy \<Rightarrow> LifecycleRevision \<Rightarrow> gotime \<Rightarrow> Document \<Rightarrow> ('w, Decision \<times> goerr option) io" where
  "reconcile_loaded r current selected revision now document =
     (case Doc_States document of
        None \<Rightarrow> ret (zeroDecision, Some panic_nil_map)
      | Some states \<Rightarrow>
          (case reconcileIdentity (lookup_state states (workload_Key current)) current selected revision now of
             (cur, identityChanged) \<Rightarrow> do {
               let document = put_state (workload_Key current) cur document;
               saved \<leftarrow> (if identityChanged then r_save r document (workload_Key current) ''persist revision baseline''
                        else ret None);
               case saved of
                 Some err \<Rightarrow> ret (zeroDecision, Some err)
               | None \<Rightarrow> reconcile_live r current selected revision now identityChanged document cur
             }))"

definition Reconcile :: "'w Reconciler \<Rightarrow> Workload \<Rightarrow> Policy \<Rightarrow> ('w, Decision \<times> goerr option) io" where
  "Reconcile r current selected = do {
     evaluation \<leftarrow> r_Evaluate r current;
     case Rejection evaluation of
       Some rejection \<Rightarrow> ret (zeroDecision, Some (Errorf ''reject %s: %w'' [Str (workload_Key current)] [rejection]))
     | None \<Rightarrow>
         (case CalculateRevision (r_Sum256 r) (Workload_Containers current) (Revision_Spec (Policy_Lifecycle selected)) of
            Inl err \<Rightarrow> ret (zeroDecision, Some (Errorf ''calculate revision for %s: %w'' [Str (workload_Key current)] [err]))
          | Inr revision \<Rightarrow> do {
              clock \<leftarrow> r_Now r;
              loaded \<leftarrow> r_Load r;
              case loaded of
                Inl err \<Rightarrow> ret (zeroDecision, Some (Errorf ''load state for %s: %w'' [Str (workload_Key current)] [err]))
              | Inr document \<Rightarrow> reconcile_loaded r current selected revision (UTC clock) document
            })
   }"

text \<open>The reconciler of the running controller: the package's store, scale gateway, deleter and HPA detector.\<close>

definition kube_reconciler ::
  "'w apps_client \<Rightarrow> 'w ConfigMapStateStore \<Rightarrow> ('w, gotime) io \<Rightarrow> (string \<Rightarrow> string) \<Rightarrow> (string \<Rightarrow> location result) \<Rightarrow>
   'w Reconciler" where
  "kube_reconciler apps store clock Sum256 LoadLocation =
     \<lparr>r_Evaluate = hpa_Evaluate apps, r_Now = clock, r_Load = store_Load store, r_Save = store_Save store,
      r_Read = scale_Read apps, r_Update = scale_Update apps, r_Delete = deleter_Delete apps,
      r_Sum256 = Sum256, r_LoadLocation = LoadLocation\<rparr>"

section \<open>Recorded actions\<close>

datatype action =
    Evaluated Workload HPAEvaluation
  | Clocked gotime
  | Loaded "Document result"
  | Saved Document "goerr option"
  | ReadScale Workload "Workload result"
  | UpdatedScale Workload int "goerr option"
  | DeletedWorkload Workload "goerr option"

definition traced :: "'w Reconciler \<Rightarrow> ('w \<times> action list) Reconciler" where
  "traced r = \<lparr>r_Evaluate = \<lambda>w. logged (Evaluated w) (r_Evaluate r w), r_Now = logged Clocked (r_Now r),
     r_Load = logged Loaded (r_Load r), r_Save = \<lambda>d. logged (Saved d) (r_Save r d),
     r_Read = \<lambda>w. logged (ReadScale w) (r_Read r w), r_Update = \<lambda>w n. logged (UpdatedScale w n) (r_Update r w n),
     r_Delete = \<lambda>w. logged (DeletedWorkload w) (r_Delete r w),
     r_Sum256 = r_Sum256 r, r_LoadLocation = r_LoadLocation r\<rparr>"

text \<open>Every action of a trace is justified by what happened before it.\<close>

definition ok_trace :: "('e list \<Rightarrow> 'e \<Rightarrow> bool) \<Rightarrow> 'e list \<Rightarrow> bool" where
  "ok_trace P tr \<longleftrightarrow> (\<forall>i < length tr. P (take i tr) (tr ! i))"

lemma ok_trace_Nil [simp]: "ok_trace P []"
  by (simp add: ok_trace_def)

lemma ok_trace_snoc [simp]: "ok_trace P (tr @ [e]) \<longleftrightarrow> ok_trace P tr \<and> P tr e"
  by (auto simp: ok_trace_def nth_append less_Suc_eq)

lemma ok_trace_snoc2 [simp]: "ok_trace P (tr @ [a, b]) \<longleftrightarrow> ok_trace P tr \<and> P tr a \<and> P (tr @ [a]) b"
  using ok_trace_snoc[of P "tr @ [a]" b] by simp

text \<open>The document known to be stored: the last one loaded or saved with success.\<close>

definition durable :: "action list \<Rightarrow> Document option" where
  "durable tr = foldl (\<lambda>d e. case e of Loaded (Inr d') \<Rightarrow> Some d' | Saved d' None \<Rightarrow> Some d' | _ \<Rightarrow> d) None tr"

lemma durable_snoc [simp]:
  "durable (tr @ [e]) = (case e of Loaded (Inr d) \<Rightarrow> Some d | Saved d None \<Rightarrow> Some d | _ \<Rightarrow> durable tr)"
  by (simp add: durable_def split: action.split sum.split option.split)

definition state_of :: "string \<Rightarrow> Document \<Rightarrow> WorkloadState option" where
  "state_of key d = (case Doc_States d of None \<Rightarrow> None | Some m \<Rightarrow> map_of m key)"

definition snapshot_of :: "string \<Rightarrow> Document \<Rightarrow> ReplicaSnapshot option" where
  "snapshot_of key d = (case state_of key d of None \<Rightarrow> None | Some s \<Rightarrow> State_ReplicaSnapshot s)"

definition others :: "string \<Rightarrow> Document \<Rightarrow> int \<times> (string \<Rightarrow> WorkloadState option)" where
  "others key d = (Doc_FormatVersion d, (\<lambda>k. if k = key then None else state_of k d))"

lemma state_of_put [simp]: "state_of k (put_state key s d) = (if k = key then Some s else state_of k d)"
  by (auto simp: state_of_def put_state_def AList.update_conv split: option.splits)

lemma state_of_remove [simp]: "state_of k (remove_state key d) = (if k = key then None else state_of k d)"
  by (auto simp: state_of_def remove_state_def delete_conv' split: option.splits)

lemma snapshot_of_put [simp]: "snapshot_of key (put_state key s d) = State_ReplicaSnapshot s"
  by (simp add: snapshot_of_def)

lemma snapshot_of_remove [simp]: "snapshot_of key (remove_state key d) = None"
  by (simp add: snapshot_of_def)

lemma others_put [simp]: "others key (put_state key s d) = others key d"
  and others_remove [simp]: "others key (remove_state key d) = others key d"
  by (auto simp: others_def put_state_def remove_state_def) (auto simp: state_of_def fun_eq_iff AList.update_conv
      delete_conv' split: option.splits)

lemma valid_document_put: "valid_document d \<Longrightarrow> valid_state key s \<Longrightarrow> valid_document (put_state key s d)"
proof -
  have "list_all (\<lambda>(k, s). valid_state k s) m \<Longrightarrow> valid_state key s \<Longrightarrow> list_all (\<lambda>(k, s). valid_state k s) (AList.update key s m)" for m
    by (induction m) auto
  then show "valid_document d \<Longrightarrow> valid_state key s \<Longrightarrow> valid_document (put_state key s d)"
    by (auto simp: valid_document_def put_state_def split: option.splits)
qed

lemma valid_document_remove: "valid_document d \<Longrightarrow> valid_document (remove_state key d)"
  by (auto simp: valid_document_def remove_state_def list_all_iff AList.delete_eq split: option.splits)

section \<open>What a justified action is\<close>

text \<open>
  The trace so far holds plausible answers: the clock is set and not behind the first sight of the
  workload, and replica counts are not negative.
\<close>

definition sane :: "string \<Rightarrow> action list \<Rightarrow> bool" where
  "sane key tr \<longleftrightarrow> (\<forall>t. Clocked t \<in> set tr \<longrightarrow> \<not> IsZero t \<and>
       (\<forall>d s. Loaded (Inr d) \<in> set tr \<and> state_of key d = Some s \<longrightarrow> t_ns (State_FirstSeenAt s) \<le> t_ns t)) \<and>
     (\<forall>w live. ReadScale w (Inr live) \<in> set tr \<longrightarrow> 0 \<le> Workload_CurrentReplicas live)"

definition wf_input :: "(string \<Rightarrow> string) \<Rightarrow> Workload \<Rightarrow> Policy \<Rightarrow> bool" where
  "wf_input Sum256 current selected \<longleftrightarrow> (\<forall>x. length (Sum256 x) = 32) \<and> supported_kind (Workload_Kind current) \<and>
     Workload_Namespace current \<noteq> [] \<and> Workload_Name current \<noteq> [] \<and> Workload_UID current \<noteq> [] \<and> Policy_Name selected \<noteq> []"

text \<open>How a saved document may differ from the stored one in the workload's snapshot.\<close>

definition snapshot_step :: "Workload \<Rightarrow> Policy \<Rightarrow> action list \<Rightarrow> Document \<Rightarrow> Document \<Rightarrow> bool" where
  "snapshot_step current selected tr d0 d =
     (case (snapshot_of (workload_Key current) d0, snapshot_of (workload_Key current) d) of
        (None, None) \<Rightarrow> True
      | (None, Some snap) \<Rightarrow>
          (\<exists>live. ReadScale current (Inr live) \<in> set tr \<and> Snap_Replicas snap = Workload_CurrentReplicas live)
      | (Some snap, Some snap') \<Rightarrow> snap' = snap
      | (Some snap, None) \<Rightarrow>
          (\<exists>w. tr \<noteq> [] \<and> workload_Key w = workload_Key current \<and>
             (last tr = UpdatedScale w (Snap_Replicas snap) None \<or> last tr = DeletedWorkload w None)) \<or>
          (\<exists>live. ReadScale current (Inr live) \<in> set tr \<and>
             ScheduledDown (Policy_Replicas selected) < Workload_CurrentReplicas live) \<or>
          (\<exists>s. state_of (workload_Key current) d0 = Some s \<and> State_WorkloadUID s \<noteq> Workload_UID current))"

definition justified :: "(string \<Rightarrow> string) \<Rightarrow> Workload \<Rightarrow> Policy \<Rightarrow> action list \<Rightarrow> action \<Rightarrow> bool" where
  "justified Sum256 current selected tr e =
     (case e of
        Saved d _ \<Rightarrow>
          (\<exists>d0. durable tr = Some d0 \<and> others (workload_Key current) d = others (workload_Key current) d0 \<and>
             snapshot_step current selected tr d0 d) \<and>
          (wf_input Sum256 current selected \<and> sane (workload_Key current) tr \<longrightarrow> valid_document d)
      | UpdatedScale w n _ \<Rightarrow>
          workload_Key w = workload_Key current \<and>
          (\<exists>d0 snap. durable tr = Some d0 \<and> snapshot_of (workload_Key current) d0 = Some snap \<and>
             (n = Snap_Replicas snap \<or> n = min (ScheduledDown (Policy_Replicas selected)) (Snap_Replicas snap) \<or>
              n = min (Expired (Policy_Replicas selected)) (Snap_Replicas snap)))
      | DeletedWorkload w _ \<Rightarrow>
          workload_Key w = workload_Key current \<and> ExpiredAction (Policy_Lifecycle selected) = ''delete'' \<and>
          (\<exists>t d0 s. Clocked t \<in> set tr \<and> durable tr = Some d0 \<and> state_of (workload_Key current) d0 = Some s \<and>
             State_WorkloadUID s = Workload_UID current \<and>
             t_ns (State_FirstSeenAt s) + MaxAge (Policy_Lifecycle selected) \<le> t_ns t)
      | _ \<Rightarrow> True)"

text \<open>
  What the local variables of \<^verbatim>\<open>Reconcile\<close> have to do with the trace once the identity is settled: the
  stored document agrees with the local one on every other workload, and on this one in UID, first
  sight and snapshot.
\<close>

definition in_step :: "(string \<Rightarrow> string) \<Rightarrow> Workload \<Rightarrow> Policy \<Rightarrow> gotime \<Rightarrow> action list \<Rightarrow> Document \<Rightarrow> WorkloadState \<Rightarrow> bool" where
  "in_step Sum256 current selected now tr document cur \<longleftrightarrow>
     (\<exists>d0 s0. durable tr = Some d0 \<and> others (workload_Key current) document = others (workload_Key current) d0 \<and>
        state_of (workload_Key current) d0 = Some s0 \<and> State_FirstSeenAt s0 = State_FirstSeenAt cur \<and>
        State_WorkloadUID s0 = Workload_UID current \<and> State_ReplicaSnapshot s0 = State_ReplicaSnapshot cur) \<and>
     (\<exists>t. Clocked t \<in> set tr \<and> now = UTC t) \<and> State_WorkloadUID cur = Workload_UID current \<and>
     (wf_input Sum256 current selected \<and> sane (workload_Key current) tr \<longrightarrow>
        valid_document document \<and> valid_state (workload_Key current) cur \<and> utc_set now)"

definition live_read :: "Workload \<Rightarrow> action list \<Rightarrow> Workload \<Rightarrow> bool" where
  "live_read current tr live \<longleftrightarrow> ReadScale current (Inr live) \<in> set tr \<and> workload_Key live = workload_Key current"

lemma sane_snoc: "sane key (tr @ [e]) \<Longrightarrow> sane key tr"
  by (auto simp: sane_def)

lemma valid_state_window [simp]:
  "valid_state k (s\<lparr>State_WindowEntryRevision := a\<rparr>) = valid_state k s"
  "valid_state k (s\<lparr>State_WindowInstanceID := b\<rparr>) = valid_state k s"
  "valid_state k (s\<lparr>State_ScaleDownSkipped := c\<rparr>) = valid_state k s"
  "valid_state k (s\<lparr>State_ScaleDownSkipReason := a\<rparr>) = valid_state k s"
  by (simp_all add: valid_state_def state_Key_def)

lemma valid_state_snapshot:
  "valid_state k s \<Longrightarrow> (case snap of None \<Rightarrow> True | Some x \<Rightarrow> valid_snapshot x) \<Longrightarrow> valid_state k (s\<lparr>State_ReplicaSnapshot := snap\<rparr>)"
  by (auto simp: valid_state_def state_Key_def)

lemma in_stepE:
  assumes "in_step Sum256 current selected now tr document cur"
  obtains d0 s0 t where "durable tr = Some d0" "others (workload_Key current) document = others (workload_Key current) d0"
    "state_of (workload_Key current) d0 = Some s0" "State_FirstSeenAt s0 = State_FirstSeenAt cur"
    "State_WorkloadUID s0 = Workload_UID current" "State_ReplicaSnapshot s0 = State_ReplicaSnapshot cur"
    "Clocked t \<in> set tr" "now = UTC t" "State_WorkloadUID cur = Workload_UID current" "snapshot_of (workload_Key current) d0 = State_ReplicaSnapshot cur"
    "wf_input Sum256 current selected \<Longrightarrow> sane (workload_Key current) tr \<Longrightarrow>
       valid_document document \<and> valid_state (workload_Key current) cur \<and> utc_set now"
  using assms unfolding in_step_def by (force simp: snapshot_of_def)

text \<open>Actions that do not touch the stored document keep the correspondence.\<close>

lemma in_step_snoc:
  assumes "in_step Sum256 current selected now tr document cur"
    "durable (tr @ [e]) = durable tr"
  shows "in_step Sum256 current selected now (tr @ [e]) document cur"
  using assms sane_snoc[of "workload_Key current" tr e] unfolding in_step_def by auto

text \<open>Changing the local state in fields other than first sight, UID and snapshot.\<close>

lemma in_step_put:
  assumes "in_step Sum256 current selected now tr document cur"
    "State_FirstSeenAt cur' = State_FirstSeenAt cur" "State_WorkloadUID cur' = State_WorkloadUID cur"
    "State_ReplicaSnapshot cur' = State_ReplicaSnapshot cur"
    "valid_state (workload_Key current) cur \<Longrightarrow> valid_state (workload_Key current) cur'"
  shows "in_step Sum256 current selected now tr (put_state (workload_Key current) cur' document) cur'"
  using assms unfolding in_step_def by (auto simp: valid_document_put)

text \<open>Saving the local document with a changed state, and what holds when that succeeded.\<close>

lemma justified_save:
  assumes "in_step Sum256 current selected now tr document cur"
    "\<And>d0. snapshot_of (workload_Key current) d0 = State_ReplicaSnapshot cur \<Longrightarrow> durable tr = Some d0 \<Longrightarrow>
       snapshot_step current selected tr d0 (put_state (workload_Key current) cur' document)"
    "wf_input Sum256 current selected \<Longrightarrow> sane (workload_Key current) tr \<Longrightarrow>
       valid_state (workload_Key current) cur \<Longrightarrow> utc_set now \<Longrightarrow> valid_state (workload_Key current) cur'"
  shows "justified Sum256 current selected tr (Saved (put_state (workload_Key current) cur' document) a)"
  using assms(1)
proof (rule in_stepE)
  fix d0 s0 t
  assume *: "durable tr = Some d0" "others (workload_Key current) document = others (workload_Key current) d0"
    "snapshot_of (workload_Key current) d0 = State_ReplicaSnapshot cur"
    "wf_input Sum256 current selected \<Longrightarrow> sane (workload_Key current) tr \<Longrightarrow>
       valid_document document \<and> valid_state (workload_Key current) cur \<and> utc_set now"
  then show ?thesis using assms(2)[OF *(3,1)] assms(3) by (auto simp: justified_def valid_document_put)
qed

lemma in_step_saved:
  assumes "in_step Sum256 current selected now tr document cur"
    "State_FirstSeenAt cur' = State_FirstSeenAt cur" "State_WorkloadUID cur' = State_WorkloadUID cur"
    "wf_input Sum256 current selected \<Longrightarrow> sane (workload_Key current) tr \<Longrightarrow>
       valid_state (workload_Key current) cur \<Longrightarrow> utc_set now \<Longrightarrow> valid_state (workload_Key current) cur'"
  shows "in_step Sum256 current selected now (tr @ [Saved (put_state (workload_Key current) cur' document) None])
    (put_state (workload_Key current) cur' document) cur'"
  using assms(1)
  by (rule in_stepE)
    (use assms(2-) sane_snoc in \<open>auto simp: in_step_def valid_document_put\<close>)

lemma decide_cases:
  fixes now selected live windowName scheduledDown cur
  defines "dec \<equiv> Decide (decision_input now selected live windowName scheduledDown cur)"
  shows "NeedsSnapshot dec \<Longrightarrow> State_ReplicaSnapshot cur = None \<and> Reason dec \<noteq> [] \<and>
      (DesiredReplicas dec = min (ScheduledDown (Policy_Replicas selected)) (Workload_CurrentReplicas live) \<or>
       DesiredReplicas dec = min (Expired (Policy_Replicas selected)) (Workload_CurrentReplicas live))"
    and "ClearSnapshotAfterScale dec \<Longrightarrow>
      \<exists>snap. State_ReplicaSnapshot cur = Some snap \<and> DesiredReplicas dec = Snap_Replicas snap"
    and "ShouldScale dec \<Longrightarrow> \<not> NeedsSnapshot dec \<Longrightarrow> \<not> ClearSnapshotAfterScale dec \<Longrightarrow>
      \<exists>snap. State_ReplicaSnapshot cur = Some snap \<and>
       (DesiredReplicas dec = min (ScheduledDown (Policy_Replicas selected)) (Snap_Replicas snap) \<or>
        DesiredReplicas dec = min (Expired (Policy_Replicas selected)) (Snap_Replicas snap))"
    and "DeleteWorkload dec \<Longrightarrow> ExpiredAction (Policy_Lifecycle selected) = ''delete'' \<and>
      t_ns (State_FirstSeenAt cur) + MaxAge (Policy_Lifecycle selected) \<le> t_ns now"
  unfolding dec_def decision_input_def
  by (auto simp: decide_defs split: if_splits option.splits)

lemma valid_document_lookup: "valid_document d \<Longrightarrow> state_of key d = Some s \<Longrightarrow> valid_state key s"
  by (auto simp: valid_document_def state_of_def list_all_iff dest!: map_of_SomeD split: option.splits)

text \<open>The state that \<^verbatim>\<open>reconcileIdentity\<close> builds, compared with the stored one.\<close>

lemma reconcileIdentity_facts:
  assumes "Doc_States document = Some states"
    and "reconcileIdentity (lookup_state states key) current selected revision now = (cur, changed)"
  shows "State_WorkloadUID cur = Workload_UID current"
    and "\<not> changed \<Longrightarrow> \<exists>s0. state_of key document = Some s0 \<and> State_FirstSeenAt s0 = State_FirstSeenAt cur \<and>
      State_WorkloadUID s0 = Workload_UID current \<and> State_ReplicaSnapshot s0 = State_ReplicaSnapshot cur"
    and "state_of key document = None \<Longrightarrow> State_ReplicaSnapshot cur = None"
    and "state_of key document = Some s0 \<Longrightarrow> State_WorkloadUID s0 \<noteq> [] \<Longrightarrow>
      State_ReplicaSnapshot cur = State_ReplicaSnapshot s0 \<or> State_WorkloadUID s0 \<noteq> Workload_UID current \<and> State_ReplicaSnapshot cur = None"
    and "State_FirstSeenAt cur = now \<or> (\<exists>s0. state_of key document = Some s0 \<and> State_FirstSeenAt cur = State_FirstSeenAt s0)"
  using assms by (auto simp: reconcileIdentity_def Let_def lookup_state_def state_of_def zeroState_def split: option.splits if_splits)

lemma reconcileIdentity_valid:
  assumes id: "Doc_States document = Some states"
      "reconcileIdentity (lookup_state states (workload_Key current)) current selected revision now = (cur, changed)"
    and "wf_input Sum256 current selected" "CalculateRevision Sum256 cs spec = Inr revision" "valid_document document" "utc_set now"
    and first: "\<And>s. state_of (workload_Key current) document = Some s \<Longrightarrow> t_ns (State_FirstSeenAt s) \<le> t_ns now"
  shows "valid_state (workload_Key current) cur"
proof -
  have rev: "valid_hash (Rev_TrackingSpecHash revision)" "valid_hash (Rev_RevisionHash revision)" "Rev_Containers revision \<noteq> []"
    "list_all (\<lambda>c. Container_Name c \<noteq> [] \<and> Container_Image c \<noteq> []) (Rev_Containers revision)"
    "sorted_wrt (<) (map Container_Name (Rev_Containers revision))"
    using CalculateRevision_valid[OF _ assms(4)] assms(3) by (auto simp: wf_input_def)
  have old: "valid_state (workload_Key current) s" if "state_of (workload_Key current) document = Some s" for s
    using valid_document_lookup[OF assms(5) that] .
  have snap: "case State_ReplicaSnapshot cur of None \<Rightarrow> True | Some x \<Rightarrow> valid_snapshot x"
    using reconcileIdentity_facts(3,4)[OF id] old
    by (cases "state_of (workload_Key current) document") (auto simp: valid_state_def split: option.splits)
  have seen: "utc_set (State_FirstSeenAt cur) \<and> t_ns (State_FirstSeenAt cur) \<le> t_ns now"
    using reconcileIdentity_facts(5)[OF id] old first assms(6) by (auto simp: valid_state_def)
  have fields: "State_Kind cur = Workload_Kind current" "State_Namespace cur = Workload_Namespace current"
    "State_Name cur = Workload_Name current" "State_WorkloadUID cur = Workload_UID current"
    "State_LastPolicyName cur = Policy_Name selected" "State_TrackingSpecHash cur = Rev_TrackingSpecHash revision"
    "State_RevisionHash cur = Rev_RevisionHash revision" "State_LastSeenAt cur = now"
    "State_Revision cur = \<lparr>State_Source = SourceContainerImages, State_Containers = Rev_Containers revision\<rparr>"
    using id(2) by (auto simp: reconcileIdentity_def Let_def)
  show ?thesis
    using assms(3,6) rev snap seen by (simp add: valid_state_def fields state_Key_def workload_Key_def wf_input_def)
qed

section \<open>The contract of the dependencies\<close>

text \<open>
  What the reconciler relies on: each call appends its action to the trace; a document that loads is
  valid; reading the live scale only sets the replica count. Any call may fail.
\<close>

locale reconciler_deps =
  fixes r :: "('w \<times> action list) Reconciler"
  assumes evaluate_rule: "(\<And>a w'. Q1 a (w', snd st @ [Evaluated w a])) \<Longrightarrow> wp (r_Evaluate r w) Q1 st"
    and now_rule: "(\<And>a w'. Q2 a (w', snd st @ [Clocked a])) \<Longrightarrow> wp (r_Now r) Q2 st"
    and load_rule: "(\<And>a w'. (\<And>d. a = Inr d \<Longrightarrow> valid_document d) \<Longrightarrow> Q3 a (w', snd st @ [Loaded a])) \<Longrightarrow> wp (r_Load r) Q3 st"
    and save_rule: "(\<And>a w'. Q4 a (w', snd st @ [Saved d a])) \<Longrightarrow> wp (r_Save r d) Q4 st"
    and read_rule: "(\<And>a w'. (\<And>live. a = Inr live \<Longrightarrow> \<exists>n. live = w\<lparr>Workload_CurrentReplicas := n\<rparr>) \<Longrightarrow>
      Q5 a (w', snd st @ [ReadScale w a])) \<Longrightarrow> wp (r_Read r w) Q5 st"
    and update_rule: "(\<And>a w'. Q4 a (w', snd st @ [UpdatedScale w n a])) \<Longrightarrow> wp (r_Update r w n) Q4 st"
    and delete_rule: "(\<And>a w'. Q4 a (w', snd st @ [DeletedWorkload w a])) \<Longrightarrow> wp (r_Delete r w) Q4 st"
begin

lemma r_save_rule:
  assumes "\<And>w'. Q None (w', snd st @ [Saved d None])" "\<And>e e' w'. Q (Some e) (w', snd st @ [Saved d (Some e')])"
  shows "wp (r_save r d key operation) Q st"
  unfolding r_save_def wp_bind by (rule save_rule) (use assms in \<open>auto simp: wp_return split: option.splits\<close>)

lemma r_updateScale_rule:
  assumes "\<And>w'. Q None (w', snd st @ [UpdatedScale w n None])" "\<And>e e' w'. Q (Some e) (w', snd st @ [UpdatedScale w n (Some e')])"
  shows "wp (r_updateScale r w n reason) Q st"
  unfolding r_updateScale_def wp_bind by (rule update_rule) (use assms in \<open>auto simp: wp_return split: option.splits\<close>)

text \<open>Writing a snapshot-backed scale, and restoring it.\<close>

lemma justified_scale:
  assumes "in_step Sum256 current selected now tr document cur" "live_read current tr live"
    "State_ReplicaSnapshot cur = Some snap"
    "n = Snap_Replicas snap \<or> n = min (ScheduledDown (Policy_Replicas selected)) (Snap_Replicas snap) \<or>
     n = min (Expired (Policy_Replicas selected)) (Snap_Replicas snap)"
  shows "justified Sum256 current selected tr (UpdatedScale live n a)"
  using assms(1) by (rule in_stepE) (use assms(2-) in \<open>auto simp: justified_def live_read_def\<close>)

lemma live_read_snoc: "live_read current tr live \<Longrightarrow> live_read current (tr @ [e]) live"
  by (simp add: live_read_def)

text \<open>Saving the local document with a changed state of the workload, where the change of its snapshot is allowed.\<close>

lemma save_state_rule:
  assumes J: "J = justified (r_Sum256 r) current selected" and ok: "ok_trace J (snd st)"
    and st: "in_step (r_Sum256 r) current selected now (snd st) document cur" and live: "live_read current (snd st) live"
    and doc: "doc' = put_state (workload_Key current) cur' document"
    and step: "\<And>d0. snapshot_of (workload_Key current) d0 = State_ReplicaSnapshot cur \<Longrightarrow> durable (snd st) = Some d0 \<Longrightarrow>
       snapshot_step current selected (snd st) d0 doc'"
    and same: "State_FirstSeenAt cur' = State_FirstSeenAt cur" "State_WorkloadUID cur' = State_WorkloadUID cur"
    and valid: "sane (workload_Key current) (snd st) \<Longrightarrow> valid_state (workload_Key current) cur \<Longrightarrow> utc_set now \<Longrightarrow>
       valid_state (workload_Key current) cur'"
    and Q: "\<And>st'. ok_trace J (snd st') \<Longrightarrow> in_step (r_Sum256 r) current selected now (snd st') doc' cur' \<Longrightarrow>
       live_read current (snd st') live \<Longrightarrow> Q None st'"
    and E: "\<And>err st'. ok_trace J (snd st') \<Longrightarrow> Q (Some err) st'"
  shows "wp (r_save r doc' (workload_Key current) operation) Q st"
proof (rule r_save_rule)
  have just: "J (snd st) (Saved doc' a)" for a
    unfolding J doc using valid by (intro justified_save[OF st step[unfolded doc]]) auto
  have "in_step (r_Sum256 r) current selected now (snd st @ [Saved doc' None]) doc' cur'"
    unfolding doc using valid same by (intro in_step_saved[OF st]) auto
  then show "Q None (w', snd st @ [Saved doc' None])" for w'
    by (intro Q) (use ok just live in \<open>auto simp: live_read_snoc\<close>)
  show "Q (Some e) (w', snd st @ [Saved doc' (Some e')])" for e e' w'
    by (rule E) (use ok just in simp)
qed

lemma handleRedeploy_rule:
  assumes J: "J = justified (r_Sum256 r) current selected" and ok: "ok_trace J (snd st)"
    and st: "in_step (r_Sum256 r) current selected now (snd st) document cur" and live: "live_read current (snd st) live"
    and Q: "\<And>doc' cur' st'. ok_trace J (snd st') \<Longrightarrow> in_step (r_Sum256 r) current selected now (snd st') doc' cur' \<Longrightarrow>
       live_read current (snd st') live \<Longrightarrow> Q (Inr (doc', cur')) st'"
    and E: "\<And>err st'. ok_trace J (snd st') \<Longrightarrow> Q (Inl err) st'"
  shows "wp (handleRedeployDuringWindow r document cur live (workload_Key current)) Q st"
proof -
  let ?cur = "cur\<lparr>State_ReplicaSnapshot := None, State_ScaleDownSkipped := True, State_ScaleDownSkipReason := ReasonScaleDownSkipped\<rparr>"
  let ?doc = "put_state (workload_Key current) ?cur document"
  let ?mark = "State_Monad.bind (r_save r ?doc (workload_Key current) ''mark scale-down-skipped'')
       (\<lambda>saved. ret (case saved of Some err \<Rightarrow> Inl err | None \<Rightarrow> Inr (?doc, ?cur)))"
  have mark: "wp ?mark Q st1"
    if "ok_trace J (snd st1)" "in_step (r_Sum256 r) current selected now (snd st1) document cur" "live_read current (snd st1) live"
      "\<And>d0. snapshot_of (workload_Key current) d0 = State_ReplicaSnapshot cur \<Longrightarrow> snapshot_step current selected (snd st1) d0 ?doc" for st1
    unfolding wp_bind
    by (rule save_state_rule[OF J that(1-3) refl that(4)]) (auto simp: wp_return valid_state_snapshot intro!: Q E)
  show ?thesis
  proof (cases "State_ReplicaSnapshot cur")
    case None
    then have "wp ?mark Q st" by (intro mark ok st live) (simp add: snapshot_step_def)
    then show ?thesis unfolding handleRedeployDuringWindow_def Let_def None option.case wp_bind wp_return by simp
  next
    case (Some snap)
    have just: "J (snd st) (UpdatedScale live (Snap_Replicas snap) a)" for a
      unfolding J by (rule justified_scale[OF st live Some]) simp
    have st1: "in_step (r_Sum256 r) current selected now (snd st @ [UpdatedScale live (Snap_Replicas snap) None]) document cur"
      by (rule in_step_snoc[OF st]) simp
    have "wp ?mark Q (w', snd st @ [UpdatedScale live (Snap_Replicas snap) None])" for w'
      by (rule mark) (use ok just st1 live in \<open>auto simp: live_read_snoc snapshot_step_def Some live_read_def\<close>)
    then show ?thesis unfolding handleRedeployDuringWindow_def Let_def Some option.case wp_bind
      by (intro r_updateScale_rule) (use ok just in \<open>auto simp: wp_return wp_bind intro!: E\<close>)
  qed
qed

lemma reconcile_override_rule:
  assumes J: "J = justified (r_Sum256 r) current selected" and ok: "ok_trace J (snd st)"
    and st: "in_step (r_Sum256 r) current selected now (snd st) document cur" and live: "live_read current (snd st) live"
    and Q: "\<And>doc' cur' st'. ok_trace J (snd st') \<Longrightarrow> in_step (r_Sum256 r) current selected now (snd st') doc' cur' \<Longrightarrow>
       live_read current (snd st') live \<Longrightarrow> Q (Inr (doc', cur')) st'"
    and E: "\<And>err st'. ok_trace J (snd st') \<Longrightarrow> Q (Inl err) st'"
  shows "wp (reconcile_override r current selected live scheduledDown document cur) Q st"
proof (cases "scheduledDown \<and> \<not> State_ScaleDownSkipped cur \<and> State_ReplicaSnapshot cur \<noteq> None \<and>
    Workload_CurrentReplicas live > ScheduledDown (Policy_Replicas selected)")
  case False
  then show ?thesis using Q[OF ok st live] by (auto simp: reconcile_override_def wp_return)
next
  case True
  let ?cur = "cur\<lparr>State_ScaleDownSkipped := True, State_ScaleDownSkipReason := ReasonScaleDownSkippedReplicaOverride,
      State_ReplicaSnapshot := None\<rparr>"
  have step: "snapshot_step current selected (snd st) d0 (put_state (workload_Key current) ?cur document)"
    if "snapshot_of (workload_Key current) d0 = State_ReplicaSnapshot cur" for d0
    using that True live by (auto simp: snapshot_step_def live_read_def)
  show ?thesis
    unfolding reconcile_override_def Let_def wp_bind eqTrueI[OF True] if_True
    by (rule save_state_rule[OF J ok st live refl step]) (auto simp: wp_return valid_state_snapshot intro!: Q E)
qed

text \<open>The branches of \<^verbatim>\<open>applyDecision\<close>: a new snapshot, a restoration, and everything else.\<close>

lemma apply_snapshot_rule:
  assumes J: "J = justified (r_Sum256 r) current selected" and ok: "ok_trace J (snd st)"
    and st: "in_step (r_Sum256 r) current selected now (snd st) document cur" and live: "live_read current (snd st) live"
    and dec: "dec = Decide (decision_input now selected live windowName scheduledDown cur)" and need: "NeedsSnapshot dec"
  shows "wp (applyDecision r live dec document cur identitySaved now) (\<lambda>_ st'. ok_trace J (snd st')) st"
proof -
  note facts = decide_cases(1)[of now selected live windowName scheduledDown cur, folded dec, OF need]
  have key: "workload_Key live = workload_Key current" using live by (simp add: live_read_def)
  let ?snap = "\<lparr>Snap_Replicas = Workload_CurrentReplicas live, Snap_CapturedAt = now, Snap_CapturedReason = Reason dec\<rparr>"
  let ?cur = "cur\<lparr>State_ReplicaSnapshot := Some ?snap\<rparr>"
  have step: "snapshot_step current selected (snd st) d0 (put_state (workload_Key current) ?cur document)"
    if "snapshot_of (workload_Key current) d0 = State_ReplicaSnapshot cur" for d0
    using that facts live by (auto simp: snapshot_step_def live_read_def)
  have scale: "J tr (UpdatedScale live (DesiredReplicas dec) a)"
    if "in_step (r_Sum256 r) current selected now tr doc' ?cur" "live_read current tr live" for tr doc' a
    unfolding J by (rule justified_scale[OF that]) (use facts in auto)
  show ?thesis
    unfolding applyDecision_def Let_def key wp_bind eqTrueI[OF need] if_True
  proof (rule save_state_rule[OF J ok st live refl step])
    show "sane (workload_Key current) (snd st) \<Longrightarrow> valid_state (workload_Key current) cur \<Longrightarrow> utc_set now \<Longrightarrow>
        valid_state (workload_Key current) ?cur"
      using live facts by (intro valid_state_snapshot) (auto simp: valid_snapshot_def sane_def live_read_def)
  qed (use scale in \<open>auto simp: wp_return intro!: r_updateScale_rule\<close>)
qed

lemma apply_restore_rule:
  assumes J: "J = justified (r_Sum256 r) current selected" and ok: "ok_trace J (snd st)"
    and st: "in_step (r_Sum256 r) current selected now (snd st) document cur" and live: "live_read current (snd st) live"
    and dec: "dec = Decide (decision_input now selected live windowName scheduledDown cur)"
    and clear: "\<not> NeedsSnapshot dec" "ClearSnapshotAfterScale dec"
  shows "wp (applyDecision r live dec document cur identitySaved now) (\<lambda>_ st'. ok_trace J (snd st')) st"
proof -
  have key: "workload_Key live = workload_Key current" using live by (simp add: live_read_def)
  from decide_cases(2)[of now selected live windowName scheduledDown cur, folded dec, OF clear(2)]
  obtain snap where snap: "State_ReplicaSnapshot cur = Some snap" "DesiredReplicas dec = Snap_Replicas snap" by blast
  let ?tr = "snd st @ [UpdatedScale live (DesiredReplicas dec) None]"
  have scale: "J (snd st) (UpdatedScale live (DesiredReplicas dec) a)" for a
    unfolding J by (rule justified_scale[OF st live snap(1)]) (simp add: snap)
  have st1: "in_step (r_Sum256 r) current selected now ?tr document cur" by (rule in_step_snoc[OF st]) simp
  have "J ?tr (Saved (put_state (workload_Key current) (cur\<lparr>State_ReplicaSnapshot := None\<rparr>) document) a)" for a
    unfolding J by (rule justified_save[OF st1]) (auto simp: snapshot_step_def snap key intro!: valid_state_snapshot)
  then show ?thesis
    using clear unfolding applyDecision_def Let_def key
    by (auto simp: wp_bind wp_return ok scale intro!: r_updateScale_rule r_save_rule)
qed

lemma apply_same_rule:
  assumes J: "J = justified (r_Sum256 r) current selected" and ok: "ok_trace J (snd st)"
    and st: "in_step (r_Sum256 r) current selected now (snd st) document cur" and live: "live_read current (snd st) live"
    and dec: "dec = Decide (decision_input now selected live windowName scheduledDown cur)"
    and same: "\<not> NeedsSnapshot dec" "\<not> ClearSnapshotAfterScale dec"
  shows "wp (applyDecision r live dec document cur identitySaved now) (\<lambda>_ st'. ok_trace J (snd st')) st"
proof -
  have key: "workload_Key live = workload_Key current" using live by (simp add: live_read_def)
  have save: "J tr (Saved (put_state (workload_Key current) cur document) a)"
    if "in_step (r_Sum256 r) current selected now tr document cur" for tr a
    unfolding J by (rule justified_save[OF that]) (auto simp: snapshot_step_def split: option.splits)
  have st1: "in_step (r_Sum256 r) current selected now (snd st @ [UpdatedScale live n None]) document cur" for n
    by (rule in_step_snoc[OF st]) simp
  have scale: "J (snd st) (UpdatedScale live (DesiredReplicas dec) a)" if "ShouldScale dec" for a
    using decide_cases(3)[of now selected live windowName scheduledDown cur, folded dec, OF that same]
    unfolding J by (auto intro: justified_scale[OF st live])
  show ?thesis
    using same scale unfolding applyDecision_def Let_def key
    by (auto simp: wp_bind wp_return ok save[OF st] save[OF st1] intro!: r_updateScale_rule r_save_rule)
qed

lemma applyDecision_rule:
  assumes "J = justified (r_Sum256 r) current selected" "ok_trace J (snd st)"
    "in_step (r_Sum256 r) current selected now (snd st) document cur" "live_read current (snd st) live"
    "dec = Decide (decision_input now selected live windowName scheduledDown cur)"
  shows "wp (applyDecision r live dec document cur identitySaved now) (\<lambda>_ st'. ok_trace J (snd st')) st"
  using apply_snapshot_rule[OF assms] apply_restore_rule[OF assms] apply_same_rule[OF assms] by blast

lemma reconcile_decide_rule:
  assumes J: "J = justified (r_Sum256 r) current selected" and ok: "ok_trace J (snd st)"
    and st: "in_step (r_Sum256 r) current selected now (snd st) document cur" and live: "live_read current (snd st) live"
  shows "wp (reconcile_decide r current selected now live windowName scheduledDown identityChanged document cur)
    (\<lambda>_ st'. ok_trace J (snd st')) st"
proof -
  define dec where "dec = Decide (decision_input now selected live windowName scheduledDown cur)"
  show ?thesis
  proof (cases "DeleteWorkload dec")
    case False
    then show ?thesis
      unfolding reconcile_decide_def Let_def dec_def[symmetric] if_not_P[OF False] wp_bind
      by (intro wp_mono[OF applyDecision_rule[OF J ok st live dec_def]]) (simp add: wp_return)
  next
    case True
    note del = decide_cases(4)[of now selected live windowName scheduledDown cur, folded dec_def, OF True]
    obtain d0 s0 t where d0: "durable (snd st) = Some d0" "others (workload_Key current) document = others (workload_Key current) d0"
      "state_of (workload_Key current) d0 = Some s0" "State_FirstSeenAt s0 = State_FirstSeenAt cur"
      "State_WorkloadUID s0 = Workload_UID current" "Clocked t \<in> set (snd st)" "now = UTC t"
      and valid: "wf_input (r_Sum256 r) current selected \<Longrightarrow> sane (workload_Key current) (snd st) \<Longrightarrow> valid_document document"
      using st by (rule in_stepE) blast
    have just: "J (snd st) (DeletedWorkload live a)" for a
      using d0 del live unfolding J by (auto simp: justified_def live_read_def)
    have just1: "J (snd st @ [DeletedWorkload live None]) (Saved (remove_state (workload_Key current) document) a)" for a
      unfolding J using d0 valid live sane_snoc
      by (auto simp: justified_def snapshot_step_def valid_document_remove live_read_def split: option.splits)
    have code: "reconcile_decide r current selected now live windowName scheduledDown identityChanged document cur =
        State_Monad.bind (r_Delete r live) (\<lambda>deleted. case deleted of
          Some err \<Rightarrow> ret (dec, Some (Errorf ''delete expired workload %s: %w'' [Str (workload_Key current)] [err]))
        | None \<Rightarrow> State_Monad.bind (r_Save r (remove_state (workload_Key current) document)) (\<lambda>saved.
            ret (dec, case saved of None \<Rightarrow> None
              | Some err \<Rightarrow> Some (Errorf ''clean state after deleting %s: %w'' [Str (workload_Key current)] [err]))))"
      unfolding reconcile_decide_def Let_def dec_def[symmetric] if_P[OF True] by (rule refl)
    show ?thesis unfolding code wp_bind
      by (intro delete_rule) (auto simp: ok just just1 wp_return wp_bind split: option.split intro!: save_rule)
  qed
qed

lemma reconcile_window_rule:
  assumes J: "J = justified (r_Sum256 r) current selected" and ok: "ok_trace J (snd st)"
    and st: "in_step (r_Sum256 r) current selected now (snd st) document cur" and live: "live_read current (snd st) live"
  shows "wp (reconcile_window r current selected revision now live windowName scheduledDown windowInstanceID identityChanged document cur)
    (\<lambda>_ st'. ok_trace J (snd st')) st"
proof -
  define cur1 where "cur1 = window_state cur windowInstanceID scheduledDown revision"
  have cur1: "State_FirstSeenAt cur1 = State_FirstSeenAt cur" "State_WorkloadUID cur1 = State_WorkloadUID cur"
    "State_ReplicaSnapshot cur1 = State_ReplicaSnapshot cur" "valid_state k cur \<Longrightarrow> valid_state k cur1" for k
    by (simp_all add: cur1_def window_state_def reconcileWindowCycle_def Let_def)
  have st1: "in_step (r_Sum256 r) current selected now (snd st) (put_state (workload_Key current) cur1 document) cur1"
    by (rule in_step_put[OF st cur1])
  have rest: "wp (State_Monad.bind (reconcile_override r current selected live scheduledDown document2 cur2)
      (\<lambda>overridden. case overridden of Inl err \<Rightarrow> ret (zeroDecision, Some err)
        | Inr (document, cur) \<Rightarrow>
            reconcile_decide r current selected now live windowName scheduledDown identityChanged document cur))
      (\<lambda>_ st'. ok_trace J (snd st')) st2"
    if "ok_trace J (snd st2)" "in_step (r_Sum256 r) current selected now (snd st2) document2 cur2" "live_read current (snd st2) live"
    for st2 document2 cur2
    unfolding wp_bind
    by (rule reconcile_override_rule[OF J that]) (auto simp: wp_return intro: reconcile_decide_rule[OF J])
  define redeployed where "redeployed \<longleftrightarrow> scheduledDown \<and> \<not> State_ScaleDownSkipped cur1 \<and> State_WindowEntryRevision cur1 \<noteq> [] \<and>
    State_WindowEntryRevision cur1 \<noteq> Rev_RevisionHash revision"
  let ?rest = "\<lambda>handled. case handled of
          Inl err \<Rightarrow> ret (zeroDecision, Some (Errorf ''handle redeploy during window for %s: %w'' [Str (workload_Key current)] [err]))
        | Inr (document, cur) \<Rightarrow> State_Monad.bind (reconcile_override r current selected live scheduledDown document cur)
      (\<lambda>overridden. case overridden of Inl err \<Rightarrow> ret (zeroDecision, Some err)
        | Inr (document, cur) \<Rightarrow>
            reconcile_decide r current selected now live windowName scheduledDown identityChanged document cur)"
  have code: "reconcile_window r current selected revision now live windowName scheduledDown windowInstanceID identityChanged document cur =
      State_Monad.bind (if redeployed then handleRedeployDuringWindow r (put_state (workload_Key current) cur1 document) cur1 live (workload_Key current)
        else ret (Inr (put_state (workload_Key current) cur1 document, cur1))) ?rest"
    unfolding reconcile_window_def Let_def cur1_def[symmetric] redeployed_def by (rule refl)
  show ?thesis
  proof (cases redeployed)
    case True
    show ?thesis unfolding code wp_bind if_P[OF True]
      by (rule handleRedeploy_rule[OF J ok st1 live]) (use rest in \<open>simp_all add: wp_return\<close>)
  next
    case False
    show ?thesis unfolding code wp_bind if_not_P[OF False] wp_return using rest[OF ok st1 live] by simp
  qed
qed

lemma reconcile_live_rule:
  assumes J: "J = justified (r_Sum256 r) current selected" and ok: "ok_trace J (snd st)"
    and st: "in_step (r_Sum256 r) current selected now (snd st) document cur"
  shows "wp (reconcile_live r current selected revision now identityChanged document cur) (\<lambda>_ st'. ok_trace J (snd st')) st"
  unfolding reconcile_live_def wp_bind
proof (rule read_rule, goal_cases)
  case (1 answer w')
  have just: "J (snd st) (ReadScale current answer)" by (simp add: J justified_def)
  show ?case
  proof (cases answer)
    case (Inl err)
    then show ?thesis using ok just by (simp add: wp_return)
  next
    case (Inr live)
    from 1[OF Inr] have "live_read current (snd st @ [ReadScale current answer]) live"
      by (auto simp: live_read_def Inr workload_Key_def)
    moreover have "in_step (r_Sum256 r) current selected now (snd st @ [ReadScale current answer]) document cur"
      by (rule in_step_snoc[OF st]) simp
    ultimately have "wp (reconcile_window r current selected revision now live n b i identityChanged document cur)
        (\<lambda>_ st'. ok_trace J (snd st')) (w', snd st @ [ReadScale current answer])" for n b i
      using ok just by (intro reconcile_window_rule[OF J]) auto
    then show ?thesis using ok just unfolding Inr sum.case
      by (auto simp: wp_return split: sum.split prod.split)
  qed
qed

lemma identity_good:
  assumes states: "Doc_States document = Some states"
    and id: "reconcileIdentity (lookup_state states (workload_Key current)) current selected revision (UTC t) = (cur, changed)"
    and rev: "CalculateRevision Sum256 cs spec = Inr revision" and d: "valid_document document" "Loaded (Inr document) \<in> set tr"
    and t: "Clocked t \<in> set tr" and wf: "wf_input Sum256 current selected" "sane (workload_Key current) tr"
  shows "valid_state (workload_Key current) cur \<and> utc_set (UTC t)"
proof -
  have "\<not> IsZero t" and first: "state_of (workload_Key current) document = Some s \<Longrightarrow> t_ns (State_FirstSeenAt s) \<le> t_ns t" for s
    using wf(2) t d(2) unfolding sane_def by blast+
  then have "utc_set (UTC t)" by (simp add: utc_set_def)
  then show ?thesis using reconcileIdentity_valid[OF states id wf(1) rev d(1)] first by simp
qed

lemma reconcile_loaded_rule:
  assumes J: "J = justified (r_Sum256 r) current selected" and ok: "ok_trace J (snd st)"
    and d: "durable (snd st) = Some document" "valid_document document" "Loaded (Inr document) \<in> set (snd st)"
    and t: "Clocked t \<in> set (snd st)"
    and rev: "CalculateRevision (r_Sum256 r) cs spec = Inr revision"
  shows "wp (reconcile_loaded r current selected revision (UTC t) document) (\<lambda>_ st'. ok_trace J (snd st')) st"
proof -
  obtain states where states: "Doc_States document = Some states"
    using d(2) by (auto simp: valid_document_def split: option.splits)
  obtain cur changed where id: "reconcileIdentity (lookup_state states (workload_Key current)) current selected revision (UTC t) = (cur, changed)"
    by fastforce
  note facts = reconcileIdentity_facts[OF states id]
  define doc1 where "doc1 = put_state (workload_Key current) cur document"
  have good: "valid_state (workload_Key current) cur \<and> utc_set (UTC t)"
    if "wf_input (r_Sum256 r) current selected" "sane (workload_Key current) (snd st)"
    by (rule identity_good[OF states id rev d(2,3) t that])
  have code: "reconcile_loaded r current selected revision (UTC t) document = State_Monad.bind
      (if changed then r_save r doc1 (workload_Key current) ''persist revision baseline'' else ret None)
      (\<lambda>saved. case saved of Some err \<Rightarrow> ret (zeroDecision, Some err)
         | None \<Rightarrow> reconcile_live r current selected revision (UTC t) changed doc1 cur)"
    unfolding reconcile_loaded_def states option.case id prod.case Let_def doc1_def by (rule refl)
  show ?thesis
  proof (cases changed)
    case False
    have "in_step (r_Sum256 r) current selected (UTC t) (snd st) doc1 cur"
      using facts(2)[OF False] facts(1) d(1,2) t good unfolding in_step_def doc1_def by (auto simp: valid_document_put)
    from reconcile_live_rule[OF J ok this] show ?thesis
      unfolding code wp_bind if_not_P[OF False] wp_return by simp
  next
    case True
    have "snapshot_step current selected (snd st) document doc1"
      using facts(3,4) valid_document_lookup[OF d(2)]
      by (cases "state_of (workload_Key current) document")
        (fastforce simp: snapshot_step_def snapshot_of_def doc1_def valid_state_def split: option.splits)+
    then have just: "J (snd st) (Saved doc1 a)" for a
      using d(1,2) good unfolding J by (auto simp: justified_def doc1_def valid_document_put)
    have "in_step (r_Sum256 r) current selected (UTC t) (snd st @ [Saved doc1 None]) doc1 cur"
      using facts(1) d(2) t good sane_snoc unfolding in_step_def doc1_def by (auto simp: valid_document_put)
    then have "wp (reconcile_live r current selected revision (UTC t) changed doc1 cur) (\<lambda>_ st'. ok_trace J (snd st'))
        (w', snd st @ [Saved doc1 None])" for w'
      using ok just by (intro reconcile_live_rule[OF J]) auto
    then show ?thesis
      unfolding code wp_bind if_P[OF True]
      by (intro r_save_rule) (use ok just in \<open>auto simp: wp_return\<close>)
  qed
qed

lemma Reconcile_justified:
  "wp (Reconcile r current selected) (\<lambda>_ st'. ok_trace (justified (r_Sum256 r) current selected) (snd st')) (w, [])"
proof -
  define J where "J = justified (r_Sum256 r) current selected"
  have neutral: "J tr (Evaluated v a)" "J tr (Clocked t)" "J tr (Loaded x)" for tr v a t x
    by (simp_all add: J_def justified_def)
  have load: "wp (r_Load r) (\<lambda>loaded. wp (case loaded of
        Inl err \<Rightarrow> ret (zeroDecision, Some (Errorf ''load state for %s: %w'' [Str (workload_Key current)] [err]))
      | Inr document \<Rightarrow> reconcile_loaded r current selected revision (UTC t) document)
      (\<lambda>_ st'. ok_trace J (snd st'))) (w', [Evaluated current a, Clocked t])"
    if rev: "CalculateRevision (r_Sum256 r) (Workload_Containers current) (Revision_Spec (Policy_Lifecycle selected)) = Inr revision"
    for revision a t w'
  proof (rule load_rule, goal_cases)
    case (1 loaded w2)
    have ok: "ok_trace J [Evaluated current a, Clocked t, Loaded loaded]"
      using neutral ok_trace_snoc[of J "[Evaluated current a, Clocked t]" "Loaded loaded"]
        ok_trace_snoc2[of J "[]" "Evaluated current a" "Clocked t"] by simp
    show ?case
    proof (cases loaded)
      case (Inl err)
      then show ?thesis using ok by (simp add: wp_return)
    next
      case (Inr document)
      have "durable [Evaluated current a, Clocked t, Loaded loaded] = Some document"
        using durable_snoc[of "[Evaluated current a, Clocked t]" "Loaded loaded"] by (simp add: Inr)
      then show ?thesis unfolding Inr sum.case
        using ok 1[OF Inr] by (intro reconcile_loaded_rule[OF J_def _ _ _ _ _ rev]) (auto simp: Inr)
    qed
  qed
  have one: "ok_trace J [Evaluated v a]" for v a using neutral ok_trace_snoc[of J "[]"] by simp
  show ?thesis
    unfolding Reconcile_def wp_bind J_def[symmetric]
    by (rule evaluate_rule)
      (auto simp: wp_return wp_bind one split: option.split sum.split intro!: now_rule load)
qed

end

lemma wp_logged_law: "wp m P (fst st) \<Longrightarrow> (\<And>a w'. P a w' \<Longrightarrow> Q a (w', snd st @ [ev a])) \<Longrightarrow> wp (logged ev m) Q st"
  by (simp add: wp_logged wp_mono)

lemma scale_Read_identity:
  "wp (scale_Read c w) (\<lambda>a _. \<forall>live. a = Inr live \<longrightarrow> (\<exists>n. live = w\<lparr>Workload_CurrentReplicas := n\<rparr>)) s"
  unfolding scale_Read_def wp_bind by (rule wp_any) (auto simp: wp_return split: sum.splits)

interpretation kube: reconciler_deps "traced (kube_reconciler apps store clock Sum256 LoadLocation)"
  for apps store clock Sum256 LoadLocation
proof unfold_locales
  let ?r = "kube_reconciler apps store clock Sum256 LoadLocation"
  show "(\<And>a w'. (\<And>d. a = Inr d \<Longrightarrow> valid_document d) \<Longrightarrow> Q a (w', snd st @ [Loaded a])) \<Longrightarrow> wp (r_Load (traced ?r)) Q st" for Q st
    unfolding traced_def kube_reconciler_def by (simp, rule wp_logged_law[OF store_Load_valid]) auto
  show "(\<And>a w'. (\<And>live. a = Inr live \<Longrightarrow> \<exists>n. live = w\<lparr>Workload_CurrentReplicas := n\<rparr>) \<Longrightarrow>
      Q a (w', snd st @ [ReadScale w a])) \<Longrightarrow> wp (r_Read (traced ?r) w) Q st" for w Q st
    unfolding traced_def kube_reconciler_def by (simp, rule wp_logged_law[OF scale_Read_identity]) auto
qed (simp_all add: traced_def wp_logged_any)


text \<open>Recording does not change what a reconciliation does.\<close>

lemma traced_simps [simp]: "r_Sum256 (traced r) = r_Sum256 r" "r_LoadLocation (traced r) = r_LoadLocation r"
  by (simp_all add: traced_def)

lemma erases_traced [erases_intros]:
  "erases (r_Evaluate (traced r) v) (r_Evaluate r v)" "erases (r_Now (traced r)) (r_Now r)"
  "erases (r_Load (traced r)) (r_Load r)" "erases (r_Save (traced r) d) (r_Save r d)"
  "erases (r_Read (traced r) v) (r_Read r v)" "erases (r_Update (traced r) v n) (r_Update r v n)"
  "erases (r_Delete (traced r) v) (r_Delete r v)"
  by (simp_all add: traced_def erases_intros)

lemma erases_small [erases_intros]:
  "erases (r_save (traced r) d key operation) (r_save r d key operation)"
  "erases (r_updateScale (traced r) v n reason) (r_updateScale r v n reason)"
  by (auto simp: r_save_def r_updateScale_def intro!: erases_intros)

lemma erases_parts [erases_intros]:
  "erases (handleRedeployDuringWindow (traced r) document cur live key) (handleRedeployDuringWindow r document cur live key)"
  "erases (reconcile_override (traced r) current selected live b document cur) (reconcile_override r current selected live b document cur)"
  "erases (applyDecision (traced r) live dec document cur b now) (applyDecision r live dec document cur b now)"
  by (auto simp: handleRedeployDuringWindow_def reconcile_override_def applyDecision_def Let_def intro!: erases_intros)

lemma erases_Reconcile: "erases (Reconcile (traced r) current selected) (Reconcile r current selected)"
  by (auto simp: Reconcile_def reconcile_loaded_def reconcile_live_def reconcile_window_def reconcile_decide_def Let_def
      intro!: erases_intros)

section \<open>Properties of a reconciliation\<close>

definition reconcile_trace ::
  "'w apps_client \<Rightarrow> 'w ConfigMapStateStore \<Rightarrow> ('w, gotime) io \<Rightarrow> (string \<Rightarrow> string) \<Rightarrow> (string \<Rightarrow> location result) \<Rightarrow>
   Workload \<Rightarrow> Policy \<Rightarrow> 'w \<Rightarrow> action list" where
  "reconcile_trace apps store clock Sum256 LoadLocation current selected w =
     snd (snd (run_state (Reconcile (traced (kube_reconciler apps store clock Sum256 LoadLocation)) current selected) (w, [])))"

lemma ok_trace_mono: "ok_trace P tr \<Longrightarrow> (\<And>tr e. P tr e \<Longrightarrow> Q tr e) \<Longrightarrow> ok_trace Q tr"
  by (auto simp: ok_trace_def)

lemma reconcile_trace_justified:
  "ok_trace (justified Sum256 current selected) (reconcile_trace apps store clock Sum256 LoadLocation current selected w)"
  using kube.Reconcile_justified[of apps store clock Sum256 LoadLocation current selected w]
  by (simp add: reconcile_trace_def wp_fst_snd kube_reconciler_def)

definition scale_backed :: "Workload \<Rightarrow> Policy \<Rightarrow> action list \<Rightarrow> action \<Rightarrow> bool" where
  "scale_backed current selected tr e =
     (case e of
        UpdatedScale w n _ \<Rightarrow>
          workload_Key w = workload_Key current \<and>
          (\<exists>d snap. durable tr = Some d \<and> snapshot_of (workload_Key current) d = Some snap \<and> n \<le> Snap_Replicas snap \<and>
             n \<in> {Snap_Replicas snap, min (ScheduledDown (Policy_Replicas selected)) (Snap_Replicas snap),
                   min (Expired (Policy_Replicas selected)) (Snap_Replicas snap)})
      | _ \<Rightarrow> True)"

text \<open>
  C1: no scale write without a durable way back. Whenever a reconciliation writes a scale, to this
  workload and no other, the document stored at that moment (the last one loaded, or saved with
  success) holds a replica snapshot for it; and the count written is the snapshot itself or the
  smaller of it and one of the policy's two targets, so it never exceeds the original count. This
  holds for every behaviour of the API server, the clock and the other dependencies, failures included.
\<close>

theorem Reconcile_scale_backed_by_snapshot:
  "ok_trace (scale_backed current selected) (reconcile_trace apps store clock Sum256 LoadLocation current selected w)"
  by (rule ok_trace_mono[OF reconcile_trace_justified]) (auto simp: justified_def scale_backed_def split: action.splits)

definition snapshot_kept :: "Workload \<Rightarrow> Policy \<Rightarrow> action list \<Rightarrow> action \<Rightarrow> bool" where
  "snapshot_kept current selected tr e =
     (case e of
        Saved d _ \<Rightarrow> (\<exists>d0. durable tr = Some d0 \<and> snapshot_step current selected tr d0 d)
      | _ \<Rightarrow> True)"

text \<open>
  C4: a stored snapshot is never altered, and it is dropped only with a reason: right after a
  successful write of its count to the workload's scale, right after the workload was deleted, when
  the live count was found above the scheduled target, which the controller takes as an override, or
  when the stored state belongs to another object of that name. A snapshot that appears holds a count
  read in the same reconciliation.
\<close>

theorem Reconcile_keeps_snapshot:
  "ok_trace (snapshot_kept current selected) (reconcile_trace apps store clock Sum256 LoadLocation current selected w)"
  by (rule ok_trace_mono[OF reconcile_trace_justified]) (auto simp: justified_def snapshot_kept_def split: action.splits)

definition deletes_expired :: "Workload \<Rightarrow> Policy \<Rightarrow> action list \<Rightarrow> action \<Rightarrow> bool" where
  "deletes_expired current selected tr e =
     (case e of
        DeletedWorkload w _ \<Rightarrow>
          workload_Key w = workload_Key current \<and> ExpiredAction (Policy_Lifecycle selected) = ''delete'' \<and>
          (\<exists>t d s. Clocked t \<in> set tr \<and> durable tr = Some d \<and> state_of (workload_Key current) d = Some s \<and>
             State_WorkloadUID s = Workload_UID current \<and>
             t_ns (State_FirstSeenAt s) + MaxAge (Policy_Lifecycle selected) \<le> t_ns t)
      | _ \<Rightarrow> True)"

text \<open>
  C5: a workload is deleted only when its policy says so and its age is proven by stored state: the
  expired action is delete, and the stored document has a state of this very object (same UID) whose
  first sight lies at least the maximal age before the clock reading of this reconciliation.
\<close>

theorem Reconcile_deletes_only_expired:
  "ok_trace (deletes_expired current selected) (reconcile_trace apps store clock Sum256 LoadLocation current selected w)"
  by (rule ok_trace_mono[OF reconcile_trace_justified]) (auto simp: justified_def deletes_expired_def split: action.splits)

definition frame_kept :: "Workload \<Rightarrow> action list \<Rightarrow> action \<Rightarrow> bool" where
  "frame_kept current tr e =
     (case e of
        Saved d _ \<Rightarrow> (\<exists>d0. durable tr = Some d0 \<and> others (workload_Key current) d = others (workload_Key current) d0)
      | _ \<Rightarrow> True)"

text \<open>
  A reconciliation saves nothing before it has loaded the document, and what it saves differs
  from the stored document in the state of its own workload only.
\<close>

theorem Reconcile_frame:
  "ok_trace (frame_kept current) (reconcile_trace apps store clock Sum256 LoadLocation current selected w)"
  by (rule ok_trace_mono[OF reconcile_trace_justified]) (auto simp: justified_def frame_kept_def split: action.splits)

definition saves_valid :: "Workload \<Rightarrow> action list \<Rightarrow> action \<Rightarrow> bool" where
  "saves_valid current tr e =
     (case e of Saved d _ \<Rightarrow> sane (workload_Key current) tr \<longrightarrow> ValidateDocument d = None | _ \<Rightarrow> True)"

text \<open>
  C25: whatever a reconciliation saves passes the store's validation, provided the workload and the
  policy have the names every Kubernetes object and every compiled policy has, a digest has 32 bytes,
  the clock is set and does not run behind the recorded first sight, and replica counts are not
  negative. Saving never fails because the controller built a malformed state.
\<close>

theorem Reconcile_saves_valid_documents:
  assumes "wf_input Sum256 current selected"
  shows "ok_trace (saves_valid current) (reconcile_trace apps store clock Sum256 LoadLocation current selected w)"
  by (rule ok_trace_mono[OF reconcile_trace_justified])
    (use assms in \<open>auto simp: justified_def saves_valid_def spec_iff split: action.splits\<close>)

text \<open>
  C36: admission comes first, and it fails closed. Unless the workload is of a supported kind, the HPAs of the
  whole cluster could be listed and none of them targets the workload, the reconciliation ends with the
  admission check, with an error that wraps the reason of the rejection: nothing is read, saved, scaled
  or deleted, and the cluster is as the listing left it.
\<close>

theorem Reconcile_admission_fails_closed:
  assumes "\<not> (supported_kind (Workload_Kind current) \<and>
    (\<exists>hpas. fst (run_state (HPAs_List apps NamespaceAll) w) = Inr hpas \<and> \<not> (\<exists>h \<in> set hpas. hpaTargetsWorkload h current)))"
  shows "\<exists>err rejection evaluation.
    run_state (Reconcile (traced (kube_reconciler apps store clock Sum256 LoadLocation)) current selected) (w, []) =
      ((zeroDecision, Some err), (snd (run_state (hpa_Evaluate apps current) w), [Evaluated current evaluation])) \<and>
    Rejection evaluation = Some rejection \<and> errors_Is err rejection"
proof -
  obtain evaluation w1 where run: "run_state (hpa_Evaluate apps current) w = (evaluation, w1)" by fastforce
  then obtain rejection where "Rejection evaluation = Some rejection"
    using assms hpa_Evaluate_fail_closed[of apps current w] by auto
  with run show ?thesis by (simp add: Reconcile_def traced_def kube_reconciler_def run_logged)
qed

text \<open>Dependencies for examples: a digest of 32 zero bytes, and a state store without a stored object.\<close>

definition zero_digest :: "string \<Rightarrow> string" where
  "zero_digest _ = replicate 32 (CHR 0x00)"

definition blank_store :: "int ConfigMapStateStore" where
  "blank_store = NewConfigMapStateStore
     \<lparr>cm_Get = \<lambda>_. ret (Inl api_notfound), cm_Create = \<lambda>cm. ret (Inr cm), cm_Update = \<lambda>cm. ret (Inr cm),
      cm_ctx_Err = ret None, cm_timer = \<lambda>_. ret None,
      IsNotFound = \<lambda>e. e = api_notfound, IsConflict = \<lambda>_. False, IsAlreadyExists = \<lambda>_. False\<rparr>
     two_documents ''kwlm'' ''state''"

theorem Reconcile_saves_valid_documents_witness:
  "wf_input zero_digest sample_workload (worker_policy ''base'' 1) \<and>
   ok_trace (saves_valid sample_workload) (reconcile_trace one_workload blank_store (ret friday_evening) zero_digest
     (\<lambda>_. Inr (FixedZone 28800)) sample_workload (worker_policy ''base'' 1) 5)"
proof -
  have wf: "wf_input zero_digest sample_workload (worker_policy ''base'' 1)"
    by (simp add: wf_input_def zero_digest_def sample_workload_def)
  show ?thesis using wf Reconcile_saves_valid_documents[OF wf] by simp
qed

definition api_hpa :: HPA where
  "api_hpa = \<lparr>HPA_Namespace = ''shop'', HPA_Name = ''api-hpa'', HPA_TargetAPIVersion = ''apps/v1'',
     HPA_TargetKind = ''Deployment'', HPA_TargetName = ''api''\<rparr>"

theorem Reconcile_admission_fails_closed_witness:
  "\<exists>err rejection evaluation. run_state (Reconcile (traced (kube_reconciler (one_workload\<lparr>HPAs_List := \<lambda>_. ret (Inr [api_hpa])\<rparr>) blank_store
       (ret friday_evening) zero_digest (\<lambda>_. Inr (FixedZone 28800)))) sample_workload (worker_policy ''base'' 1)) (5, []) =
      ((zeroDecision, Some err), (5, [Evaluated sample_workload evaluation])) \<and>
    Rejection evaluation = Some rejection \<and> errors_Is err rejection"
proof -
  let ?apps = "one_workload\<lparr>HPAs_List := \<lambda>_. ret (Inr [api_hpa])\<rparr>"
  have targeted: "hpaTargetsWorkload api_hpa sample_workload"
    by (simp add: hpaTargetsWorkload_def api_hpa_def sample_workload_def)
  then have "\<not> (supported_kind (Workload_Kind sample_workload) \<and>
      (\<exists>hpas. fst (run_state (HPAs_List ?apps NamespaceAll) 5) = Inr hpas \<and> \<not> (\<exists>h \<in> set hpas. hpaTargetsWorkload h sample_workload)))" by simp
  from Reconcile_admission_fails_closed[OF this] show ?thesis by (simp add: hpa_Evaluate_def client_simps)
qed

end
