(* ===== verification/Reconcile_Machine.thy ===== *)
theory Reconcile_Machine
  imports Transition
begin

text \<open>
  What a reconciliation does to one workload when every dependency does its work, as a pure function on
  a small abstract state: the machine that the transition of \<open>Transition\<close> implements with loads, saves,
  scale writes and deletions. The refinement theorem lets whole histories of a workload be computed on
  the machine.
\<close>

section \<open>A world in memory\<close>

text \<open>The stored document, the live replica count and the clock. Every call succeeds.\<close>

record memory =
  mem_doc :: Document
  mem_replicas :: int
  mem_now :: gotime

definition memory_reconciler :: "(string \<Rightarrow> string) \<Rightarrow> (string \<Rightarrow> location result) \<Rightarrow> memory Reconciler" where
  "memory_reconciler Sum256 LoadLocation =
     \<lparr>r_Evaluate = \<lambda>w. ret (evaluate_items [] w), r_Now = State (\<lambda>m. (mem_now m, m)),
      r_Load = State (\<lambda>m. (Inr (mem_doc m), m)), r_Save = \<lambda>d. State (\<lambda>m. (None, m\<lparr>mem_doc := d\<rparr>)),
      r_Read = \<lambda>w. State (\<lambda>m. (Inr (w\<lparr>Workload_CurrentReplicas := mem_replicas m\<rparr>), m)),
      r_Update = \<lambda>w n. State (\<lambda>m. (None, m\<lparr>mem_replicas := n\<rparr>)),
      r_Delete = \<lambda>w. State (\<lambda>m. (None, m\<lparr>mem_replicas := 0\<rparr>)),
      r_Sum256 = Sum256, r_LoadLocation = LoadLocation\<rparr>"

text \<open>
  The same, with what the store and the admission check look at: the store rejects a document that does
  not pass validation, when it is saved as well as when it is loaded, and HPAs are listed.
\<close>

definition checked_reconciler :: "(string \<Rightarrow> string) \<Rightarrow> (string \<Rightarrow> location result) \<Rightarrow> HPA list \<Rightarrow> memory Reconciler" where
  "checked_reconciler Sum256 LoadLocation hpas = (memory_reconciler Sum256 LoadLocation)
     \<lparr>r_Evaluate := \<lambda>w. ret (evaluate_items hpas w),
      r_Load := State (\<lambda>m. (case ValidateDocument (mem_doc m) of Some err \<Rightarrow> Inl err | None \<Rightarrow> Inr (mem_doc m), m)),
      r_Save := \<lambda>d. State (\<lambda>m. case ValidateDocument (normalizeDocument d) of
          Some err \<Rightarrow> (Some err, m) | None \<Rightarrow> (None, m\<lparr>mem_doc := normalizeDocument d\<rparr>))\<rparr>"

section \<open>The machine\<close>

text \<open>
  The phase of a workload: whose state it is, since when its revision has been seen, the replica count to
  restore, the open window with the revision it was entered with, and the reason why the window is
  skipped, if it is.
\<close>

record phase =
  ph_uid :: string
  ph_tracking :: string
  ph_revision :: string
  ph_first :: gotime
  ph_snapshot :: "int option"
  ph_entry :: string
  ph_instance :: string
  ph_skip :: "string option"

definition phase_of :: "WorkloadState \<Rightarrow> phase" where
  "phase_of s = \<lparr>ph_uid = State_WorkloadUID s, ph_tracking = State_TrackingSpecHash s, ph_revision = State_RevisionHash s,
     ph_first = State_FirstSeenAt s, ph_snapshot = map_option Snap_Replicas (State_ReplicaSnapshot s),
     ph_entry = State_WindowEntryRevision s, ph_instance = State_WindowInstanceID s,
     ph_skip = (if State_ScaleDownSkipped s then Some (State_ScaleDownSkipReason s) else None)\<rparr>"

text \<open>Which window the schedule is in: its name, whether one is open, and the instance.\<close>

definition schedule_at :: "(string \<Rightarrow> location result) \<Rightarrow> gotime \<Rightarrow> Schedule option \<Rightarrow> (string \<times> bool \<times> string) result" where
  "schedule_at LoadLocation now configured =
     (case matchSchedule LoadLocation now configured of
        Inl err \<Rightarrow> Inl err
      | Inr (name, down) \<Rightarrow>
          (case (if down \<and> name \<noteq> [] then computeWindowInstanceID LoadLocation now configured name else Inr []) of
             Inl err \<Rightarrow> Inl err
           | Inr inst \<Rightarrow> Inr (name, down, inst)))"

text \<open>The workload is seen: a new object starts afresh, a new revision starts its age.\<close>

definition seen :: "string \<Rightarrow> LifecycleRevision \<Rightarrow> gotime \<Rightarrow> phase option \<Rightarrow> phase \<times> bool" where
  "seen uid revision now previous =
     (case previous of
        Some p \<Rightarrow>
          if ph_uid p \<noteq> [] \<and> ph_uid p = uid then
            (let same = (ph_tracking p = Rev_TrackingSpecHash revision \<and> ph_revision p = Rev_RevisionHash revision)
             in (p\<lparr>ph_tracking := Rev_TrackingSpecHash revision, ph_revision := Rev_RevisionHash revision,
                   ph_first := if same then ph_first p else now\<rparr>, \<not> same))
          else (\<lparr>ph_uid = uid, ph_tracking = Rev_TrackingSpecHash revision, ph_revision = Rev_RevisionHash revision,
                 ph_first = now, ph_snapshot = None, ph_entry = [], ph_instance = [], ph_skip = None\<rparr>, True)
      | None \<Rightarrow> (\<lparr>ph_uid = uid, ph_tracking = Rev_TrackingSpecHash revision, ph_revision = Rev_RevisionHash revision,
                 ph_first = now, ph_snapshot = None, ph_entry = [], ph_instance = [], ph_skip = None\<rparr>, True))"

text \<open>Windows are left and entered: a new window forgets the skip and records the revision.\<close>

definition enter :: "string \<Rightarrow> bool \<Rightarrow> string \<Rightarrow> phase \<Rightarrow> phase" where
  "enter revision down inst p =
     (let p = (if \<not> down \<or> inst \<noteq> ph_instance p then p\<lparr>ph_entry := [], ph_instance := [], ph_skip := None\<rparr> else p)
      in if down \<and> inst \<noteq> [] \<and> ph_entry p = [] then p\<lparr>ph_entry := revision, ph_instance := inst\<rparr> else p)"

definition redeployed :: "string \<Rightarrow> bool \<Rightarrow> phase \<Rightarrow> bool" where
  "redeployed revision down p \<longleftrightarrow> down \<and> ph_skip p = None \<and> ph_entry p \<noteq> [] \<and> ph_entry p \<noteq> revision"

definition overridden :: "int \<Rightarrow> bool \<Rightarrow> int \<Rightarrow> phase \<Rightarrow> bool" where
  "overridden target down live p \<longleftrightarrow> down \<and> ph_skip p = None \<and> ph_snapshot p \<noteq> None \<and> target < live"

text \<open>
  A redeploy inside the window restores the count and skips the window, an override skips it as it is.
  The result is the phase, the replica count, and whether the phase has been stored on the way.
\<close>

definition settle :: "string \<Rightarrow> int \<Rightarrow> bool \<Rightarrow> phase \<Rightarrow> int \<Rightarrow> phase \<times> int \<times> bool" where
  "settle revision target down p live =
     (if redeployed revision down p
      then (p\<lparr>ph_snapshot := None, ph_skip := Some ReasonScaleDownSkipped\<rparr>,
            case ph_snapshot p of None \<Rightarrow> live | Some n \<Rightarrow> n, True)
      else if overridden target down live p
      then (p\<lparr>ph_snapshot := None, ph_skip := Some ReasonScaleDownSkippedReplicaOverride\<rparr>, live, True)
      else (p, live, False))"

definition phase_input :: "gotime \<Rightarrow> Policy \<Rightarrow> int \<Rightarrow> string \<Rightarrow> bool \<Rightarrow> phase \<Rightarrow> DecisionInput" where
  "phase_input now selected live name down p =
     \<lparr>In_Now = now, In_FirstSeenAt = ph_first p, In_MaxAge = MaxAge (Policy_Lifecycle selected),
      In_CurrentReplicas = live, In_SnapshotReplicas = ph_snapshot p, In_ScheduledDown = down, In_ScheduledWindowName = name,
      In_ScheduledTarget = ScheduledDown (Policy_Replicas selected), In_ExpiredTarget = Expired (Policy_Replicas selected),
      In_ScaleDownSkipped = (ph_skip p \<noteq> None), In_ScaleDownSkipReason = (case ph_skip p of None \<Rightarrow> [] | Some r \<Rightarrow> r),
      In_ExpiredAction = ExpiredAction (Policy_Lifecycle selected)\<rparr>"

text \<open>
  One reconciliation. A new identity is stored before the window is looked at, and when nothing happens
  afterwards it is not stored again: then the window marks of this step are lost.
\<close>

definition machine_act :: "Policy \<Rightarrow> Decision \<Rightarrow> int \<Rightarrow> phase \<Rightarrow> int \<Rightarrow> phase \<Rightarrow> phase option \<times> int" where
  "machine_act selected d live p n unchanged =
     (if DeleteWorkload d then (None, 0)
      else if NeedsSnapshot d then (Some (p\<lparr>ph_snapshot := Some live\<rparr>), if ShouldScale d then DesiredReplicas d else n)
      else if ClearSnapshotAfterScale d then (Some (p\<lparr>ph_snapshot := None\<rparr>), DesiredReplicas d)
      else if ShouldScale d then (Some p, DesiredReplicas d)
      else (Some unchanged, n))"

definition machine_window ::
  "Policy \<Rightarrow> string \<Rightarrow> gotime \<Rightarrow> string \<times> bool \<times> string \<Rightarrow> int \<Rightarrow> bool \<Rightarrow> phase \<Rightarrow> Decision \<times> phase option \<times> int" where
  "machine_window selected revision now window live new p1 =
     (case window of (name, down, inst) \<Rightarrow>
        case settle revision (ScheduledDown (Policy_Replicas selected)) down (enter revision down inst p1) live of (p, n, stored) \<Rightarrow>
          let d = Decide (phase_input now selected live name down p)
          in (d, machine_act selected d live p n (if new \<and> \<not> stored then p1 else p)))"

definition machine_step ::
  "Policy \<Rightarrow> string \<Rightarrow> LifecycleRevision \<Rightarrow> gotime \<Rightarrow> string \<times> bool \<times> string \<Rightarrow> phase option \<times> int \<Rightarrow>
   Decision \<times> phase option \<times> int" where
  "machine_step selected uid revision now window before =
     (case seen uid revision now (fst before) of (p1, new) \<Rightarrow>
        machine_window selected (Rev_RevisionHash revision) now window (snd before) new p1)"

section \<open>Refinement\<close>

definition abs_memory :: "string \<Rightarrow> memory \<Rightarrow> phase option \<times> int" where
  "abs_memory key m = (map_option phase_of (state_of key (mem_doc m)), mem_replicas m)"

lemma workload_Key_replicas [simp]: "workload_Key (w\<lparr>Workload_CurrentReplicas := n\<rparr>) = workload_Key w"
  by (simp add: workload_Key_def)

text \<open>Each step of the code on the stored state is the step of the machine on its phase.\<close>

lemma phase_of_identity:
  assumes "Doc_States d = Some states"
  shows "seen (Workload_UID current) revision now (map_option phase_of (state_of key d)) =
    apfst phase_of (reconcileIdentity (lookup_state states key) current selected revision now)"
proof -
  have look: "state_of key d = map_of states key" using assms by (simp add: state_of_def)
  show ?thesis
    by (cases "map_of states key")
      (simp_all add: look reconcileIdentity_def seen_def lookup_state_def phase_of_def zeroState_def Let_def)
qed

lemma phase_of_window: "phase_of (window_state s inst down revision) = enter (Rev_RevisionHash revision) down inst (phase_of s)"
  by (auto simp: window_state_def reconcileWindowCycle_def enter_def phase_of_def Let_def)

lemma phase_of_simps [simp]:
  "ph_snapshot (phase_of s) = map_option Snap_Replicas (State_ReplicaSnapshot s)" "ph_entry (phase_of s) = State_WindowEntryRevision s"
  "ph_skip (phase_of s) = None \<longleftrightarrow> \<not> State_ScaleDownSkipped s" "ph_first (phase_of s) = State_FirstSeenAt s"
  by (simp_all add: phase_of_def)

lemma phase_of_updates [simp]:
  "phase_of (s\<lparr>State_ReplicaSnapshot := x\<rparr>) = (phase_of s)\<lparr>ph_snapshot := map_option Snap_Replicas x\<rparr>"
  "phase_of (s\<lparr>State_ScaleDownSkipped := True, State_ScaleDownSkipReason := r\<rparr>) = (phase_of s)\<lparr>ph_skip := Some r\<rparr>"
  "phase_of (s\<lparr>State_ReplicaSnapshot := x, State_ScaleDownSkipped := True, State_ScaleDownSkipReason := r\<rparr>) =
     (phase_of s)\<lparr>ph_snapshot := map_option Snap_Replicas x, ph_skip := Some r\<rparr>"
  "phase_of (s\<lparr>State_ScaleDownSkipped := True, State_ScaleDownSkipReason := r, State_ReplicaSnapshot := x\<rparr>) =
     (phase_of s)\<lparr>ph_snapshot := map_option Snap_Replicas x, ph_skip := Some r\<rparr>"
  by (simp_all add: phase_of_def)

lemma Decide_reason_irrelevant: "\<not> In_ScaleDownSkipped i \<Longrightarrow> Decide (i\<lparr>In_ScaleDownSkipReason := r\<rparr>) = Decide i"
  unfolding Decide_def downDecision_def Let_def by (auto split: option.split)

lemma Decide_phase:
  "Decide (decision_input now selected live name down s) =
   Decide (phase_input now selected (Workload_CurrentReplicas live) name down (phase_of s))"
proof (cases "State_ScaleDownSkipped s")
  case True
  then show ?thesis by (simp add: decision_input_def phase_input_def phase_of_def)
next
  case False
  have "phase_input now selected (Workload_CurrentReplicas live) name down (phase_of s) =
      (decision_input now selected live name down s)\<lparr>In_ScaleDownSkipReason := []\<rparr>"
    using False by (simp add: decision_input_def phase_input_def phase_of_def)
  moreover have "\<not> In_ScaleDownSkipped (decision_input now selected live name down s)"
    using False by (simp add: decision_input_def)
  ultimately show ?thesis by (simp only: Decide_reason_irrelevant not_False_eq_True)
qed

lemma put_state_states [simp]: "\<exists>states. Doc_States (put_state key s d) = Some states"
  by (simp add: put_state_def)

lemma put_state_put [simp]: "put_state key s (put_state key s' d) = put_state key s d"
  by (simp add: put_state_def)

lemma remove_state_put: "state_of k (remove_state key (put_state key s d)) = state_of k (remove_state key d)"
  by simp

definition settle_state :: "string \<Rightarrow> int \<Rightarrow> bool \<Rightarrow> WorkloadState \<Rightarrow> int \<Rightarrow> WorkloadState \<times> int \<times> bool" where
  "settle_state revision target down s live =
     (if redeployed revision down (phase_of s)
      then (s\<lparr>State_ReplicaSnapshot := None, State_ScaleDownSkipped := True, State_ScaleDownSkipReason := ReasonScaleDownSkipped\<rparr>,
            case State_ReplicaSnapshot s of None \<Rightarrow> live | Some snap \<Rightarrow> Snap_Replicas snap, True)
      else if overridden target down live (phase_of s)
      then (s\<lparr>State_ScaleDownSkipped := True, State_ScaleDownSkipReason := ReasonScaleDownSkippedReplicaOverride,
              State_ReplicaSnapshot := None\<rparr>, live, True)
      else (s, live, False))"

lemma phase_of_settle: "settle revision target down (phase_of s) live = apfst phase_of (settle_state revision target down s live)"
  by (simp add: settle_def settle_state_def split: option.split)

section \<open>The transition in memory\<close>

text \<open>
  Both worlds in memory, as the transition sees them: which documents the store takes, and what a state and
  a snapshot must be like for the store to take a document with them; which workloads are admitted.
\<close>

locale memory_world =
  fixes r :: "memory Reconciler" and storable :: "Document \<Rightarrow> bool" and sound :: "string \<Rightarrow> WorkloadState \<Rightarrow> bool"
    and fine :: "ReplicaSnapshot \<Rightarrow> bool" and admitted :: "Workload \<Rightarrow> bool"
  assumes evaluate: "admitted w \<Longrightarrow> \<exists>e. run_state (r_Evaluate r w) m = (e, m) \<and> Rejection e = None"
    and load: "storable (mem_doc m) \<Longrightarrow> run_state (r_Load r) m = (Inr (mem_doc m), m)"
    and save: "storable d \<Longrightarrow> run_state (r_Save r d) m = (None, m\<lparr>mem_doc := d\<rparr>)"
    and run_calls [simp]: "run_state (r_Now r) m = (mem_now m, m)"
      "run_state (r_Read r w) m = (Inr (w\<lparr>Workload_CurrentReplicas := mem_replicas m\<rparr>), m)"
      "run_state (r_Update r w n) m = (None, m\<lparr>mem_replicas := n\<rparr>)"
      "run_state (r_Delete r w) m = (None, m\<lparr>mem_replicas := 0\<rparr>)"
    and storable_put: "storable d \<Longrightarrow> sound key s \<Longrightarrow> storable (put_state key s d)"
    and storable_remove: "storable d \<Longrightarrow> storable (remove_state key d)"
    and sound_marks: "sound key s \<Longrightarrow> sound key (s\<lparr>State_WindowEntryRevision := a\<rparr>)"
      "sound key s \<Longrightarrow> sound key (s\<lparr>State_WindowInstanceID := a\<rparr>)"
      "sound key s \<Longrightarrow> sound key (s\<lparr>State_ScaleDownSkipped := b\<rparr>)"
      "sound key s \<Longrightarrow> sound key (s\<lparr>State_ScaleDownSkipReason := a\<rparr>)"
      "sound key s \<Longrightarrow> sound key (s\<lparr>State_ReplicaSnapshot := None\<rparr>)"
    and sound_snapshot: "sound key s \<Longrightarrow> fine snap \<Longrightarrow> sound key (s\<lparr>State_ReplicaSnapshot := Some snap\<rparr>)"
begin

lemma run_small [simp]:
  "storable d \<Longrightarrow> run_state (r_save r d key op) m = (None, m\<lparr>mem_doc := d\<rparr>)"
  "run_state (r_updateScale r w n reason) m = (None, m\<lparr>mem_replicas := n\<rparr>)"
  by (simp_all add: r_save_def r_updateScale_def save)

lemmas stored = storable_put storable_remove sound_marks sound_snapshot

lemma sound_window: "sound key s \<Longrightarrow> sound key (window_state s inst down revision)"
  by (simp add: window_state_def reconcileWindowCycle_def Let_def stored)

lemma sound_settle: "sound key s \<Longrightarrow> settle_state revision target down s live = (s', n, b) \<Longrightarrow> sound key s'"
  by (auto simp: settle_state_def stored split: if_splits)

text \<open>The parts of the transition.\<close>

lemma run_redeploy:
  assumes "storable d" "sound key s"
  shows "run_state (handleRedeployDuringWindow r (put_state key s d) s live key) m =
     (let s' = s\<lparr>State_ReplicaSnapshot := None, State_ScaleDownSkipped := True, State_ScaleDownSkipReason := ReasonScaleDownSkipped\<rparr>
      in (Inr (put_state key s' d, s'), m\<lparr>mem_doc := put_state key s' d,
            mem_replicas := (case State_ReplicaSnapshot s of None \<Rightarrow> mem_replicas m | Some snap \<Rightarrow> Snap_Replicas snap)\<rparr>))"
  using assms by (simp add: handleRedeployDuringWindow_def Let_def stored split: option.split)

lemma run_override:
  assumes "storable d" "sound key s" "key = workload_Key current"
  shows "run_state (reconcile_override r current selected live down (put_state key s d) s) m =
    (if overridden (ScheduledDown (Policy_Replicas selected)) down (Workload_CurrentReplicas live) (phase_of s)
     then (let s' = s\<lparr>State_ScaleDownSkipped := True, State_ScaleDownSkipReason := ReasonScaleDownSkippedReplicaOverride,
             State_ReplicaSnapshot := None\<rparr> in (Inr (put_state key s' d, s'), m\<lparr>mem_doc := put_state key s' d\<rparr>))
     else (Inr (put_state key s d, s), m))"
  using assms by (auto simp: reconcile_override_def overridden_def Let_def stored)

lemma run_apply:
  assumes "storable d" "sound key s" "key = workload_Key live"
    and "NeedsSnapshot dec \<Longrightarrow> fine \<lparr>Snap_Replicas = Workload_CurrentReplicas live, Snap_CapturedAt = now, Snap_CapturedReason = Reason dec\<rparr>"
  shows "run_state (applyDecision r live dec (put_state key s d) s saved now) m =
    (None, if NeedsSnapshot dec
       then m\<lparr>mem_doc := put_state key (s\<lparr>State_ReplicaSnapshot := Some \<lparr>Snap_Replicas = Workload_CurrentReplicas live,
                Snap_CapturedAt = now, Snap_CapturedReason = Reason dec\<rparr>\<rparr>) d,
              mem_replicas := if ShouldScale dec then DesiredReplicas dec else mem_replicas m\<rparr>
     else if ClearSnapshotAfterScale dec
       then m\<lparr>mem_doc := put_state key (s\<lparr>State_ReplicaSnapshot := None\<rparr>) d, mem_replicas := DesiredReplicas dec\<rparr>
     else if ShouldScale dec then m\<lparr>mem_doc := put_state key s d, mem_replicas := DesiredReplicas dec\<rparr>
     else if saved then m else m\<lparr>mem_doc := put_state key s d\<rparr>)"
  using assms by (simp add: applyDecision_def Let_def stored)

lemma run_decide:
  assumes st: "storable d" "sound key s" "sound key s0"
    and snap: "\<And>reason. reason \<noteq> [] \<Longrightarrow> fine \<lparr>Snap_Replicas = n0, Snap_CapturedAt = now, Snap_CapturedReason = reason\<rparr>"
    and key: "key = workload_Key current" "key = workload_Key live" and n0: "Workload_CurrentReplicas live = n0"
    and dec: "dec = Decide (phase_input now selected n0 name down (phase_of s))"
    and saved: "saved \<Longrightarrow> mem_doc m = put_state key s0 d"
  obtains m' where
    "run_state (reconcile_decide r current selected now live name down saved (put_state key s d) s) m = ((dec, None), m')"
    "abs_memory key m' = machine_act selected dec n0 (phase_of s) (mem_replicas m) (phase_of (if saved then s0 else s))"
    "others key (mem_doc m') = others key d" "Doc_States (mem_doc m') \<noteq> None" "storable (mem_doc m')"
proof -
  have decide: "Decide (decision_input now selected live name down s) = dec" using dec n0 by (simp add: Decide_phase)
  have "NeedsSnapshot dec \<Longrightarrow> Reason dec \<noteq> []"
    using decide_cases(1)[of now selected live name down s] by (simp add: decide)
  then have need: "NeedsSnapshot dec \<Longrightarrow> fine \<lparr>Snap_Replicas = Workload_CurrentReplicas live, Snap_CapturedAt = now, Snap_CapturedReason = Reason dec\<rparr>"
    using snap n0 by simp
  note applied = run_apply[OF st(1,2) key(2) need]
  have doc: "Doc_States (remove_state key (put_state key s d)) \<noteq> None" by (simp add: remove_state_def put_state_def)
  have "run_state (reconcile_decide r current selected now live name down saved (put_state key s d) s) m =
      ((dec, None), if DeleteWorkload dec then m\<lparr>mem_replicas := 0, mem_doc := remove_state key (put_state key s d)\<rparr>
        else snd (run_state (applyDecision r live dec (put_state key s d) s saved now) m))"
    unfolding reconcile_decide_def decide Let_def using st by (simp add: applied stored save flip: key(1))
  then show thesis
    by (rule that; cases saved)
      (use doc saved n0 st need in \<open>simp_all add: applied abs_memory_def machine_act_def stored\<close>)
qed

lemma run_settle:
  assumes "storable d" "sound key s" "key = workload_Key current" "Workload_CurrentReplicas live = mem_replicas m"
  shows "run_state (State_Monad.bind
       (if down \<and> \<not> State_ScaleDownSkipped s \<and> State_WindowEntryRevision s \<noteq> [] \<and> State_WindowEntryRevision s \<noteq> revision
        then handleRedeployDuringWindow r (put_state key s d) s live key else ret (Inr (put_state key s d, s)))
       (\<lambda>handled. case handled of Inl err \<Rightarrow> f err
          | Inr (d, s) \<Rightarrow> State_Monad.bind (reconcile_override r current selected live down d s) (\<lambda>x. case x of
              Inl err \<Rightarrow> g err | Inr (d, s) \<Rightarrow> h d s))) m =
    (case settle_state revision (ScheduledDown (Policy_Replicas selected)) down s (mem_replicas m) of (s', n, stored) \<Rightarrow>
       run_state (h (put_state key s' d) s') (if stored then m\<lparr>mem_doc := put_state key s' d, mem_replicas := n\<rparr> else m))"
proof -
  let ?skip = "\<lambda>r. s\<lparr>State_ReplicaSnapshot := None, State_ScaleDownSkipped := True, State_ScaleDownSkipReason := r\<rparr>"
  have skipped: "\<not> overridden t down n (phase_of (?skip r))" "sound key (?skip r)" for t n r
    using assms(2) by (simp_all add: overridden_def stored)
  show ?thesis
    using assms(4) skipped
    by (auto simp: run_redeploy[OF assms(1,2)] run_override[OF assms(1) _ assms(3)] assms(2) settle_state_def redeployed_def Let_def
        simp del: phase_of_updates)
qed

lemma run_window:
  assumes st: "storable d" "sound key s"
    and snap: "\<And>reason. reason \<noteq> [] \<Longrightarrow> fine \<lparr>Snap_Replicas = mem_replicas m, Snap_CapturedAt = now, Snap_CapturedReason = reason\<rparr>"
    and key: "key = workload_Key current" "key = workload_Key live" and live: "Workload_CurrentReplicas live = mem_replicas m"
    and new: "new \<Longrightarrow> mem_doc m = put_state key s d"
  obtains dec m' where
    "run_state (reconcile_window r current selected revision now live name down inst new (put_state key s d) s) m = ((dec, None), m')"
    "machine_window selected (Rev_RevisionHash revision) now (name, down, inst) (mem_replicas m) new (phase_of s) = (dec, abs_memory key m')"
    "others key (mem_doc m') = others key d" "Doc_States (mem_doc m') \<noteq> None" "storable (mem_doc m')"
proof -
  define s1 where "s1 = window_state s inst down revision"
  have s1: "sound key s1" unfolding s1_def by (rule sound_window[OF st(2)])
  obtain s2 n stored where settled:
    "settle_state (Rev_RevisionHash revision) (ScheduledDown (Policy_Replicas selected)) down s1 (mem_replicas m) = (s2, n, stored)"
    by (metis prod_cases3)
  have s2: "sound key s2" by (rule sound_settle[OF s1 settled])
  define m2 where "m2 = (if stored then m\<lparr>mem_doc := put_state key s2 d, mem_replicas := n\<rparr> else m)"
  define dec where "dec = Decide (phase_input now selected (mem_replicas m) name down (phase_of s2))"
  define s0 where "s0 = (if stored then s2 else s)"
  have s0: "sound key s0" "new \<Longrightarrow> mem_doc m2 = put_state key s0 d" using new s2 st(2) by (simp_all add: m2_def s0_def)
  from run_decide[OF st(1) s2 s0(1) snap key live dec_def s0(2)]
  obtain m' where m': "run_state (reconcile_decide r current selected now live name down new (put_state key s2 d) s2) m2 = ((dec, None), m')"
    "abs_memory key m' = machine_act selected dec (mem_replicas m) (phase_of s2) (mem_replicas m2) (phase_of (if new then s0 else s2))"
    "others key (mem_doc m') = others key d" "Doc_States (mem_doc m') \<noteq> None" "storable (mem_doc m')" .
  have n: "mem_replicas m2 = n" using settled by (auto simp: m2_def settle_state_def split: if_splits)
  have "run_state (reconcile_window r current selected revision now live name down inst new (put_state key s d) s) m = ((dec, None), m')"
    unfolding reconcile_window_def Let_def key(1)[symmetric] s1_def[symmetric] put_state_put
      run_settle[OF st(1) s1 key(1) live]
    using settled m'(1) by (simp add: m2_def)
  moreover have "machine_window selected (Rev_RevisionHash revision) now (name, down, inst) (mem_replicas m) new (phase_of s) = (dec, abs_memory key m')"
    using m'(2) n by (simp add: machine_window_def phase_of_window[symmetric] phase_of_settle settled dec_def s0_def Let_def flip: s1_def)
  ultimately show thesis using m'(3-5) by (rule that)
qed

lemma run_live:
  assumes "schedule_at (r_LoadLocation r) now (Policy_Schedule selected) = Inr (name, down, inst)"
  shows "run_state (reconcile_live r current selected revision now new d s) m =
    run_state (reconcile_window r current selected revision now
      (current\<lparr>Workload_CurrentReplicas := mem_replicas m\<rparr>) name down inst new d s) m"
proof -
  have "matchSchedule (r_LoadLocation r) now (Policy_Schedule selected) = Inr (name, down)"
    "(if down \<and> name \<noteq> [] then computeWindowInstanceID (r_LoadLocation r) now (Policy_Schedule selected) name else Inr []) = Inr inst"
    using assms by (auto simp: schedule_at_def split: sum.splits prod.splits if_splits)
  then show ?thesis by (simp only: reconcile_live_def run_calls run_state_bind sum.case prod.case)
qed

lemma reconcile_machine:
  assumes "CalculateRevision (r_Sum256 r) (Workload_Containers current) (Revision_Spec (Policy_Lifecycle selected)) = Inr revision"
    and "schedule_at (r_LoadLocation r) (UTC (mem_now m)) (Policy_Schedule selected) = Inr window"
    and states: "Doc_States (mem_doc m) = Some states" and "storable (mem_doc m)" "admitted current"
    and sound: "sound (workload_Key current) (fst (reconcileIdentity (lookup_state states (workload_Key current)) current selected revision (UTC (mem_now m))))"
    and snap: "\<And>reason. reason \<noteq> [] \<Longrightarrow> fine \<lparr>Snap_Replicas = mem_replicas m, Snap_CapturedAt = UTC (mem_now m), Snap_CapturedReason = reason\<rparr>"
  shows "\<exists>dec m'. run_state (Reconcile r current selected) m = ((dec, None), m') \<and>
    machine_step selected (Workload_UID current) revision (UTC (mem_now m)) window (abs_memory (workload_Key current) m) =
      (dec, abs_memory (workload_Key current) m') \<and>
    others (workload_Key current) (mem_doc m') = others (workload_Key current) (mem_doc m) \<and> Doc_States (mem_doc m') \<noteq> None \<and>
    storable (mem_doc m')"
proof -
  let ?key = "workload_Key current"
  obtain s new where id: "reconcileIdentity (lookup_state states ?key) current selected revision (UTC (mem_now m)) = (s, new)" by fastforce
  have s: "sound ?key s" using sound by (simp add: id)
  obtain name down inst where win: "window = (name, down, inst)" by (metis prod_cases3)
  define m1 where "m1 = (if new then m\<lparr>mem_doc := put_state ?key s (mem_doc m)\<rparr> else m)"
  have replicas: "mem_replicas m1 = mem_replicas m" by (simp add: m1_def)
  define live where "live = current\<lparr>Workload_CurrentReplicas := mem_replicas m\<rparr>"
  obtain dec m' where m': "run_state (reconcile_window r current selected revision (UTC (mem_now m)) live name down inst
      new (put_state ?key s (mem_doc m)) s) m1 = ((dec, None), m')"
    "machine_window selected (Rev_RevisionHash revision) (UTC (mem_now m)) (name, down, inst) (mem_replicas m1) new (phase_of s) =
       (dec, abs_memory ?key m')"
    "others ?key (mem_doc m') = others ?key (mem_doc m)" "Doc_States (mem_doc m') \<noteq> None" "storable (mem_doc m')"
    by (rule run_window[OF assms(4) s, of m1 "UTC (mem_now m)" current live new selected revision name down inst])
      (auto simp: live_def replicas m1_def intro: snap)
  have "run_state (reconcile_live r current selected revision (UTC (mem_now m)) new (put_state ?key s (mem_doc m)) s) m1 = ((dec, None), m')"
    using m'(1) by (simp add: run_live[OF assms(2)[unfolded win]] live_def replicas)
  moreover obtain e where "run_state (r_Evaluate r current) m = (e, m)" "Rejection e = None" using evaluate[OF assms(5)] by blast
  ultimately have "run_state (Reconcile r current selected) m = ((dec, None), m')"
    using assms(1) states id storable_put[OF assms(4) s] load[OF assms(4)]
    by (cases new) (simp_all add: Reconcile_def reconcile_loaded_def m1_def Let_def)
  moreover have "machine_step selected (Workload_UID current) revision (UTC (mem_now m)) window (abs_memory ?key m) = (dec, abs_memory ?key m')"
    using m'(2) replicas by (simp add: machine_step_def abs_memory_def phase_of_identity[OF states, of _ _ _ _ selected] id win)
  ultimately show ?thesis using m'(3-5) by blast
qed

end

interpretation trusting: memory_world "memory_reconciler Sum256 L" "\<lambda>_. True" "\<lambda>_ _. True" "\<lambda>_. True" "\<lambda>_. True" for Sum256 L
  by unfold_locales (simp_all add: memory_reconciler_def Rejection_def)

interpretation strict: memory_world "checked_reconciler Sum256 L hpas" valid_document valid_state valid_snapshot
    "\<lambda>w. \<not> (\<exists>h \<in> set hpas. hpaTargetsWorkload h w)" for Sum256 L hpas
  by unfold_locales (simp_all add: checked_reconciler_def memory_reconciler_def evaluate_items_iff normalizeDocument_valid
      iffD2[OF ValidateDocument_iff] valid_document_put valid_document_remove valid_state_snapshot)

lemma reconciler_params [simp]:
  "r_Sum256 (memory_reconciler Sum256 L) = Sum256" "r_LoadLocation (memory_reconciler Sum256 L) = L"
  "r_Sum256 (checked_reconciler Sum256 L hpas) = Sum256" "r_LoadLocation (checked_reconciler Sum256 L hpas) = L"
  by (simp_all add: memory_reconciler_def checked_reconciler_def)

lemma Reconcile_machine:
  assumes "CalculateRevision Sum256 (Workload_Containers current) (Revision_Spec (Policy_Lifecycle selected)) = Inr revision"
    and "schedule_at L (UTC (mem_now m)) (Policy_Schedule selected) = Inr window"
    and "Doc_States (mem_doc m) \<noteq> None"
  shows "\<exists>dec m'. run_state (Reconcile (memory_reconciler Sum256 L) current selected) m = ((dec, None), m') \<and>
    machine_step selected (Workload_UID current) revision (UTC (mem_now m)) window (abs_memory (workload_Key current) m) =
      (dec, abs_memory (workload_Key current) m') \<and>
    others (workload_Key current) (mem_doc m') = others (workload_Key current) (mem_doc m) \<and> Doc_States (mem_doc m') \<noteq> None"
proof -
  obtain states where "Doc_States (mem_doc m) = Some states" using assms(3) by auto
  from trusting.reconcile_machine[OF _ _ this] assms(1,2) show ?thesis by simp
qed

text \<open>
  With a store that checks: what the reconciliation saves is valid when the clock is set and not behind the
  first sight of the workload, and counts are not negative.
\<close>

lemma Reconcile_machine_checked:
  assumes rev: "CalculateRevision Sum256 (Workload_Containers current) (Revision_Spec (Policy_Lifecycle selected)) = Inr revision"
    and win: "schedule_at L (UTC (mem_now m)) (Policy_Schedule selected) = Inr window"
    and doc: "valid_document (mem_doc m)" and "wf_input Sum256 current selected" "\<not> (\<exists>h \<in> set hpas. hpaTargetsWorkload h current)"
    and "\<not> IsZero (mem_now m)" "0 \<le> mem_replicas m"
    and first: "\<And>s. state_of (workload_Key current) (mem_doc m) = Some s \<Longrightarrow> t_ns (State_FirstSeenAt s) \<le> t_ns (mem_now m)"
  shows "\<exists>dec m'. run_state (Reconcile (checked_reconciler Sum256 L hpas) current selected) m = ((dec, None), m') \<and>
    machine_step selected (Workload_UID current) revision (UTC (mem_now m)) window (abs_memory (workload_Key current) m) =
      (dec, abs_memory (workload_Key current) m') \<and> valid_document (mem_doc m')"
proof -
  obtain states where states: "Doc_States (mem_doc m) = Some states"
    using doc by (auto simp: valid_document_def split: option.splits)
  obtain s new where id: "reconcileIdentity (lookup_state states (workload_Key current)) current selected revision (UTC (mem_now m)) = (s, new)"
    by fastforce
  have now: "utc_set (UTC (mem_now m))" using assms(6) by (simp add: utc_set_def UTC_def IsZero_def)
  have "valid_state (workload_Key current) s"
    by (rule reconcileIdentity_valid[OF states id assms(4) rev doc now]) (use first in \<open>simp add: UTC_def\<close>)
  then have sound: "valid_state (workload_Key current) (fst (reconcileIdentity (lookup_state states (workload_Key current)) current selected
      revision (UTC (mem_now m))))" by (simp add: id)
  have snap: "valid_snapshot \<lparr>Snap_Replicas = mem_replicas m, Snap_CapturedAt = UTC (mem_now m), Snap_CapturedReason = reason\<rparr>"
    if "reason \<noteq> []" for reason using that now assms(7) by (simp add: valid_snapshot_def)
  have "CalculateRevision (r_Sum256 (checked_reconciler Sum256 L hpas)) (Workload_Containers current) (Revision_Spec (Policy_Lifecycle selected)) =
      Inr revision" "schedule_at (r_LoadLocation (checked_reconciler Sum256 L hpas)) (UTC (mem_now m)) (Policy_Schedule selected) = Inr window"
    using rev win by simp_all
  from strict.reconcile_machine[OF this states doc assms(5) sound snap] show ?thesis by blast
qed

text \<open>
  C7: the transition refines the machine. When every dependency does its work, a reconciliation succeeds
  with the decision of the machine, and afterwards the stored state and the live replica count are those
  the machine computes, whatever was stored before: the state of another object, a new revision, an open
  or a skipped window, a snapshot, an expired revision. The states of all other workloads stay as they are.
\<close>

theorem Reconcile_refines_machine:
  assumes "CalculateRevision Sum256 (Workload_Containers current) (Revision_Spec (Policy_Lifecycle selected)) = Inr revision"
    and "schedule_at L (UTC (mem_now m)) (Policy_Schedule selected) = Inr window"
    and "Doc_States (mem_doc m) \<noteq> None"
  shows "\<exists>dec m'. run_state (Reconcile (memory_reconciler Sum256 L) current selected) m = ((dec, None), m') \<and>
    machine_step selected (Workload_UID current) revision (UTC (mem_now m)) window (abs_memory (workload_Key current) m) =
      (dec, abs_memory (workload_Key current) m') \<and>
    others (workload_Key current) (mem_doc m') = others (workload_Key current) (mem_doc m) \<and> Doc_States (mem_doc m') \<noteq> None"
  using assms by (rule Reconcile_machine)

end
