(* ===== verification/Histories.thy ===== *)
theory Histories
  imports Reconcile_Machine
begin

text \<open>
  Whole histories of a workload: reconciliations at a sequence of times, with every dependency at work,
  between which users may have changed the workload. What the schedule does to the replica count, what an
  override and a redeploy inside a window do, and a history on which the controller misses a redeploy.
\<close>

section \<open>Sequences of reconciliations\<close>

text \<open>Reconciliations at the given times, one after the other; \<open>None\<close> when one of them fails.\<close>

fun reconciles :: "memory Reconciler \<Rightarrow> Workload \<Rightarrow> Policy \<Rightarrow> gotime list \<Rightarrow> memory \<Rightarrow> memory option" where
  "reconciles r current selected [] m = Some m"
| "reconciles r current selected (t # ts) m =
     (case run_state (Reconcile r current selected) (m\<lparr>mem_now := t\<rparr>) of
        ((_, None), m') \<Rightarrow> reconciles r current selected ts m'
      | _ \<Rightarrow> None)"

abbreviation machine_runs ::
  "Policy \<Rightarrow> string \<Rightarrow> LifecycleRevision \<Rightarrow> (gotime \<Rightarrow> string \<times> bool \<times> string) \<Rightarrow> gotime list \<Rightarrow> phase option \<times> int \<Rightarrow> phase option \<times> int" where
  "machine_runs selected uid revision window ts \<equiv> fold (\<lambda>t b. snd (machine_step selected uid revision (UTC t) (window t) b)) ts"

lemma abs_memory_now [simp]: "abs_memory key (m\<lparr>mem_now := t\<rparr>) = abs_memory key m"
  by (simp add: abs_memory_def)

lemma reconciles_machine:
  assumes rev: "CalculateRevision Sum256 (Workload_Containers current) (Revision_Spec (Policy_Lifecycle selected)) = Inr revision"
    and "list_all (\<lambda>t. schedule_at L (UTC t) (Policy_Schedule selected) = Inr (window t)) ts" "Doc_States (mem_doc m) \<noteq> None"
  obtains m' where "reconciles (memory_reconciler Sum256 L) current selected ts m = Some m'"
    "abs_memory (workload_Key current) m' =
       machine_runs selected (Workload_UID current) revision window ts (abs_memory (workload_Key current) m)"
    "others (workload_Key current) (mem_doc m') = others (workload_Key current) (mem_doc m)" "Doc_States (mem_doc m') \<noteq> None"
  using assms(2,3)
proof (induction ts arbitrary: m thesis)
  case Nil
  then show ?case by simp
next
  case (Cons t ts)
  from Reconcile_machine[OF rev, of L "m\<lparr>mem_now := t\<rparr>" "window t"] Cons.prems obtain dec m1 where
    m1: "run_state (Reconcile (memory_reconciler Sum256 L) current selected) (m\<lparr>mem_now := t\<rparr>) = ((dec, None), m1)"
      "machine_step selected (Workload_UID current) revision (UTC t) (window t) (abs_memory (workload_Key current) m) =
        (dec, abs_memory (workload_Key current) m1)"
      "others (workload_Key current) (mem_doc m1) = others (workload_Key current) (mem_doc m)" "Doc_States (mem_doc m1) \<noteq> None"
    by auto
  from Cons.IH[of m1 thesis] Cons.prems m1 show ?case by simp
qed

text \<open>
  An orderly history: the workload and the policy are well formed, no HPA targets the workload, the targets
  are not negative, and neither is the live count; the stored document is valid; the clock is set, it does
  not run backwards, and it is not behind the recorded first sight of the workload.
\<close>

definition orderly :: "(string \<Rightarrow> string) \<Rightarrow> Workload \<Rightarrow> Policy \<Rightarrow> HPA list \<Rightarrow> gotime list \<Rightarrow> memory \<Rightarrow> bool" where
  "orderly Sum256 current selected hpas ts m \<longleftrightarrow>
     wf_input Sum256 current selected \<and> \<not> (\<exists>h \<in> set hpas. hpaTargetsWorkload h current) \<and>
     0 \<le> ScheduledDown (Policy_Replicas selected) \<and> 0 \<le> Expired (Policy_Replicas selected) \<and>
     valid_document (mem_doc m) \<and> 0 \<le> mem_replicas m \<and> list_all (\<lambda>t. \<not> IsZero t) ts \<and> sorted (map t_ns ts) \<and>
     (\<forall>s. state_of (workload_Key current) (mem_doc m) = Some s \<longrightarrow> list_all (\<lambda>t. t_ns (State_FirstSeenAt s) \<le> t_ns t) ts)"

lemma orderly_uid: "orderly Sum256 current selected hpas ts m \<Longrightarrow> Workload_UID current \<noteq> []"
  by (simp add: orderly_def wf_input_def)

lemma machine_step_first:
  assumes "fst (snd (machine_step selected uid revision now window b)) = Some p"
  shows "ph_first p = now \<or> (\<exists>q. fst b = Some q \<and> ph_first p = ph_first q)"
proof -
  obtain name down inst where w: "window = (name, down, inst)" by (metis prod_cases3)
  obtain p1 new where p1: "seen uid revision now (fst b) = (p1, new)" by fastforce
  have "ph_first p1 = now \<or> (\<exists>q. fst b = Some q \<and> ph_first p1 = ph_first q)"
    using p1 by (auto simp: seen_def Let_def split: option.splits if_splits)
  moreover have "ph_first p = ph_first p1"
  proof -
    let ?e = "enter (Rev_RevisionHash revision) down inst p1"
    obtain p2 n stored where p2: "settle (Rev_RevisionHash revision) (ScheduledDown (Policy_Replicas selected)) down ?e (snd b) = (p2, n, stored)"
      by (metis prod_cases3)
    have "ph_first ?e = ph_first p1" by (simp add: enter_def Let_def)
    with p2 have "ph_first p2 = ph_first p1" by (auto simp: settle_def split: if_splits)
    with assms show ?thesis
      by (auto simp: machine_step_def machine_window_def machine_act_def w p1 p2 Let_def split: if_splits)
  qed
  ultimately show ?thesis by simp
qed

lemma Decide_nonneg:
  assumes "0 \<le> In_CurrentReplicas i" "0 \<le> In_ScheduledTarget i" "0 \<le> In_ExpiredTarget i" "\<And>n. In_SnapshotReplicas i = Some n \<Longrightarrow> 0 \<le> n"
  shows "0 \<le> DesiredReplicas (Decide i)"
  using assms by (auto simp: Decide_def downDecision_def Let_def split: option.splits)

lemma machine_step_nonneg:
  assumes targets: "0 \<le> ScheduledDown (Policy_Replicas selected)" "0 \<le> Expired (Policy_Replicas selected)"
    and live: "0 \<le> snd b" and snap: "\<And>q n. fst b = Some q \<Longrightarrow> ph_snapshot q = Some n \<Longrightarrow> 0 \<le> n"
  shows "0 \<le> snd (snd (machine_step selected uid revision now window b))"
proof -
  obtain name down inst where w: "window = (name, down, inst)" by (metis prod_cases3)
  obtain p1 new where p1: "seen uid revision now (fst b) = (p1, new)" by fastforce
  let ?p = "enter (Rev_RevisionHash revision) down inst p1"
  obtain p n stored where p: "settle (Rev_RevisionHash revision) (ScheduledDown (Policy_Replicas selected)) down ?p (snd b) = (p, n, stored)"
    by (metis prod_cases3)
  have "\<And>k. ph_snapshot p1 = Some k \<Longrightarrow> 0 \<le> k"
    using p1 snap by (auto simp: seen_def Let_def split: option.splits if_splits)
  then have "\<And>k. ph_snapshot ?p = Some k \<Longrightarrow> 0 \<le> k" by (simp add: enter_def Let_def split: if_splits)
  with p live have "0 \<le> n" "\<And>k. ph_snapshot p = Some k \<Longrightarrow> 0 \<le> k"
    by (auto simp: settle_def split: if_splits option.splits)
  moreover from this have "0 \<le> DesiredReplicas (Decide (phase_input now selected (snd b) name down p))"
    using live targets by (intro Decide_nonneg) (simp_all add: phase_input_def)
  ultimately show ?thesis
    by (simp add: machine_step_def machine_window_def machine_act_def w p1 p Let_def)
qed

lemma orderly_step:
  assumes ord: "orderly Sum256 current selected hpas (t # ts) m"
    and rev: "CalculateRevision Sum256 (Workload_Containers current) (Revision_Spec (Policy_Lifecycle selected)) = Inr revision"
    and win: "schedule_at L (UTC t) (Policy_Schedule selected) = Inr window"
  obtains dec m' where
    "run_state (Reconcile (checked_reconciler Sum256 L hpas) current selected) (m\<lparr>mem_now := t\<rparr>) = ((dec, None), m')"
    "machine_step selected (Workload_UID current) revision (UTC t) window (abs_memory (workload_Key current) m) =
       (dec, abs_memory (workload_Key current) m')" "orderly Sum256 current selected hpas ts m'"
proof -
  let ?key = "workload_Key current" and ?m = "m\<lparr>mem_now := t\<rparr>"
  have o: "wf_input Sum256 current selected" "\<not> (\<exists>h \<in> set hpas. hpaTargetsWorkload h current)"
    "0 \<le> ScheduledDown (Policy_Replicas selected)" "0 \<le> Expired (Policy_Replicas selected)" "valid_document (mem_doc m)" "0 \<le> mem_replicas m"
    "\<not> IsZero t" "list_all (\<lambda>t. \<not> IsZero t) ts" "sorted (map t_ns ts)" "list_all (\<lambda>u. t_ns t \<le> t_ns u) ts"
    and first: "\<And>s. state_of ?key (mem_doc m) = Some s \<Longrightarrow> t_ns (State_FirstSeenAt s) \<le> t_ns t \<and> list_all (\<lambda>u. t_ns (State_FirstSeenAt s) \<le> t_ns u) ts"
    using ord by (auto simp: orderly_def list_all_iff)
  have pre: "schedule_at L (UTC (mem_now ?m)) (Policy_Schedule selected) = Inr window" "valid_document (mem_doc ?m)"
    "\<not> IsZero (mem_now ?m)" "0 \<le> mem_replicas ?m" using win o by simp_all
  obtain dec m' where m': "run_state (Reconcile (checked_reconciler Sum256 L hpas) current selected) ?m = ((dec, None), m')"
    "machine_step selected (Workload_UID current) revision (UTC t) window (abs_memory ?key m) = (dec, abs_memory ?key m')"
    "valid_document (mem_doc m')"
    using Reconcile_machine_checked[OF rev pre(1,2) o(1,2) pre(3,4)] first by auto
  have "0 \<le> snd (snd (machine_step selected (Workload_UID current) revision (UTC t) window (abs_memory ?key m)))"
    using o(3-6) valid_document_lookup[OF o(5)]
    by (intro machine_step_nonneg) (fastforce simp: abs_memory_def valid_state_def valid_snapshot_def)+
  from this[unfolded m'(2)] have "0 \<le> mem_replicas m'" by (simp add: abs_memory_def)
  moreover have "list_all (\<lambda>u. t_ns (State_FirstSeenAt s) \<le> t_ns u) ts" if s: "state_of ?key (mem_doc m') = Some s" for s
  proof -
    have "fst (snd (machine_step selected (Workload_UID current) revision (UTC t) window (abs_memory ?key m))) = Some (phase_of s)"
      unfolding m'(2) using s by (simp add: abs_memory_def)
    from machine_step_first[OF this] show ?thesis
      using first o(10) by (auto simp: abs_memory_def UTC_def)
  qed
  ultimately have "orderly Sum256 current selected hpas ts m'" using o m'(3) by (simp add: orderly_def)
  with m'(1,2) show thesis by (rule that)
qed

lemma reconciles_orderly:
  assumes rev: "CalculateRevision Sum256 (Workload_Containers current) (Revision_Spec (Policy_Lifecycle selected)) = Inr revision"
    and "list_all (\<lambda>t. schedule_at L (UTC t) (Policy_Schedule selected) = Inr (window t)) ts"
    and "orderly Sum256 current selected hpas (ts @ us) m"
  obtains m' where "reconciles (checked_reconciler Sum256 L hpas) current selected ts m = Some m'"
    "abs_memory (workload_Key current) m' =
       machine_runs selected (Workload_UID current) revision window ts (abs_memory (workload_Key current) m)"
    "orderly Sum256 current selected hpas us m'"
  using assms(2,3)
proof (induction ts arbitrary: m thesis)
  case (Cons t ts)
  from Cons.prems(2,3) have t: "schedule_at L (UTC t) (Policy_Schedule selected) = Inr (window t)"
    "orderly Sum256 current selected hpas (t # ts @ us) m" by simp_all
  obtain dec m1 where m1: "run_state (Reconcile (checked_reconciler Sum256 L hpas) current selected) (m\<lparr>mem_now := t\<rparr>) = ((dec, None), m1)"
    "machine_step selected (Workload_UID current) revision (UTC t) (window t) (abs_memory (workload_Key current) m) =
       (dec, abs_memory (workload_Key current) m1)" "orderly Sum256 current selected hpas (ts @ us) m1"
    by (rule orderly_step[OF t(2) rev t(1)])
  from Cons.IH[of m1 thesis] Cons.prems m1 show ?case by simp
qed simp

section \<open>The count follows the schedule\<close>

text \<open>
  The count to restore is either live or in the snapshot, the recorded revision is the given one, first
  seen no earlier than the given instant, and the window is not skipped.
\<close>

definition on_schedule :: "Policy \<Rightarrow> string \<Rightarrow> LifecycleRevision \<Rightarrow> int \<Rightarrow> int \<Rightarrow> phase option \<times> int \<Rightarrow> bool" where
  "on_schedule selected uid revision start n b \<longleftrightarrow>
     (case fst b of
        None \<Rightarrow> snd b = n
      | Some p \<Rightarrow> ph_uid p = uid \<and> ph_tracking p = Rev_TrackingSpecHash revision \<and> ph_revision p = Rev_RevisionHash revision \<and>
          start \<le> t_ns (ph_first p) \<and> ph_skip p = None \<and> ph_entry p \<in> {[], Rev_RevisionHash revision} \<and>
          (ph_snapshot p = None \<and> snd b = n \<or>
           ph_snapshot p = Some n \<and> snd b = min (ScheduledDown (Policy_Replicas selected)) n))"

definition unexpired :: "Policy \<Rightarrow> int \<Rightarrow> gotime \<Rightarrow> bool" where
  "unexpired selected start t \<longleftrightarrow> start \<le> t_ns t \<and> t_ns t < start + MaxAge (Policy_Lifecycle selected)"

lemma on_schedule_seen:
  assumes "on_schedule selected uid revision start n b" "uid \<noteq> []" "start \<le> t_ns now"
  obtains p new where "seen uid revision now (fst b) = (p, new)" "on_schedule selected uid revision start n (Some p, snd b)"
  using assms by (cases "fst b") (auto simp: on_schedule_def seen_def)

lemma on_schedule_enter:
  "on_schedule selected uid revision start n (Some p, live) \<Longrightarrow>
   on_schedule selected uid revision start n (Some (enter (Rev_RevisionHash revision) down inst p), live)"
  by (auto simp: on_schedule_def enter_def Let_def)

lemma on_schedule_settle:
  "on_schedule selected uid revision start n (Some p, live) \<Longrightarrow>
   settle (Rev_RevisionHash revision) (ScheduledDown (Policy_Replicas selected)) down p live = (p, live, False)"
  by (auto simp: on_schedule_def settle_def redeployed_def overridden_def)

text \<open>What the engine decides before expiry when the window is not skipped, and when it is.\<close>

lemma Decide_unskipped:
  assumes "t_ns now < t_ns (ph_first p) + MaxAge (Policy_Lifecycle selected)" "ph_skip p = None"
    and d: "d = Decide (phase_input now selected live name down p)"
  shows "\<not> DeleteWorkload d" "NeedsSnapshot d \<longleftrightarrow> down \<and> ph_snapshot p = None"
    "ClearSnapshotAfterScale d \<longleftrightarrow> \<not> down \<and> ph_snapshot p \<noteq> None" "ShouldScale d \<longleftrightarrow> DesiredReplicas d \<noteq> live"
    "DesiredReplicas d = (let base = (case ph_snapshot p of None \<Rightarrow> live | Some n \<Rightarrow> n)
       in if down then min (ScheduledDown (Policy_Replicas selected)) base else base)"
  unfolding d Decide_def downDecision_def Let_def phase_input_def using assms(1,2)
  by (simp_all add: Before_def Add_def split: option.split)

lemma Decide_skipped:
  assumes "t_ns now < t_ns (ph_first p) + MaxAge (Policy_Lifecycle selected)" "ph_skip p \<noteq> None" "down"
    and d: "d = Decide (phase_input now selected live name down p)"
  shows "\<not> DeleteWorkload d" "\<not> NeedsSnapshot d" "\<not> ClearSnapshotAfterScale d" "\<not> ShouldScale d"
  unfolding d Decide_def Let_def phase_input_def using assms(1-3)
  by (simp_all add: Before_def Add_def)

lemma on_schedule_act:
  assumes on: "on_schedule selected uid revision start n (Some p, live)" and now: "unexpired selected start now"
    and q: "on_schedule selected uid revision start n (Some q, live)" "ph_snapshot q = ph_snapshot p"
    and d: "d = Decide (phase_input now selected live name down p)"
  shows "on_schedule selected uid revision start n (machine_act selected d live p live q) \<and>
    snd (machine_act selected d live p live q) = (if down then min (ScheduledDown (Policy_Replicas selected)) n else n)"
proof -
  have "t_ns now < t_ns (ph_first p) + MaxAge (Policy_Lifecycle selected)" "ph_skip p = None"
    using on now by (auto simp: on_schedule_def unexpired_def)
  note facts = Decide_unskipped[OF this d]
  show ?thesis
    using on q by (cases "ph_snapshot p"; cases down) (auto simp: on_schedule_def machine_act_def facts Let_def)
qed

lemma on_schedule_step:
  assumes on: "on_schedule selected uid revision start n b" and uid: "uid \<noteq> []" and now: "unexpired selected start now"
  shows "on_schedule selected uid revision start n (snd (machine_step selected uid revision now (name, down, inst) b)) \<and>
    snd (snd (machine_step selected uid revision now (name, down, inst) b)) =
      (if down then min (ScheduledDown (Policy_Replicas selected)) n else n)"
proof -
  obtain p new where p: "seen uid revision now (fst b) = (p, new)" "on_schedule selected uid revision start n (Some p, snd b)"
    using on_schedule_seen[OF on uid] now by (auto simp: unexpired_def)
  let ?p = "enter (Rev_RevisionHash revision) down inst p"
  have e: "on_schedule selected uid revision start n (Some ?p, snd b)" by (rule on_schedule_enter[OF p(2)])
  have q: "on_schedule selected uid revision start n (Some (if new then p else ?p), snd b)" "ph_snapshot (if new then p else ?p) = ph_snapshot ?p"
    using p(2) e by (auto simp: enter_def Let_def)
  show ?thesis
    using on_schedule_act[OF e now q refl] p(1)
    by (simp add: machine_step_def machine_window_def on_schedule_settle[OF e] Let_def)
qed

lemma unexpired_UTC [simp]: "unexpired selected start (UTC t) = unexpired selected start t"
  by (simp add: unexpired_def UTC_def)

lemma on_schedule_runs:
  assumes "on_schedule selected uid revision start n b" "uid \<noteq> []" "list_all (unexpired selected start) ts"
  shows "on_schedule selected uid revision start n (machine_runs selected uid revision window ts b) \<and>
    (ts \<noteq> [] \<longrightarrow> snd (machine_runs selected uid revision window ts b) =
       (if fst (snd (window (last ts))) then min (ScheduledDown (Policy_Replicas selected)) n else n))"
  using assms
proof (induction ts rule: rev_induct)
  case (snoc t ts)
  obtain name down inst where w: "window t = (name, down, inst)" by (metis prod_cases3)
  show ?case using snoc on_schedule_step[OF snoc.IH[THEN conjunct1], of "UTC t" name down inst] by (simp add: w)
qed simp

section \<open>Skipped windows\<close>

text \<open>The open window is skipped, at the given count, which nothing is to replace.\<close>

definition skipping :: "string \<Rightarrow> LifecycleRevision \<Rightarrow> int \<Rightarrow> string \<Rightarrow> int \<Rightarrow> phase option \<times> int \<Rightarrow> bool" where
  "skipping uid revision start inst n b \<longleftrightarrow>
     (\<exists>p. fst b = Some p \<and> ph_uid p = uid \<and> ph_tracking p = Rev_TrackingSpecHash revision \<and>
        ph_revision p = Rev_RevisionHash revision \<and> start \<le> t_ns (ph_first p) \<and> ph_instance p = inst \<and> ph_entry p \<noteq> [] \<and>
        ph_skip p \<noteq> None \<and> ph_snapshot p = None \<and> snd b = n)"

lemma seen_same:
  "ph_uid p = uid \<Longrightarrow> uid \<noteq> [] \<Longrightarrow> ph_tracking p = Rev_TrackingSpecHash revision \<Longrightarrow> ph_revision p = Rev_RevisionHash revision \<Longrightarrow>
   seen uid revision now (Some p) = (p, False)"
  by (simp add: seen_def)

text \<open>As long as the window lasts nothing changes; afterwards the count follows the schedule again.\<close>

lemma skipping_same:
  assumes skip: "skipping uid revision start inst n b" and "uid \<noteq> []" and now: "unexpired selected start now"
  shows "skipping uid revision start inst n (snd (machine_step selected uid revision now (name, True, inst) b))"
proof -
  from skip obtain p where p: "fst b = Some p" "ph_uid p = uid" "ph_tracking p = Rev_TrackingSpecHash revision"
    "ph_revision p = Rev_RevisionHash revision" "start \<le> t_ns (ph_first p)" "ph_instance p = inst" "ph_entry p \<noteq> []"
    "ph_skip p \<noteq> None" "ph_snapshot p = None" "snd b = n" unfolding skipping_def by blast
  have age: "t_ns now < t_ns (ph_first p) + MaxAge (Policy_Lifecycle selected)" using p(5) now by (simp add: unexpired_def)
  have "seen uid revision now (fst b) = (p, False)" using p(1-4) assms(2) by (simp add: seen_same)
  moreover have "enter (Rev_RevisionHash revision) True inst p = p" using p(6,7) by (simp add: enter_def)
  moreover have "settle (Rev_RevisionHash revision) (ScheduledDown (Policy_Replicas selected)) True p n = (p, n, False)"
    using p(8) by (simp add: settle_def redeployed_def overridden_def)
  ultimately show ?thesis
    using p Decide_skipped[OF age p(8) TrueI refl, of n name]
    by (simp add: machine_step_def machine_window_def machine_act_def Let_def skipping_def)
qed

lemma skipping_other:
  assumes skip: "skipping uid revision start inst n b" and other: "\<not> (down \<and> i = inst)"
    and uid: "uid \<noteq> []" and now: "unexpired selected start now"
  shows "on_schedule selected uid revision start n (snd (machine_step selected uid revision now (name, down, i) b)) \<and>
    snd (snd (machine_step selected uid revision now (name, down, i) b)) =
      (if down then min (ScheduledDown (Policy_Replicas selected)) n else n)"
proof -
  from skip obtain p where p: "fst b = Some p" "ph_uid p = uid" "ph_tracking p = Rev_TrackingSpecHash revision"
    "ph_revision p = Rev_RevisionHash revision" "start \<le> t_ns (ph_first p)" "ph_instance p = inst" "ph_snapshot p = None" "snd b = n"
    unfolding skipping_def by blast
  define q where "q = p\<lparr>ph_entry := [], ph_instance := [], ph_skip := None\<rparr>"
  have "enter (Rev_RevisionHash revision) down i p = enter (Rev_RevisionHash revision) down i q"
    using other p(6) by (auto simp: enter_def q_def Let_def)
  then have "machine_step selected uid revision now (name, down, i) b = machine_step selected uid revision now (name, down, i) (Some q, n)"
    using p uid seen_same[of p] seen_same[of q] by (simp add: machine_step_def machine_window_def q_def)
  moreover have "on_schedule selected uid revision start n (Some q, n)"
    using p by (simp add: on_schedule_def q_def)
  ultimately show ?thesis using on_schedule_step[OF _ uid now] by simp
qed

lemma skipping_runs:
  assumes "skipping uid revision start inst n b" "uid \<noteq> []"
    and "list_all (\<lambda>t. unexpired selected start t \<and> snd (window t) = (True, inst)) ts"
  shows "skipping uid revision start inst n (machine_runs selected uid revision window ts b)"
  using assms
proof (induction ts arbitrary: b)
  case (Cons t ts)
  obtain name where w: "window t = (name, True, inst)" using Cons.prems(3) by (cases "window t") auto
  show ?case using Cons.prems by (auto simp: w intro!: Cons.IH skipping_same)
qed simp

text \<open>
  A history from a skipped window on: first times inside the window, then any times, of which the first
  one is no longer in that window.
\<close>

definition left_at :: "(gotime \<Rightarrow> string \<times> bool \<times> string) \<Rightarrow> string \<Rightarrow> gotime list \<Rightarrow> bool" where
  "left_at window inst ts \<longleftrightarrow> ts = [] \<or> snd (window (hd ts)) \<noteq> (True, inst)"

lemma skipped_then_schedule:
  assumes "skipping uid revision start inst n b" "uid \<noteq> []"
    and "list_all (\<lambda>t. unexpired selected start t \<and> snd (window t) = (True, inst)) inside"
    and "list_all (unexpired selected start) after" "left_at window inst after"
  shows "snd (machine_runs selected uid revision window (inside @ after) b) =
    (if after = [] then n else if fst (snd (window (last after))) then min (ScheduledDown (Policy_Replicas selected)) n else n)"
proof -
  let ?b = "machine_runs selected uid revision window inside b"
  have skip: "skipping uid revision start inst n ?b" by (rule skipping_runs[OF assms(1-3)])
  show ?thesis
  proof (cases after)
    case Nil
    then show ?thesis using skip by (auto simp: skipping_def)
  next
    case (Cons t ts)
    obtain name down i where w: "window t = (name, down, i)" by (metis prod_cases3)
    have "\<not> (down \<and> i = inst)" using assms(5) by (auto simp: left_at_def Cons w)
    from skipping_other[OF skip this assms(2), of selected "UTC t" name]
    have "on_schedule selected uid revision start n (snd (machine_step selected uid revision (UTC t) (window t) ?b))"
      "snd (snd (machine_step selected uid revision (UTC t) (window t) ?b)) =
        (if down then min (ScheduledDown (Policy_Replicas selected)) n else n)"
      using assms(4) by (auto simp: Cons w)
    with on_schedule_runs[OF this(1) assms(2), of ts window] assms(4) show ?thesis
      by (cases "ts = []") (auto simp: Cons w)
  qed
qed

section \<open>Entering a skip\<close>

text \<open>A live count above the target while a snapshot is held, in the window it was entered with.\<close>

definition override_pending :: "Policy \<Rightarrow> string \<Rightarrow> LifecycleRevision \<Rightarrow> int \<Rightarrow> string \<Rightarrow> int \<Rightarrow> phase option \<times> int \<Rightarrow> bool" where
  "override_pending selected uid revision start inst n b \<longleftrightarrow>
     (\<exists>p. fst b = Some p \<and> ph_uid p = uid \<and> ph_tracking p = Rev_TrackingSpecHash revision \<and>
        ph_revision p = Rev_RevisionHash revision \<and> start \<le> t_ns (ph_first p) \<and> ph_instance p = inst \<and>
        ph_entry p = Rev_RevisionHash revision \<and> ph_entry p \<noteq> [] \<and> ph_skip p = None \<and> ph_snapshot p \<noteq> None \<and> snd b = n) \<and>
     ScheduledDown (Policy_Replicas selected) < n"

text \<open>Another revision than the one the window was entered with; the count to keep is that of the snapshot, if there is one.\<close>

definition redeploy_pending :: "string \<Rightarrow> LifecycleRevision \<Rightarrow> string \<Rightarrow> int \<Rightarrow> phase option \<times> int \<Rightarrow> bool" where
  "redeploy_pending uid revision inst n b \<longleftrightarrow>
     (\<exists>p. fst b = Some p \<and> ph_uid p = uid \<and> ph_revision p \<noteq> Rev_RevisionHash revision \<and> ph_instance p = inst \<and>
        ph_entry p \<noteq> [] \<and> ph_entry p \<noteq> Rev_RevisionHash revision \<and> ph_skip p = None \<and>
        n = (case ph_snapshot p of None \<Rightarrow> snd b | Some k \<Rightarrow> k))"

lemma skip_step:
  assumes "seen uid revision now (fst b) = (p1, new)" "enter (Rev_RevisionHash revision) True inst p1 = p1"
    and "settle (Rev_RevisionHash revision) (ScheduledDown (Policy_Replicas selected)) True p1 (snd b) = (p, n, True)"
    and "t_ns now < t_ns (ph_first p) + MaxAge (Policy_Lifecycle selected)" "ph_skip p \<noteq> None"
  shows "snd (machine_step selected uid revision now (name, True, inst) b) = (Some p, n)"
  using assms Decide_skipped[OF assms(4,5) TrueI refl, of "snd b" name]
  by (simp add: machine_step_def machine_window_def machine_act_def Let_def)

lemma override_step:
  assumes pending: "override_pending selected uid revision start inst n b" and uid: "uid \<noteq> []" and now: "unexpired selected start now"
  shows "skipping uid revision start inst n (snd (machine_step selected uid revision now (name, True, inst) b))"
proof -
  from pending obtain p where p: "fst b = Some p" "ph_uid p = uid" "ph_tracking p = Rev_TrackingSpecHash revision"
    "ph_revision p = Rev_RevisionHash revision" "start \<le> t_ns (ph_first p)" "ph_instance p = inst"
    "ph_entry p = Rev_RevisionHash revision" "ph_entry p \<noteq> []" "ph_skip p = None" "ph_snapshot p \<noteq> None" "snd b = n"
    and above: "ScheduledDown (Policy_Replicas selected) < n"
    unfolding override_pending_def by blast
  have "snd (machine_step selected uid revision now (name, True, inst) b) =
      (Some (p\<lparr>ph_snapshot := None, ph_skip := Some ReasonScaleDownSkippedReplicaOverride\<rparr>), n)"
  proof (rule skip_step)
    show "seen uid revision now (fst b) = (p, False)" using p(1-4) uid by (simp add: seen_same)
    show "enter (Rev_RevisionHash revision) True inst p = p" using p(6,8) by (simp add: enter_def)
    show "settle (Rev_RevisionHash revision) (ScheduledDown (Policy_Replicas selected)) True p (snd b) =
        (p\<lparr>ph_snapshot := None, ph_skip := Some ReasonScaleDownSkippedReplicaOverride\<rparr>, n, True)"
      using p(7,9,10,11) above by (simp add: settle_def redeployed_def overridden_def)
  qed (use p(5) now in \<open>simp_all add: unexpired_def\<close>)
  then show ?thesis using p by (simp add: skipping_def)
qed

lemma redeploy_step:
  assumes pending: "redeploy_pending uid revision inst n b" and uid: "uid \<noteq> []" and now: "unexpired selected start now"
    and age: "0 < MaxAge (Policy_Lifecycle selected)"
  shows "skipping uid revision start inst n (snd (machine_step selected uid revision now (name, True, inst) b))"
proof -
  from pending obtain p where p: "fst b = Some p" "ph_uid p = uid" "ph_revision p \<noteq> Rev_RevisionHash revision" "ph_instance p = inst"
    "ph_entry p \<noteq> []" "ph_entry p \<noteq> Rev_RevisionHash revision" "ph_skip p = None" "n = (case ph_snapshot p of None \<Rightarrow> snd b | Some k \<Rightarrow> k)"
    unfolding redeploy_pending_def by blast
  define q where "q = p\<lparr>ph_tracking := Rev_TrackingSpecHash revision, ph_revision := Rev_RevisionHash revision, ph_first := now\<rparr>"
  have "snd (machine_step selected uid revision now (name, True, inst) b) =
      (Some (q\<lparr>ph_snapshot := None, ph_skip := Some ReasonScaleDownSkipped\<rparr>), n)"
  proof (rule skip_step)
    show "seen uid revision now (fst b) = (q, True)" using p(1-3) uid by (simp add: seen_def q_def)
    show "enter (Rev_RevisionHash revision) True inst q = q" using p(4,5) by (simp add: enter_def q_def)
    show "settle (Rev_RevisionHash revision) (ScheduledDown (Policy_Replicas selected)) True q (snd b) =
        (q\<lparr>ph_snapshot := None, ph_skip := Some ReasonScaleDownSkipped\<rparr>, n, True)"
      using p(5-8) by (simp add: settle_def redeployed_def q_def split: option.split)
  qed (use age in \<open>simp_all add: q_def\<close>)
  then show ?thesis using p now by (simp add: skipping_def q_def unexpired_def)
qed

section \<open>Theorems\<close>

definition window_at :: "(string \<Rightarrow> location result) \<Rightarrow> Policy \<Rightarrow> gotime \<Rightarrow> string \<times> bool \<times> string" where
  "window_at L selected t = (case schedule_at L (UTC t) (Policy_Schedule selected) of Inr w \<Rightarrow> w | Inl _ \<Rightarrow> ([], False, []))"

definition evaluable :: "(string \<Rightarrow> location result) \<Rightarrow> Policy \<Rightarrow> int \<Rightarrow> gotime list \<Rightarrow> bool" where
  "evaluable L selected start ts \<longleftrightarrow>
     list_all (\<lambda>t. unexpired selected start t \<and> \<not> isl (schedule_at L (UTC t) (Policy_Schedule selected))) ts"

lemma reconciles_window_at:
  assumes rev: "CalculateRevision Sum256 (Workload_Containers current) (Revision_Spec (Policy_Lifecycle selected)) = Inr revision"
    and ts: "evaluable L selected start ts" and ord: "orderly Sum256 current selected hpas ts m"
  obtains m' where "reconciles (checked_reconciler Sum256 L hpas) current selected ts m = Some m'"
    "abs_memory (workload_Key current) m' =
       machine_runs selected (Workload_UID current) revision (window_at L selected) ts (abs_memory (workload_Key current) m)"
proof -
  have "list_all (\<lambda>t. schedule_at L (UTC t) (Policy_Schedule selected) = Inr (window_at L selected t)) ts"
    using ts by (auto simp: evaluable_def window_at_def list_all_iff isl_def split: sum.splits)
  moreover have "orderly Sum256 current selected hpas (ts @ []) m" using ord by simp
  ultimately show thesis by (rule reconciles_orderly[OF rev]) (rule that)
qed

text \<open>
  C8: the replica count follows the schedule, over any orderly history. The calls to the cluster succeed,
  no HPA targets the workload, the state fits into its ConfigMap, and the clock does not run backwards; the
  store validates every document. Take a workload at n replicas that the controller has not seen yet, or
  that it has scaled down from n for a window. However often it is reconciled, through any number of
  windows, as long as its images stay the same, nobody scales it by hand, it does not expire and the
  schedule can be evaluated, every reconciliation succeeds, and after the last one the workload runs
  at the smaller of n and the scheduled target if a window is open then, and at exactly n if none is.
\<close>

theorem replicas_follow_schedule:
  assumes "CalculateRevision Sum256 (Workload_Containers current) (Revision_Spec (Policy_Lifecycle selected)) = Inr revision"
    and "orderly Sum256 current selected hpas ts m" and "evaluable L selected start ts" and "ts \<noteq> []"
    and "on_schedule selected (Workload_UID current) revision start n (abs_memory (workload_Key current) m)"
  shows "\<exists>m'. reconciles (checked_reconciler Sum256 L hpas) current selected ts m = Some m' \<and>
    mem_replicas m' = (if fst (snd (window_at L selected (last ts))) then min (ScheduledDown (Policy_Replicas selected)) n else n)"
proof -
  obtain m' where m': "reconciles (checked_reconciler Sum256 L hpas) current selected ts m = Some m'"
    "abs_memory (workload_Key current) m' =
       machine_runs selected (Workload_UID current) revision (window_at L selected) ts (abs_memory (workload_Key current) m)"
    by (rule reconciles_window_at[OF assms(1,3,2)])
  have "list_all (unexpired selected start) ts" using assms(3) by (simp add: evaluable_def list_all_iff)
  with on_schedule_runs[OF assms(5) orderly_uid[OF assms(2)] this, of "window_at L selected"] m' assms(4) show ?thesis
    by (metis abs_memory_def snd_conv)
qed

text \<open>Both kinds of skip: the first reconciliation in the window starts it.\<close>

lemma skip_history:
  assumes "CalculateRevision Sum256 (Workload_Containers current) (Revision_Spec (Policy_Lifecycle selected)) = Inr revision"
    and ord: "orderly Sum256 current selected hpas (inside @ after) m" and ts: "evaluable L selected start (inside @ after)"
    and inside: "list_all (\<lambda>t. snd (window_at L selected t) = (True, inst)) inside" "inside \<noteq> []" and left: "left_at (window_at L selected) inst after"
    and first: "\<And>name now. unexpired selected start now \<Longrightarrow> skipping (Workload_UID current) revision start inst n
      (snd (machine_step selected (Workload_UID current) revision now (name, True, inst) (abs_memory (workload_Key current) m)))"
  shows "\<exists>m'. reconciles (checked_reconciler Sum256 L hpas) current selected (inside @ after) m = Some m' \<and>
    mem_replicas m' = (if after = [] then n
      else if fst (snd (window_at L selected (last after))) then min (ScheduledDown (Policy_Replicas selected)) n else n)"
proof -
  note uid = orderly_uid[OF ord]
  obtain m' where m': "reconciles (checked_reconciler Sum256 L hpas) current selected (inside @ after) m = Some m'"
    "abs_memory (workload_Key current) m' = machine_runs selected (Workload_UID current) revision (window_at L selected)
       (inside @ after) (abs_memory (workload_Key current) m)"
    by (rule reconciles_window_at[OF assms(1) ts ord])
  obtain t rest where t: "inside = t # rest" using inside(2) by (cases inside) auto
  obtain name where w: "window_at L selected t = (name, True, inst)"
    using inside(1) t by (cases "window_at L selected t") auto
  have fresh: "list_all (unexpired selected start) (inside @ after)" using ts by (simp add: evaluable_def list_all_iff)
  then have "unexpired selected start (UTC t)" by (simp add: t)
  from skipped_then_schedule[OF first[OF this] uid, of selected "window_at L selected" rest after]
  have "snd (abs_memory (workload_Key current) m') = (if after = [] then n
      else if fst (snd (window_at L selected (last after))) then min (ScheduledDown (Policy_Replicas selected)) n else n)"
    using fresh inside(1) left m'(2) by (simp add: t w list_all_iff)
  then show ?thesis using m'(1) by (simp add: abs_memory_def)
qed

text \<open>
  C9: an override wins over the schedule, in any orderly history: calls succeed, no HPA targets the workload,
  the clock does not run backwards. While a window is open that was entered with the present images, and
  the controller holds a snapshot, somebody scales the workload to n replicas, above the scheduled target.
  Then, as long as it does not expire and its images stay the same, it runs at n for the rest of that
  window, however often it is reconciled; and from the end of the window on, n is the count that the
  schedule scales down from and restores, not the one that the snapshot held. This is what
  \<^verbatim>\<open>docs/design.md\<close> describes; requirement 5.3 of the repository says that the controller corrects such
  a change and keeps the snapshot, which it does not.
\<close>

theorem override_respected:
  assumes "CalculateRevision Sum256 (Workload_Containers current) (Revision_Spec (Policy_Lifecycle selected)) = Inr revision"
    and "orderly Sum256 current selected hpas (inside @ after) m" and "evaluable L selected start (inside @ after)"
    and "list_all (\<lambda>t. snd (window_at L selected t) = (True, inst)) inside" and "inside \<noteq> []" and "left_at (window_at L selected) inst after"
    and "override_pending selected (Workload_UID current) revision start inst n (abs_memory (workload_Key current) m)"
  shows "\<exists>m'. reconciles (checked_reconciler Sum256 L hpas) current selected (inside @ after) m = Some m' \<and>
    mem_replicas m' = (if after = [] then n
      else if fst (snd (window_at L selected (last after))) then min (ScheduledDown (Policy_Replicas selected)) n else n)"
  by (rule skip_history[OF assms(1-6)]) (rule override_step[OF assms(7) orderly_uid[OF assms(2)]])

text \<open>
  C10: a redeploy brings a workload back, in any orderly history: calls succeed, no HPA targets the workload,
  the clock does not run backwards. The stored state has the baseline of the open window: its instance, and
  the images it was entered with, and the window is not skipped yet. When the workload gets other images
  than those, the next reconciliation restores the count of the snapshot, or keeps the live one where none
  was taken, and, as long as it does not expire and is not changed again, the workload runs at that count
  for the rest of the window; from the end of the window on, the count follows the schedule again. Where
  the baseline was not stored a redeploy can be missed. This is what \<^verbatim>\<open>docs/design.md\<close> describes;
  \<^verbatim>\<open>proposal.md\<close> says that a new revision inside a window stays down, which it does not.
\<close>

theorem redeploy_restores:
  assumes "CalculateRevision Sum256 (Workload_Containers current) (Revision_Spec (Policy_Lifecycle selected)) = Inr revision"
    and "orderly Sum256 current selected hpas (inside @ after) m" and "evaluable L selected start (inside @ after)"
    and "list_all (\<lambda>t. snd (window_at L selected t) = (True, inst)) inside" and "inside \<noteq> []" and "left_at (window_at L selected) inst after"
    and "redeploy_pending (Workload_UID current) revision inst n (abs_memory (workload_Key current) m)"
    and "0 < MaxAge (Policy_Lifecycle selected)"
  shows "\<exists>m'. reconciles (checked_reconciler Sum256 L hpas) current selected (inside @ after) m = Some m' \<and>
    mem_replicas m' = (if after = [] then n
      else if fst (snd (window_at L selected (last after))) then min (ScheduledDown (Policy_Replicas selected)) n else n)"
  by (rule skip_history[OF assms(1-6)]) (rule redeploy_step[OF assms(7) orderly_uid[OF assms(2)] _ assms(8)])

text \<open>
  A redeploy at the moment a new window instance is entered, while the workload is still down from before:
  the identity is stored, and since nothing is to be scaled, the window marks are not.
\<close>

definition marks_pending :: "Policy \<Rightarrow> string \<Rightarrow> string \<Rightarrow> string \<Rightarrow> int \<Rightarrow> phase option \<times> int \<Rightarrow> bool" where
  "marks_pending selected uid revision inst n b \<longleftrightarrow>
     (\<exists>p. fst b = Some p \<and> ph_uid p = uid \<and> ph_revision p = revision \<and> ph_instance p \<noteq> inst \<and> ph_snapshot p = Some n) \<and>
     snd b = ScheduledDown (Policy_Replicas selected) \<and> snd b < n"

lemma marks_lost_step:
  assumes pending: "marks_pending selected uid old inst n b" and new: "Rev_RevisionHash revision \<noteq> old" and uid: "uid \<noteq> []"
    and inst: "inst \<noteq> []" and age: "0 < MaxAge (Policy_Lifecycle selected)"
  shows "marks_pending selected uid (Rev_RevisionHash revision) inst n (snd (machine_step selected uid revision now (name, True, inst) b))"
proof -
  from pending obtain p where p: "fst b = Some p" "ph_uid p = uid" "ph_revision p = old" "ph_instance p \<noteq> inst" "ph_snapshot p = Some n"
    and live: "snd b = ScheduledDown (Policy_Replicas selected)" "snd b < n" unfolding marks_pending_def by blast
  define q where "q = p\<lparr>ph_tracking := Rev_TrackingSpecHash revision, ph_revision := Rev_RevisionHash revision, ph_first := now\<rparr>"
  define e where "e = q\<lparr>ph_entry := Rev_RevisionHash revision, ph_instance := inst, ph_skip := None\<rparr>"
  have "seen uid revision now (fst b) = (q, True)" using p(1-3) uid new by (simp add: seen_def q_def)
  moreover have "enter (Rev_RevisionHash revision) True inst q = e" using p(4) inst by (simp add: enter_def q_def e_def)
  moreover have "settle (Rev_RevisionHash revision) (ScheduledDown (Policy_Replicas selected)) True e (snd b) = (e, snd b, False)"
    using live by (simp add: settle_def redeployed_def overridden_def e_def)
  moreover have "t_ns now < t_ns (ph_first e) + MaxAge (Policy_Lifecycle selected)" "ph_skip e = None" "ph_snapshot e = Some n"
    using age p(5) by (simp_all add: e_def q_def)
  note facts = Decide_unskipped[OF this(1,2) refl, of "snd b" name True] this(3)
  ultimately have "snd (machine_step selected uid revision now (name, True, inst) b) = (Some q, snd b)"
    using live by (simp add: machine_step_def machine_window_def machine_act_def facts Let_def)
  then show ?thesis using p live by (simp add: marks_pending_def q_def)
qed

text \<open>
  C37: a redeploy inside a window can go unnoticed. The workload is held down by a snapshot when a new
  window instance opens, and its images change at that moment: the baseline revision of the window is
  not stored, although the documentation promises it. When the images change once more inside the same
  window, that redeploy is not detected: the workload stays at the target, with the count of the snapshot
  not restored.
\<close>

theorem redeploy_missed:
  assumes "CalculateRevision Sum256 (Workload_Containers current) (Revision_Spec (Policy_Lifecycle selected)) = Inr first_revision"
    and "CalculateRevision Sum256 containers (Revision_Spec (Policy_Lifecycle selected)) = Inr second_revision"
    and "Rev_RevisionHash first_revision \<noteq> old" and "Rev_RevisionHash second_revision \<noteq> Rev_RevisionHash first_revision"
    and "schedule_at L (UTC t1) (Policy_Schedule selected) = Inr (name1, True, inst)"
    and "schedule_at L (UTC t2) (Policy_Schedule selected) = Inr (name2, True, inst)" and "inst \<noteq> []"
    and "Workload_UID current \<noteq> []" and "0 < MaxAge (Policy_Lifecycle selected)" and "Doc_States (mem_doc m) \<noteq> None"
    and "marks_pending selected (Workload_UID current) old inst n (abs_memory (workload_Key current) m)"
  shows "\<exists>m1 m2. reconciles (memory_reconciler Sum256 L) current selected [t1] m = Some m1 \<and>
    reconciles (memory_reconciler Sum256 L) (current\<lparr>Workload_Containers := containers\<rparr>) selected [t2] m1 = Some m2 \<and>
    mem_replicas m2 = ScheduledDown (Policy_Replicas selected) \<and> mem_replicas m2 < n \<and>
    map_option Snap_Replicas (snapshot_of (workload_Key current) (mem_doc m2)) = Some n"
proof -
  let ?key = "workload_Key current" and ?uid = "Workload_UID current"
  have key: "workload_Key (current\<lparr>Workload_Containers := containers\<rparr>) = ?key" by (simp add: workload_Key_def)
  obtain m1 where m1: "reconciles (memory_reconciler Sum256 L) current selected [t1] m = Some m1"
    "abs_memory ?key m1 = snd (machine_step selected ?uid first_revision (UTC t1) (name1, True, inst) (abs_memory ?key m))"
    "Doc_States (mem_doc m1) \<noteq> None"
    by (rule reconciles_machine[OF assms(1), of L "\<lambda>_. (name1, True, inst)" "[t1]" m]) (use assms(5,10) in auto)
  have "marks_pending selected ?uid (Rev_RevisionHash first_revision) inst n (abs_memory ?key m1)"
    unfolding m1(2) by (rule marks_lost_step[OF assms(11,3,8,7,9)])
  note pending = marks_lost_step[OF this assms(4,8,7,9), of "UTC t2" name2]
  obtain m2 where m2: "reconciles (memory_reconciler Sum256 L) (current\<lparr>Workload_Containers := containers\<rparr>) selected [t2] m1 = Some m2"
    "abs_memory ?key m2 = snd (machine_step selected ?uid second_revision (UTC t2) (name2, True, inst) (abs_memory ?key m1))"
    by (rule reconciles_machine[of Sum256 "current\<lparr>Workload_Containers := containers\<rparr>" selected second_revision L
          "\<lambda>_. (name2, True, inst)" "[t2]" m1]) (use assms(2,6) m1(3) key in auto)
  have "marks_pending selected ?uid (Rev_RevisionHash second_revision) inst n (abs_memory ?key m2)"
    using pending by (simp only: m2(2))
  then have "mem_replicas m2 = ScheduledDown (Policy_Replicas selected) \<and> mem_replicas m2 < n \<and>
      map_option Snap_Replicas (snapshot_of ?key (mem_doc m2)) = Some n"
    by (auto simp: marks_pending_def abs_memory_def snapshot_of_def)
  then show ?thesis using m1(1) m2(1) by blast
qed

section \<open>Examples\<close>

text \<open>A workload under the night window of \<^const>\<open>night_window\<close>, first seen on Friday evening.\<close>

definition shanghai :: "string \<Rightarrow> location result" where
  "shanghai _ = Inr (FixedZone 28800)"

definition night_policy :: "duration \<Rightarrow> int \<Rightarrow> Policy" where
  "night_policy maxAge expired = (worker_policy ''base'' 1)\<lparr>
     Policy_Lifecycle := defaultLifecycle\<lparr>MaxAge := maxAge\<rparr>,
     Policy_Replicas := \<lparr>ScheduledDown = 0, Expired = expired\<rparr>,
     Policy_Schedule := Some \<lparr>TimeZone = ''Asia/Shanghai'', DownWindows = [night_window]\<rparr>\<rparr>"

definition api_state :: WorkloadState where
  "api_state = sample_state\<lparr>State_FirstSeenAt := friday_evening, State_LastSeenAt := friday_evening\<rparr>"

definition api_memory :: "WorkloadState \<Rightarrow> int \<Rightarrow> gotime \<Rightarrow> memory" where
  "api_memory s n now = \<lparr>mem_doc = \<lparr>Doc_FormatVersion = 1, Doc_States = Some [(''Deployment/shop/api'', s)]\<rparr>,
     mem_replicas = n, mem_now = now\<rparr>"

definition saturday_noon :: gotime where
  "saturday_noon = Add saturday_morning (7 * Hour_ns)"

definition api_revision :: LifecycleRevision where
  "api_revision = \<lparr>Rev_TrackingSpecHash = ''sha256:'' @ replicate 64 (CHR ''0''), Rev_RevisionHash = ''sha256:'' @ replicate 64 (CHR ''0''),
     Rev_Containers = [\<lparr>Container_Name = ''app'', Container_Image = ''app:v1''\<rparr>]\<rparr>"

abbreviation night_schedule :: "Schedule option" where
  "night_schedule \<equiv> Some \<lparr>TimeZone = ''Asia/Shanghai'', DownWindows = [night_window]\<rparr>"

lemma api_revision: "CalculateRevision zero_digest (Workload_Containers sample_workload)
    (Revision_Spec (Policy_Lifecycle (night_policy maxAge expired))) = Inr api_revision"
  unfolding night_policy_def worker_policy_def by code_simp

lemma night_schedule [simp]: "Policy_Schedule (night_policy maxAge expired) = night_schedule"
  by (simp add: night_policy_def)

lemma night_open: "matchSchedule shanghai (UTC saturday_morning) night_schedule = Inr (''night'', True)"
  by code_simp

lemma night_over: "matchSchedule shanghai (UTC saturday_noon) night_schedule = Inr ([], False)"
  by code_simp

lemma night_instance: "computeWindowInstanceID shanghai (UTC saturday_morning) night_schedule ''night'' = Inr ''night:2026-08-07''"
proof -
  have steady: "steady (In saturday_morning (FixedZone 28800)) (- 1)"
    by (rule steady_FixedZone) (simp add: In_def)
  have utc: "UTC saturday_morning = saturday_morning" by (simp add: UTC_def saturday_morning_def)
  have day: "format_day 20672 = ''2026-08-07''" by code_simp
  have name: "Window_Name night_window = ''night''" by (simp add: night_window_def)
  have "WindowInstanceID shanghai saturday_morning ''Asia/Shanghai'' (Window_Name night_window) [night_window] =
      Inr (Window_Name night_window @ '':'' @ format_day 20672)"
    by (rule WindowInstanceID_covers[OF _ _ _ _ steady night_covers])
      (use night_valid in \<open>simp_all add: shanghai_def ValidateWindow_iff\<close>)
  then show ?thesis by (simp add: computeWindowInstanceID_def utc day name)
qed

lemma night_target: "ScheduledDown (Policy_Replicas (night_policy maxAge expired)) = 0"
  by (simp add: night_policy_def)

lemma night_at:
  "schedule_at shanghai (UTC saturday_morning) night_schedule = Inr (''night'', True, ''night:2026-08-07'')"
  "schedule_at shanghai (UTC saturday_noon) night_schedule = Inr ([], False, [])"
  by (simp_all add: schedule_at_def night_open night_over night_instance)

lemma night_windows:
  "window_at shanghai (night_policy maxAge expired) saturday_morning = (''night'', True, ''night:2026-08-07'')"
  "window_at shanghai (night_policy maxAge expired) saturday_noon = ([], False, [])"
  by (simp_all add: window_at_def night_at)

lemma night_evaluable:
  "evaluable shanghai (night_policy (72 * Hour_ns) 0) (t_ns friday_evening) [saturday_morning, saturday_noon]"
proof -
  have "unexpired (night_policy (72 * Hour_ns) 0) (t_ns friday_evening) saturday_morning"
    "unexpired (night_policy (72 * Hour_ns) 0) (t_ns friday_evening) saturday_noon"
    by (simp_all add: unexpired_def night_policy_def friday_evening_def saturday_morning_def saturday_noon_def Add_def)
  then show ?thesis by (simp add: evaluable_def night_at)
qed

lemma api_key [simp]: "workload_Key sample_workload = ''Deployment/shop/api''" "Workload_UID sample_workload = ''u1''"
  by (simp_all add: workload_Key_def sample_workload_def)

lemma api_abs: "abs_memory ''Deployment/shop/api'' (api_memory s n now) = (Some (phase_of s), n)"
  by (simp add: abs_memory_def api_memory_def state_of_def)

lemma api_now [simp]: "mem_now (api_memory s n now) = now" "mem_replicas (api_memory s n now) = n"
  by (simp_all add: api_memory_def)

lemma api_doc: "Doc_States (mem_doc (api_memory s n now)) \<noteq> None"
  by (simp add: api_memory_def)

text \<open>The examples are orderly: a digest of 32 bytes, one HPA that targets another workload, and a valid document.\<close>

definition other_hpa :: HPA where
  "other_hpa = api_hpa\<lparr>HPA_TargetName := ''web''\<rparr>"

definition valid_api_state :: "WorkloadState \<Rightarrow> bool" where
  "valid_api_state s \<longleftrightarrow> valid_state ''Deployment/shop/api'' s \<and> State_FirstSeenAt s = friday_evening"

lemma saturday_order: "t_ns friday_evening \<le> t_ns saturday_morning" "t_ns saturday_morning \<le> t_ns saturday_noon"
  "\<not> IsZero saturday_morning" "\<not> IsZero saturday_noon"
  by (simp_all add: friday_evening_def saturday_morning_def saturday_noon_def Add_def IsZero_def zero_ns_def)

lemma night_orderly:
  assumes "valid_api_state s" "0 \<le> n" "0 \<le> expired" "\<And>x. length (Sum256 x) = 32"
    "workload_Key w = ''Deployment/shop/api''" "wf_input Sum256 w (night_policy maxAge expired)" "\<not> hpaTargetsWorkload other_hpa w"
    "sorted (map t_ns ts)" "set ts \<subseteq> {saturday_morning, saturday_noon}"
  shows "orderly Sum256 w (night_policy maxAge expired) [other_hpa] ts (api_memory s n now)"
  using assms saturday_order
  by (auto simp: orderly_def valid_api_state_def valid_document_def api_memory_def state_of_def night_target list_all_iff)
    (auto simp: night_policy_def)

lemmas api_defs = api_state_def sample_state_def phase_of_def api_revision_def night_policy_def

lemma zero_digest_32: "length (zero_digest x) = 32"
  by (simp add: zero_digest_def)

lemma api_state_valid: "valid_api_state api_state"
  using sample_state_valid by (simp add: valid_api_state_def api_state_def valid_state_def state_Key_def utc_set_def friday_evening_def IsZero_def zero_ns_def)

lemma api_orderly:
  assumes "valid_api_state s" "0 \<le> n" "0 \<le> expired"
  shows "orderly zero_digest sample_workload (night_policy maxAge expired) [other_hpa] [saturday_morning, saturday_noon] (api_memory s n now)"
  by (rule night_orderly) (use assms saturday_order in \<open>simp_all add: zero_digest_32\<close>,
    simp_all add: wf_input_def zero_digest_32 sample_workload_def night_policy_def worker_policy_def hpaTargetsWorkload_def other_hpa_def api_hpa_def)

theorem replicas_follow_schedule_witness:
  "\<exists>m'. reconciles (checked_reconciler zero_digest shanghai [other_hpa]) sample_workload (night_policy (72 * Hour_ns) 0)
      [saturday_morning, saturday_noon] (api_memory api_state 5 friday_evening) = Some m' \<and> mem_replicas m' = 5"
proof -
  have "on_schedule (night_policy (72 * Hour_ns) 0) (Workload_UID sample_workload) api_revision (t_ns friday_evening) 5
      (abs_memory (workload_Key sample_workload) (api_memory api_state 5 friday_evening))"
    by (simp add: api_abs on_schedule_def) (simp add: api_defs friday_evening_def)
  from replicas_follow_schedule[OF api_revision api_orderly night_evaluable _ this] api_state_valid show ?thesis
    by (simp add: night_windows del: reconciles.simps)
qed

text \<open>The same workload, scaled down for the night with a snapshot of five replicas.\<close>

definition down_state :: "string \<Rightarrow> WorkloadState" where
  "down_state entry = api_state\<lparr>State_ReplicaSnapshot := Some \<lparr>Snap_Replicas = 5, Snap_CapturedAt = friday_evening,
      Snap_CapturedReason = ReasonScaleDownWindow\<rparr>,
    State_WindowEntryRevision := entry, State_WindowInstanceID := ''night:2026-08-07'', State_RevisionHash := entry\<rparr>"

definition old_revision :: string where
  "old_revision = ''sha256:'' @ replicate 64 (CHR ''1'')"

lemma down_state_valid: "valid_hash entry \<Longrightarrow> valid_api_state (down_state entry)"
  using api_state_valid
  by (simp add: valid_api_state_def down_state_def api_state_def valid_state_def state_Key_def valid_snapshot_def utc_set_def friday_evening_def IsZero_def zero_ns_def)

lemma old_revision_valid: "valid_hash old_revision" "valid_hash (Rev_RevisionHash api_revision)" "Rev_RevisionHash api_revision \<noteq> old_revision"
  by (simp_all add: valid_hash_def old_revision_def api_revision_def HasPrefix_def TrimPrefix_def list_all_replicate lower_hex_def is_digit_def byte_def)

lemma night_left: "left_at (window_at shanghai (night_policy maxAge expired)) ''night:2026-08-07'' [saturday_noon]"
  by (simp add: left_at_def night_windows)

lemma night_inside: "list_all (\<lambda>t. snd (window_at shanghai (night_policy maxAge expired) t) = (True, ''night:2026-08-07'')) [saturday_morning]"
  by (simp add: night_windows)

lemma night_after:
  assumes "valid_hash entry" "0 \<le> n"
  shows "orderly zero_digest sample_workload (night_policy (72 * Hour_ns) 0) [other_hpa] ([saturday_morning] @ [saturday_noon])
      (api_memory (down_state entry) n friday_evening)"
    "evaluable shanghai (night_policy (72 * Hour_ns) 0) (t_ns friday_evening) ([saturday_morning] @ [saturday_noon])"
  using api_orderly[OF down_state_valid[OF assms(1)] assms(2)] night_evaluable by simp_all

theorem override_respected_witness:
  "\<exists>m'. reconciles (checked_reconciler zero_digest shanghai [other_hpa]) sample_workload (night_policy (72 * Hour_ns) 0)
      ([saturday_morning] @ [saturday_noon]) (api_memory (down_state (Rev_RevisionHash api_revision)) 3 friday_evening) = Some m' \<and>
    mem_replicas m' = 3"
proof -
  have "override_pending (night_policy (72 * Hour_ns) 0) (Workload_UID sample_workload) api_revision (t_ns friday_evening) ''night:2026-08-07'' 3
      (abs_memory (workload_Key sample_workload) (api_memory (down_state (Rev_RevisionHash api_revision)) 3 friday_evening))"
    by (simp add: override_pending_def api_abs) (simp add: api_defs down_state_def)
  from override_respected[OF api_revision night_after[where n = 3, OF old_revision_valid(2)] night_inside _ night_left this] show ?thesis
    by (simp add: night_windows del: reconciles.simps)
qed

theorem redeploy_restores_witness:
  "\<exists>m'. reconciles (checked_reconciler zero_digest shanghai [other_hpa]) sample_workload (night_policy (72 * Hour_ns) 0)
      ([saturday_morning] @ [saturday_noon]) (api_memory (down_state old_revision) 0 friday_evening) = Some m' \<and>
    mem_replicas m' = 5"
proof -
  have pending: "redeploy_pending (Workload_UID sample_workload) api_revision ''night:2026-08-07'' 5
      (abs_memory (workload_Key sample_workload) (api_memory (down_state old_revision) 0 friday_evening))"
    using old_revision_valid(3) by (auto simp: redeploy_pending_def api_abs down_state_def api_state_def sample_state_def phase_of_def old_revision_def)
  have "0 < MaxAge (Policy_Lifecycle (night_policy (72 * Hour_ns) 0))" by (simp add: night_policy_def)
  from redeploy_restores[OF api_revision night_after[OF old_revision_valid(1) order_refl] night_inside _ night_left pending this] show ?thesis
    by (simp add: night_windows del: reconciles.simps)
qed

text \<open>Images that differ in their tag, hashed without collisions.\<close>

definition app_image :: "string \<Rightarrow> Container list" where
  "app_image tag = [\<lparr>Container_Name = ''app'', Container_Image = ''app:'' @ tag\<rparr>]"

lemma image_revision:
  obtains r where "CalculateRevision Sum256 (app_image tag) (Revision_Spec (Policy_Lifecycle (night_policy maxAge expired))) = Inr r"
    "Rev_RevisionHash r = hashJSON Sum256 (json_containers (app_image tag))"
  by (simp add: CalculateRevision_def selectContainers_def app_image_def night_policy_def worker_policy_def defaultLifecycle_def)

lemma image_hashes: "hashJSON (\<lambda>x. x) (json_containers (app_image ''v2'')) \<noteq> hashJSON (\<lambda>x. x) (json_containers (app_image ''v3''))"
proof -
  have "list_all plain_container (app_image tag)" if "tag \<in> {''v2'', ''v3''}" for tag
    using that by (auto simp: app_image_def plain_container_def plain_def html_safe_def byte_def)
  from json_containers_inj[OF this this, of "''v2''" "''v3''"] show ?thesis by (auto simp: hashJSON_inj app_image_def)
qed

theorem redeploy_missed_witness:
  "\<exists>m1 m2. reconciles (memory_reconciler (\<lambda>x. x) shanghai) (sample_workload\<lparr>Workload_Containers := app_image ''v2''\<rparr>)
      (night_policy (72 * Hour_ns) 0) [saturday_morning]
      (api_memory ((down_state ''sha256:old'')\<lparr>State_WindowInstanceID := ''day:2026-08-07''\<rparr>) 0 friday_evening) = Some m1 \<and>
    reconciles (memory_reconciler (\<lambda>x. x) shanghai) (sample_workload\<lparr>Workload_Containers := app_image ''v3''\<rparr>)
      (night_policy (72 * Hour_ns) 0) [saturday_morning] m1 = Some m2 \<and> mem_replicas m2 = 0"
proof -
  let ?p = "night_policy (72 * Hour_ns) 0" and ?w = "sample_workload\<lparr>Workload_Containers := app_image ''v2''\<rparr>"
  let ?m = "api_memory ((down_state ''sha256:old'')\<lparr>State_WindowInstanceID := ''day:2026-08-07''\<rparr>) 0 friday_evening"
  obtain r2 where r2: "CalculateRevision (\<lambda>x. x) (app_image ''v2'') (Revision_Spec (Policy_Lifecycle ?p)) = Inr r2"
    "Rev_RevisionHash r2 = hashJSON (\<lambda>x. x) (json_containers (app_image ''v2''))" by (rule image_revision)
  obtain r3 where r3: "CalculateRevision (\<lambda>x. x) (app_image ''v3'') (Revision_Spec (Policy_Lifecycle ?p)) = Inr r3"
    "Rev_RevisionHash r3 = hashJSON (\<lambda>x. x) (json_containers (app_image ''v3''))" by (rule image_revision)
  have old: "Rev_RevisionHash r2 \<noteq> ''sha256:old''"
    unfolding r2(2) by (simp add: hashJSON_def EncodeToString_def json_containers_def json_array_def app_image_def json_container_def)
  have pending: "marks_pending ?p (Workload_UID ?w) ''sha256:old'' ''night:2026-08-07'' 5 (abs_memory (workload_Key ?w) ?m)"
    by (simp add: marks_pending_def abs_memory_def api_memory_def state_of_def workload_Key_def sample_workload_def
        down_state_def api_state_def sample_state_def phase_of_def night_policy_def)
  have age: "0 < MaxAge (Policy_Lifecycle ?p)" by (simp add: night_policy_def)
  have hashes: "Rev_RevisionHash r3 \<noteq> Rev_RevisionHash r2" using image_hashes by (simp add: r2 r3)
  have "CalculateRevision (\<lambda>x. x) (Workload_Containers ?w) (Revision_Spec (Policy_Lifecycle ?p)) = Inr r2" using r2(1) by simp
  from redeploy_missed[OF this r3(1) old hashes _ _ _ _ age api_doc pending, of shanghai saturday_morning "''night''" saturday_morning "''night''"]
  show ?thesis by (auto simp: night_at night_target simp del: reconciles.simps)
qed

theorem Reconcile_refines_machine_witness:
  "\<exists>dec m'. run_state (Reconcile (memory_reconciler zero_digest shanghai) sample_workload (night_policy (72 * Hour_ns) 0))
      (api_memory api_state 5 saturday_morning) = ((dec, None), m') \<and>
    machine_step (night_policy (72 * Hour_ns) 0) ''u1'' api_revision (UTC saturday_morning) (''night'', True, ''night:2026-08-07'')
      (Some (phase_of api_state), 5) = (dec, abs_memory ''Deployment/shop/api'' m')"
  using Reconcile_refines_machine[where m = "api_memory api_state 5 saturday_morning" and selected = "night_policy (72 * Hour_ns) 0" and
      L = shanghai and window = "(''night'', True, ''night:2026-08-07'')", OF api_revision _ api_doc] night_at(1)
  by (auto simp: api_abs)

end
