(* ===== verification/Expiry.thy ===== *)
theory Expiry
  imports Histories
begin

text \<open>
  Histories of a workload that has expired under a policy that scales down: it is held at the expired
  target, through windows and outside of them, until new images bring it back. The condition on the two
  targets that this needs, and what happens without it.
\<close>

section \<open>Held at the expired target\<close>

text \<open>
  The recorded revision is the given one, first seen no later than the given instant, and the count to
  restore is live, or in the snapshot of a workload that was scaled down for a window or for its age. The
  window may be skipped; if it is not, it was entered with this revision.
\<close>

definition held :: "Policy \<Rightarrow> string \<Rightarrow> LifecycleRevision \<Rightarrow> int \<Rightarrow> int \<Rightarrow> phase option \<times> int \<Rightarrow> bool" where
  "held selected uid revision seen_by n b \<longleftrightarrow>
     (\<exists>p. fst b = Some p \<and> ph_uid p = uid \<and> ph_tracking p = Rev_TrackingSpecHash revision \<and>
        ph_revision p = Rev_RevisionHash revision \<and> t_ns (ph_first p) \<le> seen_by \<and>
        (ph_skip p \<noteq> None \<or> ph_entry p \<in> {[], Rev_RevisionHash revision}) \<and>
        (ph_snapshot p = None \<and> snd b = n \<or>
         ph_snapshot p = Some n \<and> (snd b = min (ScheduledDown (Policy_Replicas selected)) n \<or> snd b = min (Expired (Policy_Replicas selected)) n)))"

text \<open>The workload has been scaled down for its age, with the count to restore in the snapshot.\<close>

definition expired_down :: "Policy \<Rightarrow> int \<Rightarrow> phase option \<times> int \<Rightarrow> bool" where
  "expired_down selected n b \<longleftrightarrow>
     map_option ph_snapshot (fst b) = Some (Some n) \<and> snd b = min (Expired (Policy_Replicas selected)) n"

text \<open>Every instant of the history is past the maximal age, and the schedule can be evaluated there.\<close>

definition past_age :: "(string \<Rightarrow> location result) \<Rightarrow> Policy \<Rightarrow> int \<Rightarrow> gotime list \<Rightarrow> bool" where
  "past_age L selected seen_by ts \<longleftrightarrow>
     list_all (\<lambda>t. seen_by + MaxAge (Policy_Lifecycle selected) \<le> t_ns t \<and> \<not> isl (schedule_at L (UTC t) (Policy_Schedule selected))) ts"

text \<open>The count at which the workload is held does not look like an override to an open window.\<close>

definition no_false_override :: "Policy \<Rightarrow> bool \<Rightarrow> bool" where
  "no_false_override selected down \<longleftrightarrow> (down \<longrightarrow> Expired (Policy_Replicas selected) \<le> ScheduledDown (Policy_Replicas selected))"

lemma Decide_expired:
  assumes "t_ns (ph_first p) + MaxAge (Policy_Lifecycle selected) \<le> t_ns now" "ExpiredAction (Policy_Lifecycle selected) \<noteq> ''delete''"
    and d: "d = Decide (phase_input now selected live name down p)"
  shows "\<not> DeleteWorkload d" "NeedsSnapshot d \<longleftrightarrow> ph_snapshot p = None" "\<not> ClearSnapshotAfterScale d"
    "ShouldScale d \<longleftrightarrow> DesiredReplicas d \<noteq> live"
    "DesiredReplicas d = min (Expired (Policy_Replicas selected)) (case ph_snapshot p of None \<Rightarrow> live | Some n \<Rightarrow> n)"
  unfolding d Decide_def downDecision_def Let_def phase_input_def using assms(1,2)
  by (simp_all add: Before_def Add_def split: option.split)

lemma held_enter:
  "held selected uid revision seen_by n (Some p, live) \<Longrightarrow>
   held selected uid revision seen_by n (Some (enter (Rev_RevisionHash revision) down inst p), live)"
  by (auto simp: held_def enter_def Let_def)

lemma held_settle:
  assumes "held selected uid revision seen_by n (Some p, live)" "no_false_override selected down"
  shows "settle (Rev_RevisionHash revision) (ScheduledDown (Policy_Replicas selected)) down p live = (p, live, False)"
  using assms by (auto simp: held_def settle_def redeployed_def overridden_def no_false_override_def)

lemma held_act:
  assumes q: "held selected uid revision seen_by n (Some q, live)" and now: "seen_by + MaxAge (Policy_Lifecycle selected) \<le> t_ns now"
    and keep: "ExpiredAction (Policy_Lifecycle selected) \<noteq> ''delete''" and d: "d = Decide (phase_input now selected live name down q)"
  shows "held selected uid revision seen_by n (machine_act selected d live q live q) \<and>
    expired_down selected n (machine_act selected d live q live q)"
proof -
  have "t_ns (ph_first q) + MaxAge (Policy_Lifecycle selected) \<le> t_ns now" using q now by (auto simp: held_def)
  note facts = Decide_expired[OF this keep d]
  show ?thesis
    using q by (cases "ph_snapshot q") (auto simp: held_def expired_down_def machine_act_def facts)
qed

lemma held_step:
  assumes held: "held selected uid revision seen_by n b" and uid: "uid \<noteq> []"
    and now: "seen_by + MaxAge (Policy_Lifecycle selected) \<le> t_ns now" and keep: "ExpiredAction (Policy_Lifecycle selected) \<noteq> ''delete''"
    and targets: "no_false_override selected down"
  shows "held selected uid revision seen_by n (snd (machine_step selected uid revision now (name, down, inst) b)) \<and>
    expired_down selected n (snd (machine_step selected uid revision now (name, down, inst) b))"
proof -
  from held obtain p where p: "fst b = Some p" "ph_uid p = uid" "ph_tracking p = Rev_TrackingSpecHash revision"
    "ph_revision p = Rev_RevisionHash revision" unfolding held_def by blast
  let ?q = "enter (Rev_RevisionHash revision) down inst p"
  have q: "held selected uid revision seen_by n (Some ?q, snd b)"
    by (rule held_enter) (use held p(1) in \<open>simp add: held_def\<close>)
  show ?thesis
    using held_act[OF q now keep refl] p uid
    by (simp add: machine_step_def machine_window_def seen_same held_settle[OF q targets] Let_def)
qed

lemma held_runs:
  assumes "held selected uid revision seen_by n b" "uid \<noteq> []" "ExpiredAction (Policy_Lifecycle selected) \<noteq> ''delete''"
    and "list_all (\<lambda>t. seen_by + MaxAge (Policy_Lifecycle selected) \<le> t_ns t \<and> no_false_override selected (fst (snd (window t)))) ts"
  shows "held selected uid revision seen_by n (machine_runs selected uid revision window ts b) \<and>
    (ts \<noteq> [] \<longrightarrow> expired_down selected n (machine_runs selected uid revision window ts b))"
  using assms
proof (induction ts rule: rev_induct)
  case (snoc t ts)
  obtain name down inst where w: "window t = (name, down, inst)" by (metis prod_cases3)
  show ?case using snoc held_step[OF snoc.IH[THEN conjunct1], of "UTC t" down name inst] by (simp add: w)
qed simp

text \<open>New images start a new age: outside of every window the snapshot is restored.\<close>

lemma restored_step:
  assumes held: "held selected uid revision seen_by n b" and down: "expired_down selected n b" and uid: "uid \<noteq> []"
    and new: "Rev_RevisionHash other \<noteq> Rev_RevisionHash revision" and age: "0 < MaxAge (Policy_Lifecycle selected)"
  shows "map_option ph_snapshot (fst (snd (machine_step selected uid other now (name, False, inst) b))) = Some None \<and>
    snd (snd (machine_step selected uid other now (name, False, inst) b)) = n"
proof -
  from held down obtain p where p: "fst b = Some p" "ph_uid p = uid" "ph_revision p = Rev_RevisionHash revision" "ph_snapshot p = Some n"
    unfolding held_def expired_down_def by auto
  define q where "q = p\<lparr>ph_tracking := Rev_TrackingSpecHash other, ph_revision := Rev_RevisionHash other, ph_first := now\<rparr>"
  define e where "e = q\<lparr>ph_entry := [], ph_instance := [], ph_skip := None\<rparr>"
  have "seen uid other now (fst b) = (q, True)" using p(1-3) uid new by (simp add: seen_def q_def)
  moreover have "enter (Rev_RevisionHash other) False inst q = e" by (simp add: enter_def e_def)
  moreover have "settle (Rev_RevisionHash other) (ScheduledDown (Policy_Replicas selected)) False e (snd b) = (e, snd b, False)"
    by (simp add: settle_def redeployed_def overridden_def)
  moreover have "t_ns now < t_ns (ph_first e) + MaxAge (Policy_Lifecycle selected)" "ph_skip e = None" "ph_snapshot e = Some n"
    using age p(4) by (simp_all add: e_def q_def)
  note facts = Decide_unskipped[OF this(1,2) refl, of "snd b" name False] this(3)
  ultimately show ?thesis by (simp add: machine_step_def machine_window_def machine_act_def facts Let_def)
qed

lemma orderly_containers:
  "orderly Sum256 current selected hpas ts m \<Longrightarrow> orderly Sum256 (current\<lparr>Workload_Containers := cs\<rparr>) selected hpas ts m"
  by (simp add: orderly_def wf_input_def workload_Key_def hpaTargetsWorkload_def)

section \<open>Theorems\<close>

text \<open>
  C11: an expired workload is held at the expired target until it is redeployed, in any orderly history:
  calls succeed, no HPA targets the workload, the clock does not run backwards. A workload whose images
  have been seen for longer than the maximal age, at n replicas or scaled down from n, is reconciled any
  number of times; the policy does not delete, nobody scales the workload by hand, and a window that is
  open at any of these times has a target no smaller than the expired one. Then every reconciliation
  succeeds, and the workload runs at the smaller of n and the expired target, whether or not a window
  is open, skipped or not, with n in the snapshot. If it then gets new images, and the next
  reconciliation after that finds no window open, that one restores exactly n, and the snapshot is gone.
\<close>

theorem expired_held_until_redeploy:
  assumes "CalculateRevision Sum256 (Workload_Containers current) (Revision_Spec (Policy_Lifecycle selected)) = Inr revision"
    and "CalculateRevision Sum256 containers (Revision_Spec (Policy_Lifecycle selected)) = Inr other"
    and "Rev_RevisionHash other \<noteq> Rev_RevisionHash revision"
    and "orderly Sum256 current selected hpas (ts @ [later]) m"
    and "past_age L selected seen_by ts" and "ts \<noteq> []" and "0 < MaxAge (Policy_Lifecycle selected)"
    and "ExpiredAction (Policy_Lifecycle selected) \<noteq> ''delete''"
    and "list_all (\<lambda>t. no_false_override selected (fst (snd (window_at L selected t)))) ts"
    and "schedule_at L (UTC later) (Policy_Schedule selected) = Inr (name, False, inst)"
    and "held selected (Workload_UID current) revision seen_by n (abs_memory (workload_Key current) m)"
  shows "\<exists>m1 m2. reconciles (checked_reconciler Sum256 L hpas) current selected ts m = Some m1 \<and>
    mem_replicas m1 = min (Expired (Policy_Replicas selected)) n \<and>
    map_option Snap_Replicas (snapshot_of (workload_Key current) (mem_doc m1)) = Some n \<and>
    reconciles (checked_reconciler Sum256 L hpas) (current\<lparr>Workload_Containers := containers\<rparr>) selected [later] m1 = Some m2 \<and>
    mem_replicas m2 = n \<and> snapshot_of (workload_Key current) (mem_doc m2) = None"
proof -
  let ?key = "workload_Key current" and ?uid = "Workload_UID current" and ?new = "current\<lparr>Workload_Containers := containers\<rparr>"
  have key: "workload_Key ?new = ?key" "Workload_UID ?new = ?uid" by (simp_all add: workload_Key_def)
  have "list_all (\<lambda>t. schedule_at L (UTC t) (Policy_Schedule selected) = Inr (window_at L selected t)) ts"
    using assms(5) by (auto simp: past_age_def window_at_def list_all_iff isl_def split: sum.splits)
  then obtain m1 where m1: "reconciles (checked_reconciler Sum256 L hpas) current selected ts m = Some m1"
    "abs_memory ?key m1 = machine_runs selected ?uid revision (window_at L selected) ts (abs_memory ?key m)"
    "orderly Sum256 current selected hpas [later] m1"
    by (rule reconciles_orderly[OF assms(1) _ assms(4)])
  have "list_all (\<lambda>t. seen_by + MaxAge (Policy_Lifecycle selected) \<le> t_ns t \<and>
      no_false_override selected (fst (snd (window_at L selected t)))) ts"
    using assms(5,9) by (simp add: past_age_def list_all_iff)
  note runs = held_runs[OF assms(11) orderly_uid[OF assms(4)] assms(8) this, folded m1(2)]
  have held: "held selected ?uid revision seen_by n (abs_memory ?key m1)" "expired_down selected n (abs_memory ?key m1)"
    using runs assms(6) by blast+
  have "CalculateRevision Sum256 (Workload_Containers ?new) (Revision_Spec (Policy_Lifecycle selected)) = Inr other"
    "orderly Sum256 ?new selected hpas [later] m1" using assms(2) orderly_containers[OF m1(3)] by simp_all
  from orderly_step[OF this(2,1) assms(10)] obtain dec m2 where
    run: "run_state (Reconcile (checked_reconciler Sum256 L hpas) ?new selected) (m1\<lparr>mem_now := later\<rparr>) = ((dec, None), m2)"
    and step: "machine_step selected ?uid other (UTC later) (name, False, inst) (abs_memory ?key m1) = (dec, abs_memory ?key m2)"
    unfolding key by blast
  have m2: "reconciles (checked_reconciler Sum256 L hpas) ?new selected [later] m1 = Some m2" using run by simp
  have "map_option ph_snapshot (fst (abs_memory ?key m2)) = Some None \<and> snd (abs_memory ?key m2) = n"
    using restored_step[OF held orderly_uid[OF assms(4)] assms(3,7), of "UTC later" name inst] by (simp only: step snd_conv)
  then have "mem_replicas m2 = n \<and> snapshot_of ?key (mem_doc m2) = None"
    by (auto simp: abs_memory_def snapshot_of_def)
  moreover have "mem_replicas m1 = min (Expired (Policy_Replicas selected)) n \<and> map_option Snap_Replicas (snapshot_of ?key (mem_doc m1)) = Some n"
    using held(2) by (auto simp: expired_down_def abs_memory_def snapshot_of_def)
  ultimately show ?thesis using m1(1) m2 by blast
qed

section \<open>Examples\<close>

text \<open>Five replicas of the second image, seen on Friday evening, under a policy that lets images live for an hour.\<close>

lemma night_past_age: "past_age shanghai (night_policy Hour_ns 0) (t_ns friday_evening) [saturday_morning, saturday_noon]"
  by (simp add: past_age_def night_at)
    (simp add: night_policy_def friday_evening_def saturday_morning_def saturday_noon_def Add_def)

lemma night_expiry:
  "ExpiredAction (Policy_Lifecycle (night_policy maxAge 0)) \<noteq> ''delete''" "no_false_override (night_policy maxAge 0) down"
  "Expired (Policy_Replicas (night_policy maxAge 0)) = 0"
  by (simp_all add: night_policy_def defaultLifecycle_def no_false_override_def)

text \<open>A digest of 32 bytes that tells the third image from all others.\<close>

definition third_digest :: "string \<Rightarrow> string" where
  "third_digest x = replicate 31 (CHR 0x00) @ [if x = json_containers (app_image ''v3'') then CHR 0x01 else CHR 0x00]"

lemma third_digest_facts: "length (third_digest x) = 32"
  "hashJSON third_digest (json_containers (app_image ''v3'')) \<noteq> hashJSON third_digest (json_containers (app_image ''v2''))"
proof -
  have "json_containers (app_image ''v3'') \<noteq> json_containers (app_image ''v2'')" using image_hashes by metis
  then have "third_digest (json_containers (app_image ''v3'')) \<noteq> third_digest (json_containers (app_image ''v2''))"
    by (simp add: third_digest_def)
  then show "hashJSON third_digest (json_containers (app_image ''v3'')) \<noteq> hashJSON third_digest (json_containers (app_image ''v2''))"
    by (simp add: hashJSON_inj)
qed (simp add: third_digest_def)

theorem expired_held_until_redeploy_witness:
  "\<exists>s m1 m2. State_FirstSeenAt s = friday_evening \<and>
    reconciles (checked_reconciler third_digest shanghai [other_hpa]) (sample_workload\<lparr>Workload_Containers := app_image ''v2''\<rparr>)
      (night_policy Hour_ns 0) [saturday_morning, saturday_noon] (api_memory s 5 friday_evening) = Some m1 \<and> mem_replicas m1 = 0 \<and>
    reconciles (checked_reconciler third_digest shanghai [other_hpa]) (sample_workload\<lparr>Workload_Containers := app_image ''v3''\<rparr>)
      (night_policy Hour_ns 0) [saturday_noon] m1 = Some m2 \<and> mem_replicas m2 = 5"
proof -
  let ?p = "night_policy Hour_ns 0" and ?w = "sample_workload\<lparr>Workload_Containers := app_image ''v2''\<rparr>"
  obtain r2 where r2: "CalculateRevision third_digest (app_image ''v2'') (Revision_Spec (Policy_Lifecycle ?p)) = Inr r2"
    "Rev_RevisionHash r2 = hashJSON third_digest (json_containers (app_image ''v2''))" by (rule image_revision)
  obtain r3 where r3: "CalculateRevision third_digest (app_image ''v3'') (Revision_Spec (Policy_Lifecycle ?p)) = Inr r3"
    "Rev_RevisionHash r3 = hashJSON third_digest (json_containers (app_image ''v3''))" by (rule image_revision)
  let ?s = "api_state\<lparr>State_TrackingSpecHash := Rev_TrackingSpecHash r2, State_RevisionHash := Rev_RevisionHash r2\<rparr>"
  let ?m = "api_memory ?s 5 friday_evening"
  have hashes: "Rev_RevisionHash r3 \<noteq> Rev_RevisionHash r2" using third_digest_facts(2) by (simp add: r2 r3)
  have key: "workload_Key ?w = ''Deployment/shop/api''" "Workload_UID ?w = ''u1''"
    by (simp_all add: workload_Key_def sample_workload_def)
  have held: "held ?p (Workload_UID ?w) r2 (t_ns friday_evening) 5 (abs_memory (workload_Key ?w) ?m)"
    unfolding key api_abs by (simp add: held_def phase_of_def api_state_def sample_state_def)
  have age: "0 < MaxAge (Policy_Lifecycle ?p)" by (simp add: night_policy_def)
  have "valid_hash (Rev_TrackingSpecHash r2)" "valid_hash (Rev_RevisionHash r2)"
    using CalculateRevision_valid[OF third_digest_facts(1) r2(1)] by auto
  then have valid: "valid_api_state ?s" using api_state_valid by (auto simp: valid_api_state_def valid_state_def state_Key_def)
  have "orderly third_digest ?w ?p [other_hpa] ([saturday_morning, saturday_noon] @ [saturday_noon]) ?m"
    by (rule night_orderly[OF valid]) (use saturday_order in \<open>simp_all add: third_digest_facts(1) key(1)\<close>,
      simp_all add: wf_input_def third_digest_facts(1) sample_workload_def night_policy_def worker_policy_def hpaTargetsWorkload_def other_hpa_def api_hpa_def)
  moreover have "CalculateRevision third_digest (Workload_Containers ?w) (Revision_Spec (Policy_Lifecycle ?p)) = Inr r2" using r2(1) by simp
  ultimately have "\<exists>m1 m2. reconciles (checked_reconciler third_digest shanghai [other_hpa]) ?w ?p [saturday_morning, saturday_noon] ?m = Some m1 \<and> mem_replicas m1 = 0 \<and>
      reconciles (checked_reconciler third_digest shanghai [other_hpa]) (sample_workload\<lparr>Workload_Containers := app_image ''v3''\<rparr>) ?p [saturday_noon] m1 = Some m2 \<and>
      mem_replicas m2 = 5"
    using expired_held_until_redeploy[OF _ r3(1) hashes _ night_past_age _ age night_expiry(1) _ _ held, of "[other_hpa]" saturday_noon "[]" "[]"]
    by (auto simp: night_expiry(2,3) night_at simp del: reconciles.simps)
  moreover have "State_FirstSeenAt ?s = friday_evening" by (simp add: api_state_def)
  ultimately show ?thesis by blast
qed

text \<open>
  C38: an expired workload can lose its original count. The workload has expired and its snapshot
  remembers 10 replicas; it runs at the policy's expired target 3, which lies above the scheduled
  target 0. When a down window opens, the next reconciliation takes the 3 replicas for an external
  override, drops the snapshot, and the expiry decision at once captures a new one: 10 is replaced by 3
  in the stored state, with no redeploy or manual change having happened.
\<close>

theorem expired_snapshot_replaced:
  "case run_state (Reconcile (memory_reconciler zero_digest shanghai) sample_workload (night_policy Hour_ns 3))
      (api_memory (api_state\<lparr>State_ReplicaSnapshot := Some \<lparr>Snap_Replicas = 10, Snap_CapturedAt = friday_evening,
          Snap_CapturedReason = ReasonRevisionExpired\<rparr>\<rparr>) 3 saturday_morning) of
     ((decision, err), m) \<Rightarrow> err = None \<and> mem_replicas m = 3 \<and>
       map_option Snap_Replicas (snapshot_of ''Deployment/shop/api'' (mem_doc m)) = Some 3"
proof -
  let ?s = "api_state\<lparr>State_ReplicaSnapshot := Some \<lparr>Snap_Replicas = 10, Snap_CapturedAt = friday_evening,
          Snap_CapturedReason = ReasonRevisionExpired\<rparr>\<rparr>"
  let ?m = "api_memory ?s 3 saturday_morning"
  obtain dec m' where m': "run_state (Reconcile (memory_reconciler zero_digest shanghai) sample_workload (night_policy Hour_ns 3)) ?m = ((dec, None), m')"
    "machine_step (night_policy Hour_ns 3) ''u1'' api_revision (UTC saturday_morning) (''night'', True, ''night:2026-08-07'')
       (Some (phase_of ?s), 3) = (dec, abs_memory ''Deployment/shop/api'' m')"
    using Reconcile_machine[where m = ?m and selected = "night_policy Hour_ns 3" and L = shanghai and
        window = "(''night'', True, ''night:2026-08-07'')", OF api_revision _ api_doc] night_at(1)
    by (auto simp: api_abs simp del: phase_of_updates)
  have "(case snd (machine_step (night_policy Hour_ns 3) ''u1'' api_revision (UTC saturday_morning) (''night'', True, ''night:2026-08-07'')
       (Some (phase_of ?s), 3)) of (p, n) \<Rightarrow> map_option ph_snapshot p = Some (Some 3) \<and> n = 3)"
    by (simp add: machine_step_def machine_window_def seen_def enter_def settle_def redeployed_def overridden_def machine_act_def
        phase_input_def decide_defs api_defs defaultLifecycle_def UTC_def saturday_morning_def friday_evening_def)
  then have "mem_replicas m' = 3 \<and> map_option Snap_Replicas (snapshot_of ''Deployment/shop/api'' (mem_doc m')) = Some 3"
    unfolding m'(2) by (auto simp: abs_memory_def snapshot_of_def)
  then show ?thesis unfolding m'(1) by auto
qed

end
