(* ===== verification/Wire_Codec.thy ===== *)
theory Wire_Codec
  imports State_Roundtrip
begin

text \<open>
  A codec and an API server for examples: every document has a wire format that reads back, and the server
  has other writers, which replace the object while the store is about to update it. They show that the
  hypotheses of \<open>State_Roundtrip\<close> can hold.
\<close>

section \<open>Writers and readers\<close>

type_synonym 'a reader = "string \<Rightarrow> ('a \<times> string) option"

definition reads_all :: "('a \<Rightarrow> string) \<Rightarrow> 'a reader \<Rightarrow> bool" where
  "reads_all enc dec \<longleftrightarrow> (\<forall>a rest. dec (enc a @ rest) = Some (a, rest))"

definition enc_nat :: "nat \<Rightarrow> string" where
  "enc_nat n = show_nat n @ '';''"

definition dec_nat :: "nat reader" where
  "dec_nat s = (let ds = takeWhile is_digit s in
     case drop (length ds) s of [] \<Rightarrow> None | _ # rest \<Rightarrow> Some (nat (digits_val ds), rest))"

definition enc_int :: "int \<Rightarrow> string" where
  "enc_int i = (if i < 0 then CHR ''-'' else CHR ''+'') # enc_nat (nat \<bar>i\<bar>)"

definition dec_int :: "int reader" where
  "dec_int s = (case s of [] \<Rightarrow> None | c # s \<Rightarrow> map_option (apfst (\<lambda>n. if c = CHR ''-'' then - int n else int n)) (dec_nat s))"

definition enc_text :: "string \<Rightarrow> string" where
  "enc_text t = enc_nat (length t) @ t"

definition dec_text :: "string reader" where
  "dec_text s = (case dec_nat s of None \<Rightarrow> None | Some (n, s) \<Rightarrow> Some (take n s, drop n s))"

definition enc_pair :: "('a \<Rightarrow> string) \<Rightarrow> ('b \<Rightarrow> string) \<Rightarrow> 'a \<times> 'b \<Rightarrow> string" where
  "enc_pair f g = (\<lambda>(a, b). f a @ g b)"

definition dec_pair :: "'a reader \<Rightarrow> 'b reader \<Rightarrow> ('a \<times> 'b) reader" where
  "dec_pair f g s = (case f s of None \<Rightarrow> None | Some (a, s) \<Rightarrow> (case g s of None \<Rightarrow> None | Some (b, s) \<Rightarrow> Some ((a, b), s)))"

primrec dec_times :: "'a reader \<Rightarrow> nat \<Rightarrow> 'a list reader" where
  "dec_times f 0 s = Some ([], s)"
| "dec_times f (Suc n) s = (case f s of None \<Rightarrow> None | Some (a, s) \<Rightarrow> map_option (apfst (Cons a)) (dec_times f n s))"

definition enc_list :: "('a \<Rightarrow> string) \<Rightarrow> 'a list \<Rightarrow> string" where
  "enc_list f as = enc_nat (length as) @ concat (map f as)"

definition dec_list :: "'a reader \<Rightarrow> 'a list reader" where
  "dec_list f s = (case dec_nat s of None \<Rightarrow> None | Some (n, s) \<Rightarrow> dec_times f n s)"

text \<open>A value by way of another one: records by way of tuples, options by way of lists.\<close>

definition dec_by :: "('b \<Rightarrow> 'a) \<Rightarrow> 'b reader \<Rightarrow> 'a reader" where
  "dec_by f dec s = map_option (apfst f) (dec s)"

definition enc_option :: "('a \<Rightarrow> string) \<Rightarrow> 'a option \<Rightarrow> string" where
  "enc_option f x = enc_list f (case x of None \<Rightarrow> [] | Some a \<Rightarrow> [a])"

definition dec_option :: "'a reader \<Rightarrow> 'a option reader" where
  "dec_option f = dec_by (\<lambda>as. case as of [] \<Rightarrow> None | a # _ \<Rightarrow> Some a) (dec_list f)"

lemma reads_nat: "reads_all enc_nat dec_nat"
proof -
  have "\<not> is_digit (CHR '';'')" by code_simp
  then have "takeWhile is_digit (show_nat n @ CHR '';'' # rest) = show_nat n" for n rest
    using show_nat_digits[of n] by (simp add: takeWhile_append2 list_all_iff)
  then show ?thesis by (simp add: reads_all_def enc_nat_def dec_nat_def digits_val_show_nat Let_def)
qed

lemma reads_int: "reads_all enc_int dec_int"
  using reads_nat by (simp add: reads_all_def enc_int_def dec_int_def)

lemma reads_text: "reads_all enc_text dec_text"
  using reads_nat by (simp add: reads_all_def enc_text_def dec_text_def)

lemma reads_pair: "reads_all f f' \<Longrightarrow> reads_all g g' \<Longrightarrow> reads_all (enc_pair f g) (dec_pair f' g')"
  by (simp add: reads_all_def enc_pair_def dec_pair_def)

lemma reads_list: "reads_all f f' \<Longrightarrow> reads_all (enc_list f) (dec_list f')"
proof -
  assume f: "reads_all f f'"
  have "dec_times f' (length as) (concat (map f as) @ rest) = Some (as, rest)" for as rest
    using f by (induction as) (simp_all add: reads_all_def)
  with reads_nat show ?thesis by (simp add: reads_all_def enc_list_def dec_list_def)
qed

lemma reads_by: "reads_all enc dec \<Longrightarrow> (\<And>a. f (g a) = a) \<Longrightarrow> reads_all (\<lambda>a. enc (g a)) (dec_by f dec)"
  by (simp add: reads_all_def dec_by_def)

lemma reads_option: "reads_all f f' \<Longrightarrow> reads_all (enc_option f) (dec_option f')"
  unfolding enc_option_def dec_option_def by (rule reads_by[OF reads_list]) (simp_all split: option.split)

section \<open>The codec\<close>

abbreviation enc_texts :: "string list \<Rightarrow> string" where "enc_texts \<equiv> enc_list enc_text"

definition enc_time :: "gotime \<Rightarrow> string" where
  "enc_time t = enc_pair enc_int enc_int (t_ns t, t_offset t)"

definition dec_time :: "gotime reader" where
  "dec_time = dec_by (\<lambda>(ns, off). \<lparr>t_ns = ns, t_offset = off\<rparr>) (dec_pair dec_int dec_int)"

definition enc_snapshot :: "ReplicaSnapshot \<Rightarrow> string" where
  "enc_snapshot s = enc_pair enc_int (enc_pair enc_time enc_text) (Snap_Replicas s, Snap_CapturedAt s, Snap_CapturedReason s)"

definition dec_snapshot :: "ReplicaSnapshot reader" where
  "dec_snapshot = dec_by (\<lambda>(n, t, reason). \<lparr>Snap_Replicas = n, Snap_CapturedAt = t, Snap_CapturedReason = reason\<rparr>)
     (dec_pair dec_int (dec_pair dec_time dec_text))"

definition enc_container :: "Container \<Rightarrow> string" where
  "enc_container c = enc_pair enc_text enc_text (Container_Name c, Container_Image c)"

definition dec_container :: "Container reader" where
  "dec_container = dec_by (\<lambda>(n, i). \<lparr>Container_Name = n, Container_Image = i\<rparr>) (dec_pair dec_text dec_text)"

definition enc_state :: "WorkloadState \<Rightarrow> string" where
  "enc_state s = enc_pair enc_texts (enc_pair (enc_list enc_container) (enc_pair enc_time (enc_pair enc_time
       (enc_pair (enc_option enc_snapshot) enc_nat))))
     ([State_Kind s, State_Namespace s, State_Name s, State_WorkloadUID s, State_LastPolicyName s, State_TrackingSpecHash s,
       State_RevisionHash s, State_Source (State_Revision s), State_WindowEntryRevision s, State_WindowInstanceID s, State_ScaleDownSkipReason s],
      State_Containers (State_Revision s), State_FirstSeenAt s, State_LastSeenAt s, State_ReplicaSnapshot s,
      if State_ScaleDownSkipped s then 1 else 0)"

definition dec_state :: "WorkloadState reader" where
  "dec_state = dec_by (\<lambda>(ts, cs, first, last, snap, skipped).
       \<lparr>State_Kind = ts ! 0, State_Namespace = ts ! 1, State_Name = ts ! 2, State_WorkloadUID = ts ! 3, State_LastPolicyName = ts ! 4,
        State_TrackingSpecHash = ts ! 5, State_RevisionHash = ts ! 6,
        State_Revision = \<lparr>State_Source = ts ! 7, State_Containers = cs\<rparr>, State_FirstSeenAt = first, State_LastSeenAt = last,
        State_ReplicaSnapshot = snap, State_WindowEntryRevision = ts ! 8, State_WindowInstanceID = ts ! 9,
        State_ScaleDownSkipped = (skipped = 1), State_ScaleDownSkipReason = ts ! 10\<rparr>)
     (dec_pair (dec_list dec_text) (dec_pair (dec_list dec_container) (dec_pair dec_time (dec_pair dec_time
       (dec_pair (dec_option dec_snapshot) dec_nat)))))"

definition enc_document :: "Document \<Rightarrow> string" where
  "enc_document d = enc_pair enc_int (enc_option (enc_list (enc_pair enc_text enc_state))) (Doc_FormatVersion d, Doc_States d)"

definition dec_document :: "Document reader" where
  "dec_document = dec_by (\<lambda>(v, m). \<lparr>Doc_FormatVersion = v, Doc_States = m\<rparr>)
     (dec_pair dec_int (dec_option (dec_list (dec_pair dec_text dec_state))))"

definition wire_codec :: json_codec where
  "wire_codec =
     \<lparr>Marshal_wire = \<lambda>d. Inr (enc_document d),
      Valid_json = \<lambda>p. if dec_document p = None then Some (errors_New ''syntax'') else None,
      Decode_wire = \<lambda>p. case dec_document p of None \<Rightarrow> Inl (errors_New ''syntax'') | Some (d, _) \<Rightarrow> Inr d,
      Decode_next = \<lambda>p. case dec_document p of Some (_, []) \<Rightarrow> Inl json_EOF | _ \<Rightarrow> Inr ()\<rparr>"

lemma reads_time: "reads_all enc_time dec_time"
  unfolding enc_time_def dec_time_def by (rule reads_by[OF reads_pair[OF reads_int reads_int]]) simp

lemma reads_snapshot: "reads_all enc_snapshot dec_snapshot"
  unfolding enc_snapshot_def dec_snapshot_def by (rule reads_by[OF reads_pair[OF reads_int reads_pair[OF reads_time reads_text]]]) simp

lemma reads_container: "reads_all enc_container dec_container"
  unfolding enc_container_def dec_container_def by (rule reads_by[OF reads_pair[OF reads_text reads_text]]) simp

lemma reads_state: "reads_all enc_state dec_state"
  unfolding enc_state_def dec_state_def
  by (rule reads_by) (intro reads_pair reads_list reads_option reads_text reads_container reads_time reads_snapshot reads_nat, simp)

lemma reads_document: "reads_all enc_document dec_document"
  unfolding enc_document_def dec_document_def
  by (rule reads_by) (intro reads_pair reads_list reads_option reads_text reads_int reads_state, simp)

lemma wire_codec_reads_back: "reads_back wire_codec"
proof -
  have "dec_document (enc_document d) = Some (d, [])" for d
    using reads_document[unfolded reads_all_def, rule_format, of d "[]"] by simp
  then show ?thesis by (simp add: reads_back_def wire_codec_def same_document_def)
qed

section \<open>A server with other writers\<close>

definition api_conflict :: goerr where "api_conflict = errors_New ''conflict''"

text \<open>The object, and what others will write right before the next updates of the store, which then conflict.\<close>

type_synonym contended = "ConfigMap option \<times> ConfigMap list"

definition contended_server :: "string \<Rightarrow> contended cm_client" where
  "contended_server name =
     \<lparr>cm_Get = \<lambda>n. State (\<lambda>w. (case fst w of None \<Rightarrow> Inl api_notfound | Some cm \<Rightarrow> Inr (cm\<lparr>CM_Name := name\<rparr>), w)),
      cm_Create = \<lambda>cm. State (\<lambda>w. (Inr cm, (Some cm, snd w))),
      cm_Update = \<lambda>cm. State (\<lambda>w. case snd w of [] \<Rightarrow> (Inr cm, (Some cm, [])) | rival # rivals \<Rightarrow> (Inl api_conflict, (Some rival, rivals))),
      cm_ctx_Err = ret None, cm_timer = \<lambda>_. ret None,
      IsNotFound = \<lambda>e. e = api_notfound, IsConflict = \<lambda>e. e = api_conflict, IsAlreadyExists = \<lambda>_. False\<rparr>"

lemma contended_reads_own_writes: "reads_own_writes (contended_server name) name (\<lambda>w cm. fst w = Some cm)"
  by (auto simp: reads_own_writes_def contended_server_def split: option.splits list.splits)

definition contended_store :: "contended ConfigMapStateStore" where
  "contended_store = NewConfigMapStateStore (contended_server ''state'') wire_codec ''kwlm'' ''state''"

text \<open>What the others write: an empty state, next to data of their own.\<close>

definition rival :: ConfigMap where
  "rival = \<lparr>CM_Name = ''state'', CM_Namespace = ''kwlm'', CM_Data = Some [(''owner'', ''else''), (ConfigMapDataKey, enc_document NewDocument)],
     CM_BinaryData = [], CM_Rest = ''7''\<rparr>"

definition sample_payload :: string where
  "sample_payload = enc_document sample_document"

lemma contended_simps [simp]:
  "store_client contended_store = contended_server ''state''" "store_json contended_store = wire_codec" "store_name contended_store = ''state''"
  "store_backoff contended_store = DefaultConflictBackoff" "capacityObserver contended_store = None"
  by (simp_all add: contended_store_def NewConfigMapStateStore_def)

lemma sample_encodes_wire: "EncodeDocument wire_codec sample_document = Inr sample_payload"
proof -
  have "valid_document sample_document" using sample_document_valid by (simp add: spec_iff)
  then show ?thesis
    by (simp add: EncodeDocument_def MarshalJSON_def normalizeDocument_valid sample_document_valid wire_codec_def sample_payload_def)
qed

lemma rival_decodes: "decodeConfigMap wire_codec (rival\<lparr>CM_Name := n\<rparr>) = Inr NewDocument"
proof -
  have "dec_document (enc_document NewDocument) = Some (NewDocument, [])"
    using reads_document[unfolded reads_all_def, rule_format, of NewDocument "[]"] by simp
  moreover have "ValidateDocument NewDocument = None" "normalizeDocument NewDocument = NewDocument"
    by (simp_all add: ValidateDocument_def normalizeDocument_def NewDocument_def)
  ultimately show ?thesis
    by (simp add: decodeConfigMap_def rival_def DecodeDocument_def json_Unmarshal_def UnmarshalJSON_def wire_codec_def)
qed

lemma sample_fits: "\<not> Exceeded (configmap_capacity (with_payload (rival\<lparr>CM_Name := n\<rparr>) sample_payload))"
proof -
  have "length sample_payload \<le> 1000" unfolding sample_payload_def by code_simp
  then show ?thesis by (simp add: configmap_capacity_def with_payload_def rival_def MeasureCapacity_def Let_def)
qed

lemma contended_calls:
  "cm_ctx_Err (contended_server name) = ret None" "sleepContext (contended_server name) delay = ret None"
  "IsConflict (contended_server name) = (\<lambda>e. e = api_conflict)" "IsAlreadyExists (contended_server name) = (\<lambda>_. False)"
  by (simp_all add: contended_server_def sleepContext_def)

text \<open>An attempt to save over an object of the others.\<close>

lemma contended_attempt:
  "run_state (save_operation contended_store sample_payload) (Some rival, rivals) =
     (case rivals of
        [] \<Rightarrow> (Inr (), (Some (with_payload (rival\<lparr>CM_Name := ''state''\<rparr>) sample_payload), []))
      | other # rest \<Rightarrow> (Inl api_conflict, (Some other, rest)))"
  using rival_decodes[of "''state''"] sample_fits[of "''state''"]
  by (cases rivals) (simp_all add: save_operation_def observeCapacity_def contended_server_def Let_def)

lemma contended_loop:
  "\<exists>r w'. run_state (retry_loop contended_store (Suc k) delay (save_operation contended_store sample_payload)) (Some rival, replicate n rival) = (r, w') \<and>
     (if n \<le> k then r = Inr () else \<exists>e. r = Inl e \<and> errors_Is e ErrConflictRetriesExhausted)"
proof (induction k arbitrary: n delay)
  case 0
  then show ?case by (cases n) (simp_all add: contended_attempt contended_calls list_ex_iff)
next
  case (Suc k)
  have again: "run_state (retry_loop contended_store (Suc (Suc k)) delay (save_operation contended_store sample_payload)) (Some rival, replicate (Suc n) rival) =
      run_state (retry_loop contended_store (Suc k) (next_delay DefaultConflictBackoff delay) (save_operation contended_store sample_payload))
        (Some rival, replicate n rival)" for n
    unfolding retry_loop.simps(2)[of _ "Suc k"]
    by (simp add: contended_attempt contended_calls del: retry_loop.simps)
  show ?case
  proof (cases n)
    case 0
    then show ?thesis by (simp add: contended_attempt contended_calls)
  next
    case (Suc j)
    show ?thesis unfolding Suc again using Suc.IH[of "next_delay DefaultConflictBackoff delay" j] by simp
  qed
qed

lemma contended_save:
  obtains r w' where "run_state (store_Save contended_store sample_document) (Some rival, replicate n rival) = (r, w')"
    "if n \<le> 4 then r = None else \<exists>e. r = Some e \<and> errors_Is e ErrConflictRetriesExhausted"
proof -
  have "nat (max 1 (Steps DefaultConflictBackoff)) = Suc 4" by (simp add: DefaultConflictBackoff_def)
  then have retry: "store_retry contended_store op = retry_loop contended_store (Suc 4) (InitialDelay DefaultConflictBackoff) op" for op :: "(contended, unit result) io"
    by (simp only: store_retry_def contended_simps)
  obtain r w' where "run_state (retry_loop contended_store (Suc 4) (InitialDelay DefaultConflictBackoff) (save_operation contended_store sample_payload))
      (Some rival, replicate n rival) = (r, w')" "if n \<le> 4 then r = Inr () else \<exists>e. r = Inl e \<and> errors_Is e ErrConflictRetriesExhausted"
    using contended_loop by blast
  then show thesis
    by (intro that[of "case r of Inl err \<Rightarrow> Some (Errorf ''save state ConfigMap %s/%s: %w'' [Str (store_namespace contended_store), Str ''state''] [err])
        | Inr _ \<Rightarrow> None" w'])
      (auto simp: store_Save_def sample_encodes_wire retry list_ex_iff simp del: retry_loop.simps split: if_splits)
qed

theorem save_then_load_witness:
  "\<exists>w' d' w''. run_state (store_Save contended_store sample_document) (Some rival, replicate 4 rival) = (None, w') \<and>
     run_state (store_Load contended_store) w' = (Inr d', w'') \<and> same_document (normalizeDocument sample_document) d'"
proof -
  obtain r w' where "run_state (store_Save contended_store sample_document) (Some rival, replicate 4 rival) = (r, w')"
    "if (4::nat) \<le> 4 then r = None else \<exists>e. r = Some e \<and> errors_Is e ErrConflictRetriesExhausted" by (rule contended_save)
  then have save: "run_state (store_Save contended_store sample_document) (Some rival, replicate 4 rival) = (None, w')" by simp
  have own: "reads_own_writes (store_client contended_store) (store_name contended_store) (\<lambda>w cm. fst w = Some cm)"
    using contended_reads_own_writes by simp
  have wire: "wire_document sample_document"
    by (simp add: wire_document_def sample_document_def sample_state_def wire_state_def ascii_def list_all_replicate byte_def is_gomap_def)
  have "\<exists>d' w''. run_state (store_Load contended_store) w' = (Inr d', w'') \<and> same_document (normalizeDocument sample_document) d'"
    by (rule save_then_load[OF own _ wire save]) (simp_all add: wire_codec_reads_back contended_calls)
  with save show ?thesis by blast
qed


end
