(* ===== verification/Systems.thy ===== *)
theory Systems
  imports Prelude
begin

text \<open>
  Transition systems: invariants of what can be reached, infinite runs with weak and strong fairness of
  single actions, and ways to show that a goal is reached. With a rank that some step lowers the goal can
  be reached; with a rank that every step of one component lowers and no other step raises, every run
  that is fair to the component reaches it.
\<close>

section \<open>Invariants and goals\<close>

locale invariant_system =
  fixes step :: "'s \<Rightarrow> 's \<Rightarrow> bool" and inv :: "'s \<Rightarrow> bool"
  assumes inv_step: "inv s \<Longrightarrow> step s t \<Longrightarrow> inv t"
begin

lemma reachable_inv: "step\<^sup>*\<^sup>* s t \<Longrightarrow> inv s \<Longrightarrow> inv t"
  by (induction rule: rtranclp_induct) (auto intro: inv_step)

end

locale progress =
  fixes step :: "'s \<Rightarrow> 's \<Rightarrow> bool" and live goal :: "'s \<Rightarrow> bool" and rank :: "'s \<Rightarrow> nat"
  assumes advance: "live s \<Longrightarrow> \<not> goal s \<Longrightarrow> \<exists>t. step s t \<and> live t \<and> rank t < rank s"
begin

lemma can_reach: "live s \<Longrightarrow> \<exists>t. step\<^sup>*\<^sup>* s t \<and> live t \<and> goal t"
proof (induction "rank s" arbitrary: s rule: less_induct)
  case less
  show ?case
  proof (cases "goal s")
    case False
    with advance less.prems obtain t where t: "step s t" "live t" "rank t < rank s" by blast
    with less.hyps[of t] show ?thesis by (meson converse_rtranclp_into_rtranclp)
  qed (use less.prems in blast)
qed

end

section \<open>Fair runs\<close>

text \<open>
  A run is an infinite sequence of states. It is weakly fair to an action that it takes whenever the action
  stays enabled for good, and strongly fair to one that it takes whenever it is enabled again and again.
\<close>

definition is_run :: "('s \<Rightarrow> 's \<Rightarrow> bool) \<Rightarrow> (nat \<Rightarrow> 's) \<Rightarrow> bool" where
  "is_run step \<sigma> \<longleftrightarrow> (\<forall>i. step (\<sigma> i) (\<sigma> (Suc i)))"

definition weakly_fair :: "('s \<Rightarrow> 's \<Rightarrow> bool) \<Rightarrow> (nat \<Rightarrow> 's) \<Rightarrow> bool" where
  "weakly_fair act \<sigma> \<longleftrightarrow> (\<forall>n. (\<forall>m \<ge> n. \<exists>t. act (\<sigma> m) t) \<longrightarrow> (\<exists>m \<ge> n. act (\<sigma> m) (\<sigma> (Suc m))))"

definition strongly_fair :: "('s \<Rightarrow> 's \<Rightarrow> bool) \<Rightarrow> (nat \<Rightarrow> 's) \<Rightarrow> bool" where
  "strongly_fair act \<sigma> \<longleftrightarrow> (\<forall>n. (\<forall>m \<ge> n. \<exists>k \<ge> m. \<exists>t. act (\<sigma> k) t) \<longrightarrow> (\<exists>m \<ge> n. act (\<sigma> m) (\<sigma> (Suc m))))"

lemma weakly_fairD:
  assumes "weakly_fair act \<sigma>" "\<And>m. n \<le> m \<Longrightarrow> \<exists>t. act (\<sigma> m) t"
  obtains m where "n \<le> m" "act (\<sigma> m) (\<sigma> (Suc m))"
  using assms unfolding weakly_fair_def by blast

lemma strongly_fairD:
  assumes "strongly_fair act \<sigma>" "\<And>m. n \<le> m \<Longrightarrow> \<exists>k \<ge> m. \<exists>t. act (\<sigma> k) t"
  obtains m where "n \<le> m" "act (\<sigma> m) (\<sigma> (Suc m))"
  using assms unfolding strongly_fair_def by blast

lemma run_stable:
  assumes "is_run step \<sigma>" "\<And>s t. step s t \<Longrightarrow> P s \<Longrightarrow> P t" "P (\<sigma> n)" "n \<le> m"
  shows "P (\<sigma> m)"
  using assms(4) by (induction rule: dec_induct) (use assms(1-3) in \<open>auto simp: is_run_def\<close>)

lemma run_reachable: "is_run step \<sigma> \<Longrightarrow> step\<^sup>*\<^sup>* (\<sigma> 0) (\<sigma> n)"
  by (induction n) (auto simp: is_run_def intro: rtranclp.rtrancl_into_rtrancl)

text \<open>An action that is enabled until a stable condition holds, and makes it hold, makes it hold for good in a weakly fair run.\<close>

lemma weakly_fair_reaches:
  assumes run: "is_run step \<sigma>" and fair: "weakly_fair act \<sigma>" and start: "J (\<sigma> n)"
    and J: "\<And>s t. step s t \<Longrightarrow> J s \<Longrightarrow> J t" and P: "\<And>s t. step s t \<Longrightarrow> J s \<Longrightarrow> P s \<Longrightarrow> P t"
    and enabled: "\<And>s. J s \<Longrightarrow> \<not> P s \<Longrightarrow> \<exists>t. act s t" and act: "\<And>s t. J s \<Longrightarrow> act s t \<Longrightarrow> P t"
  shows "\<exists>m \<ge> n. \<forall>k \<ge> m. J (\<sigma> k) \<and> P (\<sigma> k)"
proof -
  have inv: "J (\<sigma> m)" if "n \<le> m" for m by (rule run_stable[where P = J, OF run J start that])
  have "\<exists>m \<ge> n. P (\<sigma> m)"
  proof (rule ccontr)
    assume never: "\<not> (\<exists>m \<ge> n. P (\<sigma> m))"
    obtain m where m: "n \<le> m" "act (\<sigma> m) (\<sigma> (Suc m))"
      by (rule weakly_fairD[OF fair, of n]) (use never inv enabled in blast)+
    then have "P (\<sigma> (Suc m))" using act inv by blast
    with never m(1) show False using le_SucI by blast
  qed
  then obtain m where m: "n \<le> m" "P (\<sigma> m)" by blast
  have "J (\<sigma> k) \<and> P (\<sigma> k)" if "m \<le> k" for k
    by (rule run_stable[where P = "\<lambda>s. J s \<and> P s", OF run _ _ that]) (use J P inv m in auto)
  with m(1) show ?thesis by blast
qed

text \<open>A run that ends up in one state is fair to every action that this state does not enable.\<close>

lemma settled_run:
  assumes "step\<^sup>*\<^sup>* s t" "step t t"
  obtains \<sigma> n where "\<sigma> 0 = s" "is_run step \<sigma>" "\<And>m. n \<le> m \<Longrightarrow> \<sigma> m = t"
  using assms(1)
proof (induction arbitrary: thesis rule: converse_rtranclp_induct)
  case base
  show ?case by (rule base[of "\<lambda>_. t" 0]) (use assms(2) in \<open>auto simp: is_run_def\<close>)
next
  case (step s s')
  from step.IH obtain \<sigma> n where \<sigma>: "\<sigma> 0 = s'" "is_run step \<sigma>" "\<And>m. n \<le> m \<Longrightarrow> \<sigma> m = t" by blast
  show ?case
  proof (rule step.prems[of "case_nat s \<sigma>" "Suc n"])
    show "is_run step (case_nat s \<sigma>)" using \<sigma>(1,2) step.hyps(1) by (auto simp: is_run_def split: nat.split)
    show "case_nat s \<sigma> m = t" if "Suc n \<le> m" for m using that \<sigma>(3) by (auto split: nat.split)
  qed simp
qed

lemma settled_fair:
  assumes "\<And>m. n \<le> m \<Longrightarrow> \<sigma> m = t" "\<nexists>u. act t u"
  shows "weakly_fair act \<sigma>" "strongly_fair act \<sigma>"
  unfolding weakly_fair_def strongly_fair_def using assms by (metis nat_le_linear order_trans)+

text \<open>The component whose steps are \<open>own\<close> is never stuck before the goal, whatever the other steps do.\<close>

locale fair_progress = invariant_system step live
  for step :: "'s \<Rightarrow> 's \<Rightarrow> bool" and live :: "'s \<Rightarrow> bool" +
  fixes own :: "'s \<Rightarrow> 's \<Rightarrow> bool" and goal :: "'s \<Rightarrow> bool" and rank :: "'s \<Rightarrow> nat"
  assumes own_step: "own s t \<Longrightarrow> step s t"
    and enabled: "live s \<Longrightarrow> \<not> goal s \<Longrightarrow> \<exists>t. own s t"
    and lowers: "live s \<Longrightarrow> own s t \<Longrightarrow> rank t < rank s"
    and keeps: "live s \<Longrightarrow> step s t \<Longrightarrow> rank t \<le> rank s"
begin

lemma reaches:
  assumes run: "is_run step \<sigma>" and start: "live (\<sigma> n)" and fair: "weakly_fair own \<sigma>"
  shows "\<exists>j \<ge> n. goal (\<sigma> j)"
  using start
proof (induction "rank (\<sigma> n)" arbitrary: n rule: less_induct)
  case less
  have live: "live (\<sigma> m)" if "n \<le> m" for m by (rule run_stable[where P = live, OF run _ less.prems that]) (rule inv_step)
  have le: "rank (\<sigma> m) \<le> rank (\<sigma> n)" if "n \<le> m" for m
    using that
  proof (induction rule: dec_induct)
    case (step k)
    then show ?case using keeps[OF live[OF step.hyps(1)]] run unfolding is_run_def by (meson order_trans)
  qed simp
  show ?case
  proof (cases "\<exists>j \<ge> n. goal (\<sigma> j)")
    case False
    obtain m where m: "n \<le> m" "own (\<sigma> m) (\<sigma> (Suc m))"
      by (rule weakly_fairD[OF fair, of n]) (use False live enabled in blast)+
    then have "rank (\<sigma> (Suc m)) < rank (\<sigma> n)" using lowers[OF live] le[of m] by (meson order_less_le_trans)
    then obtain j where "Suc m \<le> j" "goal (\<sigma> j)" using less.hyps[of "Suc m"] live[of "Suc m"] m(1) by auto
    then show ?thesis using m(1) by (auto intro: exI[of _ j])
  qed
qed

lemma fair_run:
  assumes "live s" and "\<And>s. \<exists>t. step s t"
  obtains \<sigma> where "\<sigma> 0 = s" "is_run step \<sigma>" "weakly_fair own \<sigma>"
proof -
  have next_state: "\<exists>t. live t \<and> step s t \<and> ((\<exists>u. own s u) \<longrightarrow> own s t)" if "live s" for s
    using that assms(2)[of s] own_step[of s] inv_step[of s] by blast
  have "\<exists>\<sigma>. \<forall>n. (live (\<sigma> n) \<and> (n = 0 \<longrightarrow> \<sigma> n = s)) \<and> step (\<sigma> n) (\<sigma> (Suc n)) \<and> ((\<exists>u. own (\<sigma> n) u) \<longrightarrow> own (\<sigma> n) (\<sigma> (Suc n)))"
    by (rule dependent_nat_choice) (use assms(1) next_state in auto)
  then obtain \<sigma> where "\<sigma> 0 = s" "is_run step \<sigma>" "\<And>n. (\<exists>u. own (\<sigma> n) u) \<longrightarrow> own (\<sigma> n) (\<sigma> (Suc n))"
    unfolding is_run_def by blast
  then show thesis using that unfolding weakly_fair_def by blast
qed

end

sublocale fair_progress \<subseteq> progress own live goal rank
proof
  fix s assume "live s" "\<not> goal s"
  with enabled obtain t where "own s t" by blast
  with \<open>live s\<close> show "\<exists>t. own s t \<and> live t \<and> rank t < rank s" using lowers own_step inv_step by blast
qed

end
