(* ===== verification/Policy_Manager.thy ===== *)
theory Policy_Manager
  imports Policy Systems
begin

text \<open>
  Package \<^verbatim>\<open>internal/policy\<close>: decoding of the policy document (\<^verbatim>\<open>decode.go\<close>), the manager that keeps
  the last valid policy set (\<^verbatim>\<open>manager.go\<close>) and the watch that feeds it (\<^verbatim>\<open>watch.go\<close>).

  The YAML library is the record \<open>yaml_env\<close>: for a payload, the node graph of its first document,
  the strict decoding of the first document into the raw policy set, and the outcome of decoding a
  second document. Nodes live in a heap because an alias points back into the graph, which can make
  the graph cyclic; the recursion over it gets the depth of the call stack as its fuel, and running
  out of it is \<open>None\<close>, the crash of the process.
\<close>

section \<open>Decoding (\<^verbatim>\<open>decode.go\<close>)\<close>

datatype node_kind = DocumentNode | SequenceNode | MappingNode | ScalarNode | AliasNode

record yaml_node =
  Node_Kind :: node_kind
  Node_Tag :: string
  Node_Value :: string
  Node_Content :: "nat list"
  Node_Alias :: nat

type_synonym yaml_heap = "nat \<Rightarrow> yaml_node"

record yaml_env =
  yaml_Node :: "string \<Rightarrow> (yaml_heap \<times> nat) result"
  yaml_Strict :: "string \<Rightarrow> rawPolicySet result"
  yaml_Second :: "string \<Rightarrow> unit result"

definition io_EOF :: goerr where
  "io_EOF = errors_New ''EOF''"

definition decodeOne :: "'a result \<Rightarrow> unit result \<Rightarrow> 'a result" where
  "decodeOne first second =
     (case first of
        Inl err \<Rightarrow> Inl (Errorf ''decode policy: %w'' [] [err])
      | Inr target \<Rightarrow>
          (case second of
             Inr _ \<Rightarrow> Inl (errors_New ''decode policy: multiple YAML documents are not allowed'')
           | Inl err \<Rightarrow>
               if err \<noteq> io_EOF then Inl (Errorf ''decode trailing policy document: %w'' [] [err])
               else Inr target))"

text \<open>The loops over child nodes stop at the first error, and with the process when the stack is exhausted.\<close>

fun first_error :: "('a \<Rightarrow> goerr option option) \<Rightarrow> 'a list \<Rightarrow> goerr option option" where
  "first_error f [] = Some None"
| "first_error f (x # xs) =
     (case f x of None \<Rightarrow> None | Some None \<Rightarrow> first_error f xs | Some (Some err) \<Rightarrow> Some (Some err))"

text \<open>The content of a mapping node: keys and values in turn (the parser keeps the number even).\<close>

fun mapping_pairs :: "nat list \<Rightarrow> (nat \<times> nat) list" where
  "mapping_pairs (key # value # rest) = (key, value) # mapping_pairs rest"
| "mapping_pairs _ = []"

primrec rejectNulls :: "nat \<Rightarrow> yaml_heap \<Rightarrow> nat \<Rightarrow> string \<Rightarrow> goerr option option" where
  "rejectNulls 0 h n path = None"
| "rejectNulls (Suc depth) h n path =
     (if Node_Tag (h n) = ''!!null''
      then Some (Some (Errorf ''explicit null is not allowed at %s'' [Str path] []))
      else (case Node_Kind (h n) of
          DocumentNode \<Rightarrow> first_error (\<lambda>child. rejectNulls depth h child path) (Node_Content (h n))
        | MappingNode \<Rightarrow>
            first_error (\<lambda>(key, value). rejectNulls depth h value (path @ ''.'' @ Node_Value (h key)))
              (mapping_pairs (Node_Content (h n)))
        | SequenceNode \<Rightarrow>
            first_error (\<lambda>(index, child). rejectNulls depth h child (path @ ''['' @ appendInt (int index) 0 @ '']''))
              (enumerate 0 (Node_Content (h n)))
        | AliasNode \<Rightarrow> rejectNulls depth h (Node_Alias (h n)) path
        | ScalarNode \<Rightarrow> Some None))"

text \<open>\<^verbatim>\<open>len(bytes.TrimSpace(data)) == 0\<close>: nothing but white space, in UTF-8.\<close>

fun blank :: "string \<Rightarrow> bool" where
  "blank [] = True"
| "blank (c # cs) =
     (if byte c = 32 \<or> 9 \<le> byte c \<and> byte c \<le> 13 then blank cs
      else (case cs of
          [] \<Rightarrow> False
        | d # ds \<Rightarrow>
            if byte c = 194 \<and> (byte d = 133 \<or> byte d = 160) then blank ds
            else (case ds of
                [] \<Rightarrow> False
              | e # es \<Rightarrow>
                  (byte c = 225 \<and> byte d = 154 \<and> byte e = 128 \<or>
                   byte c = 226 \<and> byte d = 128 \<and> (128 \<le> byte e \<and> byte e \<le> 138 \<or> byte e \<in> {168, 169, 175}) \<or>
                   byte c = 226 \<and> byte d = 129 \<and> byte e = 159 \<or>
                   byte c = 227 \<and> byte d = 128 \<and> byte e = 128) \<and> blank es)))"

definition policy_Decode :: "nat \<Rightarrow> policy_env \<Rightarrow> yaml_env \<Rightarrow> string \<Rightarrow> PolicySet result option" where
  "policy_Decode depth env yaml data =
     (if blank data then Some (Inl (errors_New ''policy document is empty''))
      else (case decodeOne (yaml_Node yaml data) (yaml_Second yaml data) of
          Inl err \<Rightarrow> Some (Inl err)
        | Inr (h, root) \<Rightarrow>
            (case rejectNulls depth h root ''$'' of
               None \<Rightarrow> None
             | Some (Some err) \<Rightarrow> Some (Inl err)
             | Some None \<Rightarrow>
                 (case decodeOne (yaml_Strict yaml data) (yaml_Second yaml data) of
                    Inl err \<Rightarrow> Some (Inl err)
                  | Inr raw \<Rightarrow> Some (compilePolicySet env raw)))))"

section \<open>The manager (\<^verbatim>\<open>manager.go\<close>)\<close>

text \<open>
  The manager's lock makes \<^verbatim>\<open>Reload\<close> and \<^verbatim>\<open>Current\<close> atomic. Copying a slice by \<^verbatim>\<open>append\<close> to a nil
  slice turns an empty slice into a nil one, which the tracked containers distinguish.
\<close>

record Manager =
  current :: "PolicySet option"

definition copy_slice :: "'a list option \<Rightarrow> 'a list option" where
  "copy_slice s = (case s of Some (x # xs) \<Rightarrow> Some (x # xs) | _ \<Rightarrow> None)"

definition clonePolicy :: "Policy \<Rightarrow> Policy" where
  "clonePolicy p = p\<lparr>Policy_Lifecycle := (Policy_Lifecycle p)\<lparr>Revision_Spec :=
     (Revision_Spec (Policy_Lifecycle p))\<lparr>Spec_Containers :=
        copy_slice (Spec_Containers (Revision_Spec (Policy_Lifecycle p)))\<rparr>\<rparr>\<rparr>"

definition clonePolicySet :: "PolicySet \<Rightarrow> PolicySet" where
  "clonePolicySet source = source\<lparr>Policies := map clonePolicy (Policies source)\<rparr>"

definition Reload :: "nat \<Rightarrow> policy_env \<Rightarrow> yaml_env \<Rightarrow> Manager \<Rightarrow> string \<Rightarrow> (goerr option \<times> Manager) option" where
  "Reload depth env yaml manager data =
     (case policy_Decode depth env yaml data of
        None \<Rightarrow> None
      | Some (Inl err) \<Rightarrow> Some (Some err, manager)
      | Some (Inr compiled) \<Rightarrow> Some (None, manager\<lparr>current := Some compiled\<rparr>))"

definition Current :: "Manager \<Rightarrow> PolicySet option" where
  "Current manager = (case current manager of None \<Rightarrow> None | Some policies \<Rightarrow> Some (clonePolicySet policies))"

section \<open>The watch (\<^verbatim>\<open>watch.go\<close>)\<close>

abbreviation DefaultConfigMapDataKey :: string where "DefaultConfigMapDataKey \<equiv> ''policies.yaml''"

definition ErrMissingPolicyData :: goerr where
  "ErrMissingPolicyData = errors_New ''policy ConfigMap is missing policy data''"

definition ErrPolicyWatchDisconnected :: goerr where
  "ErrPolicyWatchDisconnected = errors_New ''policy ConfigMap watch disconnected''"

datatype PolicyEventType = EventReloaded | EventReloadRejected | PolicyDeleted | PolicyError | PolicyDisconnected

record PolicyEvent =
  PolicyEvent_Type :: PolicyEventType
  PolicyEvent_Err :: "goerr option"

abbreviation mkPolicyEvent :: "PolicyEventType \<Rightarrow> goerr option \<Rightarrow> PolicyEvent" where
  "mkPolicyEvent t e \<equiv> \<lparr>PolicyEvent_Type = t, PolicyEvent_Err = e\<rparr>"

text \<open>What a watch delivers: a ConfigMap with its name and data, or an object of another type.\<close>

datatype watch_object = WatchConfigMap string "string gomap" | WatchOther string

fun watch_type_name :: "watch_object \<Rightarrow> string" where
  "watch_type_name (WatchConfigMap _ _) = ''*v1.ConfigMap''"
| "watch_type_name (WatchOther t) = t"

type_synonym raw_event = "string \<times> watch_object"

record ConfigMapWatcher =
  Watcher_name :: string
  Watcher_dataKey :: string

definition NewConfigMapWatcher :: "string \<Rightarrow> string \<Rightarrow> ConfigMapWatcher" where
  "NewConfigMapWatcher name dataKey =
     \<lparr>Watcher_name = name, Watcher_dataKey = (if dataKey = [] then DefaultConfigMapDataKey else dataKey)\<rparr>"

text \<open>
  \<^verbatim>\<open>convert\<close>: the event for a raw event, whether it ends the stream, and the manager after it. The
  manager may be a nil pointer. \<^verbatim>\<open>apierrors.FromObject\<close> is the parameter \<open>FromObject\<close>.
\<close>

definition convert ::
  "(Manager \<Rightarrow> string \<Rightarrow> (goerr option \<times> Manager) option) \<Rightarrow> (watch_object \<Rightarrow> goerr) \<Rightarrow> ConfigMapWatcher \<Rightarrow>
   Manager option \<Rightarrow> raw_event \<Rightarrow> (PolicyEvent \<times> bool \<times> Manager option) option" where
  "convert reload FromObject stream manager raw =
     (if fst raw = watch_Error
      then Some (mkPolicyEvent PolicyError (Some (Errorf ''policy ConfigMap watch error: %w'' [] [FromObject (snd raw)])),
             True, manager)
      else (case snd raw of
          WatchOther t \<Rightarrow>
            Some (mkPolicyEvent PolicyError (Some (Errorf ''policy ConfigMap watch returned %T'' [Str t] [])), True, manager)
        | WatchConfigMap name data \<Rightarrow>
            if name \<noteq> Watcher_name stream
            then Some (mkPolicyEvent EventReloadRejected
                   (Some (Errorf ''policy ConfigMap watch returned unexpected object %q'' [Str name] [])), False, manager)
            else if fst raw = watch_Deleted then Some (mkPolicyEvent PolicyDeleted None, False, manager)
            else if fst raw \<noteq> watch_Added \<and> fst raw \<noteq> watch_Modified
            then Some (mkPolicyEvent PolicyError
                   (Some (Errorf ''policy ConfigMap watch returned unsupported event type %q'' [Str (fst raw)] [])), True, manager)
            else (case map_of data (Watcher_dataKey stream) of
                None \<Rightarrow> Some (mkPolicyEvent EventReloadRejected
                   (Some (Errorf ''%w %q'' [Str (Watcher_dataKey stream)] [ErrMissingPolicyData])), False, manager)
              | Some payload \<Rightarrow>
                  (case manager of
                     None \<Rightarrow> Some (mkPolicyEvent EventReloadRejected
                       (Some (errors_New ''policy manager is not configured'')), False, manager)
                   | Some m \<Rightarrow>
                       (case reload m payload of
                          None \<Rightarrow> None
                        | Some (Some err, m') \<Rightarrow> Some (mkPolicyEvent EventReloadRejected
                            (Some (Errorf ''reload policy ConfigMap %q: %w'' [Str (Watcher_name stream)] [err])), False, Some m')
                        | Some (None, m') \<Rightarrow> Some (mkPolicyEvent EventReloaded None, False, Some m'))))))"

text \<open>
  \<^verbatim>\<open>forward\<close>: the state of the goroutine is the raw events the source has still to deliver before it
  closes, for whatever reason it does, the events already sent, the manager, whether the context is
  cancelled, by \<^verbatim>\<open>Stop\<close> or from outside, and whether the result channel is still open. Once the context is
  cancelled a \<^verbatim>\<open>select\<close> may take that at any time, also while sending.
\<close>

record stream_state =
  pending :: "raw_event list"
  sent :: "PolicyEvent list"
  stream_manager :: "Manager option"
  stream_cancelled :: bool
  open_stream :: bool

inductive forward_step ::
  "(Manager option \<Rightarrow> raw_event \<Rightarrow> (PolicyEvent \<times> bool \<times> Manager option) option) \<Rightarrow>
   stream_state \<Rightarrow> stream_state \<Rightarrow> bool" for conv where
  ctx_Done: "open_stream s \<Longrightarrow> stream_cancelled s \<Longrightarrow> forward_step conv s (s\<lparr>open_stream := False\<rparr>)"
| disconnected: "open_stream s \<Longrightarrow> pending s = [] \<Longrightarrow>
    forward_step conv s (s\<lparr>sent := sent s @ [mkPolicyEvent PolicyDisconnected (Some ErrPolicyWatchDisconnected)],
                     open_stream := False\<rparr>)"
| event: "open_stream s \<Longrightarrow> pending s = raw # rest \<Longrightarrow>
    conv (stream_manager s) raw = Some (ev, terminal, m') \<Longrightarrow>
    forward_step conv s (s\<lparr>pending := rest, sent := sent s @ [ev], stream_manager := m', open_stream := \<not> terminal\<rparr>)"
| event_not_sent: "open_stream s \<Longrightarrow> stream_cancelled s \<Longrightarrow> pending s = raw # rest \<Longrightarrow>
    conv (stream_manager s) raw = Some (ev, terminal, m') \<Longrightarrow>
    forward_step conv s (s\<lparr>pending := rest, stream_manager := m', open_stream := False\<rparr>)"
| stop: "forward_step conv s (s\<lparr>stream_cancelled := True\<rparr>)"

definition start_stream :: "Manager option \<Rightarrow> raw_event list \<Rightarrow> stream_state" where
  "start_stream manager events = \<lparr>pending = events, sent = [], stream_manager = manager, stream_cancelled = False,
     open_stream = True\<rparr>"

text \<open>
  \<^verbatim>\<open>Watch\<close>: \<open>client\<close> answers the field selector with an error or with the events the watch will
  deliver.
\<close>

definition watcher_Watch ::
  "(string \<Rightarrow> raw_event list result) \<Rightarrow> ConfigMapWatcher \<Rightarrow> Manager option \<Rightarrow> stream_state result" where
  "watcher_Watch client watcher manager =
     (case client (''metadata.name='' @ Watcher_name watcher) of
        Inl err \<Rightarrow> Inl (Errorf ''watch policy ConfigMap %q: %w'' [Str (Watcher_name watcher)] [err])
      | Inr events \<Rightarrow> Inr (start_stream manager events))"

section \<open>Null values\<close>

text \<open>The nodes \<^verbatim>\<open>rejectNulls\<close> descends into: every child but the keys of a mapping.\<close>

definition children :: "yaml_heap \<Rightarrow> nat \<Rightarrow> nat set" where
  "children h n = (case Node_Kind (h n) of
       DocumentNode \<Rightarrow> set (Node_Content (h n)) | SequenceNode \<Rightarrow> set (Node_Content (h n))
     | MappingNode \<Rightarrow> snd ` set (mapping_pairs (Node_Content (h n)))
     | AliasNode \<Rightarrow> {Node_Alias (h n)} | ScalarNode \<Rightarrow> {})"

inductive visits :: "yaml_heap \<Rightarrow> nat \<Rightarrow> nat \<Rightarrow> bool" for h where
  self: "visits h n n"
| child: "c \<in> children h n \<Longrightarrow> visits h c m \<Longrightarrow> visits h n m"

inductive_cases visits_cases: "visits h n m"

lemma visits_iff: "visits h n m \<longleftrightarrow> m = n \<or> (\<exists>c \<in> children h n. visits h c m)"
  by (auto intro: visits.intros elim: visits_cases)

lemma first_error_total:
  assumes "\<And>x. x \<in> set xs \<Longrightarrow> f x \<noteq> None"
  shows "first_error f xs \<noteq> None \<and> (first_error f xs = Some None \<longleftrightarrow> (\<forall>x \<in> set xs. f x = Some None))"
  using assms by (induction xs) (auto split: option.splits)

text \<open>One level of the descent, when the stack is deep enough for the children.\<close>

lemma rejectNulls_level:
  assumes IH: "\<And>c p. c \<in> children h n \<Longrightarrow> rejectNulls depth h c p \<noteq> None \<and> (rejectNulls depth h c p = Some None \<longleftrightarrow> ok c)"
  shows "rejectNulls (Suc depth) h n path \<noteq> None \<and>
    (rejectNulls (Suc depth) h n path = Some None \<longleftrightarrow> Node_Tag (h n) \<noteq> ''!!null'' \<and> (\<forall>c \<in> children h n. ok c))"
proof (cases "Node_Kind (h n)")
  case DocumentNode
  then show ?thesis
    using IH first_error_total[of "Node_Content (h n)" "\<lambda>c. rejectNulls depth h c path"] by (simp add: children_def)
next
  case MappingNode
  let ?f = "\<lambda>(key, value). rejectNulls depth h value (path @ ''.'' @ Node_Value (h key))"
  let ?ps = "mapping_pairs (Node_Content (h n))"
  have "children h n = snd ` set ?ps" using MappingNode by (simp add: children_def)
  with IH have "\<And>x. x \<in> set ?ps \<Longrightarrow> ?f x \<noteq> None" "(\<forall>x \<in> set ?ps. ?f x = Some None) \<longleftrightarrow> (\<forall>c \<in> children h n. ok c)"
    by (simp_all add: split_beta)
  with first_error_total[of ?ps ?f] MappingNode show ?thesis by simp
next
  case SequenceNode
  let ?f = "\<lambda>(index, child). rejectNulls depth h child (path @ ''['' @ appendInt (int index) 0 @ '']'')"
  let ?ps = "enumerate 0 (Node_Content (h n))"
  have "children h n = snd ` set ?ps" using SequenceNode by (simp add: children_def flip: set_map)
  with IH have "\<And>x. x \<in> set ?ps \<Longrightarrow> ?f x \<noteq> None" "(\<forall>x \<in> set ?ps. ?f x = Some None) \<longleftrightarrow> (\<forall>c \<in> children h n. ok c)"
    by (simp_all add: split_beta)
  with first_error_total[of ?ps ?f] SequenceNode show ?thesis by simp
qed (use IH in \<open>simp_all add: children_def\<close>)

text \<open>
  On an acyclic graph, given as a rank that decreases towards the children, a stack deeper than the
  rank of the root is enough.
\<close>

lemma rejectNulls_acyclic:
  assumes "\<And>n c. c \<in> children h n \<Longrightarrow> rank c < rank n" and "rank n < depth"
  shows "rejectNulls depth h n path \<noteq> None \<and>
    (rejectNulls depth h n path = Some None \<longleftrightarrow> (\<forall>m. visits h n m \<longrightarrow> Node_Tag (h m) \<noteq> ''!!null''))"
  using assms(2)
proof (induction depth arbitrary: n path)
  case (Suc depth)
  let ?ok = "\<lambda>c. \<forall>m. visits h c m \<longrightarrow> Node_Tag (h m) \<noteq> ''!!null''"
  have "rejectNulls depth h c p \<noteq> None \<and> (rejectNulls depth h c p = Some None \<longleftrightarrow> ?ok c)" if "c \<in> children h n" for c p
    using Suc.IH[of c p] assms(1)[OF that] Suc.prems by auto
  from rejectNulls_level[where ok = ?ok, OF this] visits_iff[of h n] show ?case by auto
qed simp

text \<open>
  C32: on a document without cyclic aliases the search for explicit nulls terminates, within a call
  depth bounded by the depth of the document, and it reports an error exactly when some value in the
  document, mapping keys excepted, is null.
\<close>

theorem rejectNulls_finds_nulls:
  assumes "\<And>n c. c \<in> children h n \<Longrightarrow> rank c < rank n" and "rank root < depth"
  shows "rejectNulls depth h root path \<noteq> None \<and>
    ((\<exists>err. rejectNulls depth h root path = Some (Some err)) \<longleftrightarrow>
     (\<exists>m. visits h root m \<and> Node_Tag (h m) = ''!!null''))"
  using rejectNulls_acyclic[where rank = rank and path = path, OF assms]
  by (cases "rejectNulls depth h root path") force+

text \<open>A document \<^verbatim>\<open>[{key: ~}]\<close>, nodes numbered downwards from the root.\<close>

definition null_doc :: yaml_heap where
  "null_doc n =
     (if n = 4 then \<lparr>Node_Kind = DocumentNode, Node_Tag = [], Node_Value = [], Node_Content = [3], Node_Alias = 0\<rparr>
      else if n = 3 then \<lparr>Node_Kind = SequenceNode, Node_Tag = ''!!seq'', Node_Value = [], Node_Content = [2], Node_Alias = 0\<rparr>
      else if n = 2 then \<lparr>Node_Kind = MappingNode, Node_Tag = ''!!map'', Node_Value = [], Node_Content = [0, 1], Node_Alias = 0\<rparr>
      else if n = 1 then \<lparr>Node_Kind = ScalarNode, Node_Tag = ''!!null'', Node_Value = ''~'', Node_Content = [], Node_Alias = 0\<rparr>
      else \<lparr>Node_Kind = ScalarNode, Node_Tag = ''!!str'', Node_Value = ''key'', Node_Content = [], Node_Alias = 0\<rparr>)"

lemma null_doc_rank: "c \<in> children null_doc n \<Longrightarrow> c < n"
  by (cases "n = 4"; cases "n = 3"; cases "n = 2"; cases "n = 1") (simp_all add: children_def null_doc_def)

theorem rejectNulls_finds_nulls_witness:
  "\<exists>err. rejectNulls 5 null_doc 4 ''$'' = Some (Some err)"
proof -
  have null_tag: "Node_Tag (null_doc 1) = ''!!null''" by (simp add: null_doc_def)
  have "visits null_doc 4 1"
    by (rule visits.child[of 3], simp add: children_def null_doc_def,
        rule visits.child[of 2], simp add: children_def null_doc_def,
        rule visits.child[of 1], simp add: children_def null_doc_def, rule visits.self)
  then show ?thesis
    using null_tag rejectNulls_finds_nulls[where h = null_doc and rank = "\<lambda>n. n" and root = 4 and depth = 5
        and path = "''$''", OF null_doc_rank] by auto
qed

definition self_alias_doc :: yaml_heap where
  "self_alias_doc n =
     (if n = 0 then \<lparr>Node_Kind = DocumentNode, Node_Tag = [], Node_Value = [], Node_Content = [1], Node_Alias = 0\<rparr>
      else if n = 1 then \<lparr>Node_Kind = SequenceNode, Node_Tag = ''!!seq'', Node_Value = [], Node_Content = [2], Node_Alias = 0\<rparr>
      else \<lparr>Node_Kind = AliasNode, Node_Tag = [], Node_Value = ''a'', Node_Content = [], Node_Alias = 1\<rparr>)"


lemma self_alias_loops: "rejectNulls depth self_alias_doc 1 p = None \<and> rejectNulls depth self_alias_doc 2 q = None"
proof (induction depth arbitrary: p q)
  case (Suc depth)
  then show ?case by (simp add: self_alias_doc_def)
qed simp

text \<open>
  C39: a sequence that contains an alias to itself (\<^verbatim>\<open>&a [*a]\<close>) exhausts every call stack: the search
  for nulls never returns on it, at any depth, so decoding such a payload crashes the process
  instead of being rejected.
\<close>

theorem self_alias_exhausts_stack:
  "rejectNulls depth self_alias_doc 0 ''$'' = None"
proof (cases depth)
  case (Suc d)
  then show ?thesis using self_alias_loops[of d] by (simp add: self_alias_doc_def)
qed simp

section \<open>The manager keeps the last valid policy set\<close>

fun last_valid :: "(string \<Rightarrow> 'p result option) \<Rightarrow> 'p option \<Rightarrow> string list \<Rightarrow> 'p option" where
  "last_valid decode acc [] = acc"
| "last_valid decode acc (d # ds) =
     last_valid decode (case decode d of Some (Inr ps) \<Rightarrow> Some ps | _ \<Rightarrow> acc) ds"

lemma last_valid_append: "last_valid decode acc (xs @ ys) = last_valid decode (last_valid decode acc xs) ys"
  by (induction xs arbitrary: acc) auto

text \<open>
  The contract between whoever feeds payloads to a manager and whoever reads the current policies:
  a valid payload becomes current, an invalid one changes nothing and is reported. A payload on
  which decoding crashes has no successor.
\<close>

locale policy_provider =
  fixes decode :: "string \<Rightarrow> 'p result option"
    and reload :: "'m \<Rightarrow> string \<Rightarrow> (goerr option \<times> 'm) option"
    and cur :: "'m \<Rightarrow> 'p option"
    and inv :: "'m \<Rightarrow> bool"
  assumes reload_valid: "decode d = Some (Inr ps) \<Longrightarrow> \<exists>m'. reload m d = Some (None, m') \<and> cur m' = Some ps \<and> inv m'"
    and reload_invalid: "decode d = Some (Inl e) \<Longrightarrow> reload m d = Some (Some e, m)"
    and reload_crash: "decode d = None \<Longrightarrow> reload m d = None"
begin

lemma reload_tracks:
  assumes "inv m" "reload m d = Some (e, m')"
  shows "inv m'" "cur m' = last_valid decode (cur m) [d]" "e = None \<longleftrightarrow> (\<exists>ps. decode d = Some (Inr ps))"
  using assms reload_valid[of d _ m] reload_invalid[of d _ m] reload_crash[of d m]
  by (cases "decode d"; cases "the (decode d)"; force)+

end

definition wf_manager :: "policy_env \<Rightarrow> Manager \<Rightarrow> bool" where
  "wf_manager env m = (case current m of None \<Rightarrow> True | Some ps \<Rightarrow> wf_policy_set env ps)"

lemma clonePolicy_wf: "wf_policy env p \<Longrightarrow> clonePolicy p = p"
  by (auto simp: clonePolicy_def wf_policy_def wf_lifecycle_def copy_slice_def neq_Nil_conv split: option.splits)

lemma clonePolicySet_wf: "wf_policy_set env s \<Longrightarrow> clonePolicySet s = s"
proof -
  assume "wf_policy_set env s"
  then have "map clonePolicy (Policies s) = Policies s"
    by (intro map_idI) (auto simp: wf_policy_set_def list_all_iff clonePolicy_wf)
  then show ?thesis by (simp add: clonePolicySet_def)
qed

lemma policy_Decode_wf: "policy_Decode depth env yaml d = Some (Inr ps) \<Longrightarrow> wf_policy_set env ps"
  by (auto simp: policy_Decode_def split: compile_splits intro: compilePolicySet_Inr_wf)

interpretation manager: policy_provider "policy_Decode depth env yaml" "Reload depth env yaml" Current "wf_manager env"
  for depth env yaml
  by unfold_locales
    (auto simp: Reload_def Current_def wf_manager_def clonePolicySet_wf[OF policy_Decode_wf] dest: policy_Decode_wf)

text \<open>The payload that a raw event offers to the manager.\<close>

definition payload_of :: "ConfigMapWatcher \<Rightarrow> raw_event \<Rightarrow> string list" where
  "payload_of w raw = (case snd raw of
       WatchConfigMap name data \<Rightarrow>
         if name = Watcher_name w \<and> fst raw \<in> {watch_Added, watch_Modified}
         then (case map_of data (Watcher_dataKey w) of Some payload \<Rightarrow> [payload] | None \<Rightarrow> []) else []
     | WatchOther _ \<Rightarrow> [])"

lemma convert_tracks:
  assumes "convert (Reload depth env yaml) FromObject w (Some m) raw = Some (ev, terminal, m')" "wf_manager env m"
  obtains n where "m' = Some n" "wf_manager env n"
    "Current n = last_valid (policy_Decode depth env yaml) (Current m) (payload_of w raw)"
    "terminal \<longleftrightarrow> PolicyEvent_Type ev = PolicyError" "PolicyEvent_Type ev \<noteq> PolicyDisconnected"
  using assms manager.reload_tracks[OF assms(2)]
  by (auto simp: convert_def payload_of_def split: compile_splits watch_object.splits)


section \<open>The watch stream\<close>

text \<open>
  What holds of the stream after any steps: some prefix of the events has been consumed, the manager
  is well formed and holds the last valid payload of the prefix, and only the last event sent can be
  one that ends the stream.
\<close>

definition stream_inv :: "nat \<Rightarrow> policy_env \<Rightarrow> yaml_env \<Rightarrow> ConfigMapWatcher \<Rightarrow> Manager \<Rightarrow> raw_event list \<Rightarrow> stream_state \<Rightarrow> bool" where
  "stream_inv depth env yaml w m events s \<longleftrightarrow>
     (\<exists>k n. k \<le> length events \<and> pending s = drop k events \<and> stream_manager s = Some n \<and> wf_manager env n \<and>
        Current n = last_valid (policy_Decode depth env yaml) (Current m) (concat (map (payload_of w) (take k events)))) \<and>
     \<not> (\<exists>ev \<in> set (if open_stream s then sent s else butlast (sent s)).
           PolicyEvent_Type ev \<in> {PolicyError, PolicyDisconnected}) \<and>
     (\<not> open_stream s \<and> \<not> stream_cancelled s \<longrightarrow> sent s \<noteq> [] \<and> PolicyEvent_Type (last (sent s)) \<in> {PolicyError, PolicyDisconnected})"

lemma stream_inv_consume:
  assumes inv: "stream_inv depth env yaml w m events s" and "pending s = raw # rest"
    and conv: "convert (Reload depth env yaml) FromObject w (stream_manager s) raw = Some (ev, terminal, m')"
  obtains k n where "k \<le> length events" "rest = drop k events" "m' = Some n" "wf_manager env n"
    "Current n = last_valid (policy_Decode depth env yaml) (Current m) (concat (map (payload_of w) (take k events)))"
    "terminal \<longleftrightarrow> PolicyEvent_Type ev = PolicyError" "PolicyEvent_Type ev \<noteq> PolicyDisconnected"
proof -
  from inv obtain k n where k: "k \<le> length events" "pending s = drop k events" and n: "stream_manager s = Some n"
    "wf_manager env n"
    "Current n = last_valid (policy_Decode depth env yaml) (Current m) (concat (map (payload_of w) (take k events)))"
    by (auto simp: stream_inv_def)
  from convert_tracks[OF conv[unfolded n(1)] n(2)] obtain n' where n': "m' = Some n'" "wf_manager env n'"
    "Current n' = last_valid (policy_Decode depth env yaml) (Current n) (payload_of w raw)"
    "terminal \<longleftrightarrow> PolicyEvent_Type ev = PolicyError" "PolicyEvent_Type ev \<noteq> PolicyDisconnected" by metis
  have lt: "k < length events" and raw: "events ! k = raw" and rest: "rest = drop (Suc k) events"
    using k assms(2) by (metis drop_all list.distinct(1) not_le,
      metis drop_all hd_drop_conv_nth list.distinct(1) list.sel(1) not_le, metis drop_Suc drop_tl list.sel(3))
  have "take (Suc k) events = take k events @ [raw]" using lt raw by (metis take_Suc_conv_app_nth)
  then show thesis using that[of "Suc k" n'] lt rest n' n(3) by (simp add: last_valid_append)
qed

lemma stream_inv_step:
  assumes "forward_step (convert (Reload depth env yaml) FromObject w) s t" "stream_inv depth env yaml w m events s"
  shows "stream_inv depth env yaml w m events t"
  using assms(1)
proof (cases rule: forward_step.cases)
  case ctx_Done
  then show ?thesis using assms(2) by (auto simp: stream_inv_def dest: in_set_butlastD)
next
  case disconnected
  then show ?thesis using assms(2) by (auto simp: stream_inv_def)
next
  case (event raw rest ev terminal m')
  note t = event(1) and "open" = event(2)
  from stream_inv_consume[OF assms(2) event(3,4)] obtain k n where
    "k \<le> length events" "rest = drop k events" "m' = Some n" "wf_manager env n"
    "Current n = last_valid (policy_Decode depth env yaml) (Current m) (concat (map (payload_of w) (take k events)))"
    "terminal \<longleftrightarrow> PolicyEvent_Type ev = PolicyError" "PolicyEvent_Type ev \<noteq> PolicyDisconnected" by metis
  then show ?thesis using assms(2) "open" unfolding t stream_inv_def by auto
next
  case stop
  then show ?thesis using assms(2) by (auto simp: stream_inv_def)
next
  case (event_not_sent raw rest ev terminal m')
  note t = event_not_sent(1) and "open" = event_not_sent(2,3)
  from stream_inv_consume[OF assms(2) event_not_sent(4,5)] obtain k n where
    "k \<le> length events" "rest = drop k events" "m' = Some n" "wf_manager env n"
    "Current n = last_valid (policy_Decode depth env yaml) (Current m) (concat (map (payload_of w) (take k events)))"
    by metis
  then show ?thesis using assms(2) "open" unfolding t stream_inv_def by (auto dest: in_set_butlastD)
qed

lemma stream_inv_start: "wf_manager env m \<Longrightarrow> stream_inv depth env yaml w m events (start_stream (Some m) events)"
  by (auto simp: stream_inv_def start_stream_def intro!: exI[of _ 0])

interpretation policy_stream: invariant_system "forward_step (convert (Reload depth env yaml) FromObject w)"
    "stream_inv depth env yaml w m events" for depth env yaml FromObject w m events
  by unfold_locales (rule stream_inv_step)

text \<open>
  C28: however the watch stream runs, cancelled or not, the policies that the manager offers are those
  of the last valid payload among the events consumed so far (or the policies it had before, when
  none was valid): invalid payloads, foreign objects, deletions and errors never change them. An event
  that ends the stream, an error or the disconnection, is the last one sent; and unless it was cancelled,
  the stream never closes without such an event, so that its supervisor knows to open it again.
\<close>

theorem forward_keeps_last_valid:
  assumes "(forward_step (convert (Reload depth env yaml) FromObject w))\<^sup>*\<^sup>* (start_stream (Some m) events) s"
    and "wf_manager env m"
  shows "(\<exists>k n. pending s = drop k events \<and> stream_manager s = Some n \<and> wf_manager env n \<and>
           Current n = last_valid (policy_Decode depth env yaml) (Current m) (concat (map (payload_of w) (take k events)))) \<and>
         \<not> (\<exists>ev \<in> set (butlast (sent s)). PolicyEvent_Type ev \<in> {PolicyError, PolicyDisconnected}) \<and>
         (\<not> open_stream s \<and> \<not> stream_cancelled s \<longrightarrow> sent s \<noteq> [] \<and> PolicyEvent_Type (last (sent s)) \<in> {PolicyError, PolicyDisconnected})"
proof -
  have "stream_inv depth env yaml w m events (start_stream (Some m) events)" by (rule stream_inv_start[OF assms(2)])
  then have inv: "stream_inv depth env yaml w m events s" by (rule policy_stream.reachable_inv[OF assms(1)])
  then have "\<exists>k n. pending s = drop k events \<and> stream_manager s = Some n \<and> wf_manager env n \<and>
      Current n = last_valid (policy_Decode depth env yaml) (Current m) (concat (map (payload_of w) (take k events)))"
    unfolding stream_inv_def by blast
  moreover have "\<not> (\<exists>ev \<in> set (butlast (sent s)). PolicyEvent_Type ev \<in> {PolicyError, PolicyDisconnected})"
    using inv unfolding stream_inv_def by (auto dest: in_set_butlastD split: if_splits)
  moreover have "\<not> open_stream s \<and> \<not> stream_cancelled s \<longrightarrow> sent s \<noteq> [] \<and> PolicyEvent_Type (last (sent s)) \<in> {PolicyError, PolicyDisconnected}"
    using inv unfolding stream_inv_def by blast
  ultimately show ?thesis by blast
qed

text \<open>A YAML library for the example: the payload \<^verbatim>\<open>v\<close> decodes to the sample policies, nothing else does.\<close>

definition sample_yaml :: yaml_env where
  "sample_yaml = \<lparr>yaml_Node = \<lambda>d. Inr (\<lambda>_. \<lparr>Node_Kind = ScalarNode, Node_Tag = ''!!str'', Node_Value = d, Node_Content = [], Node_Alias = 0\<rparr>, 0),
     yaml_Strict = \<lambda>d. if d = ''v'' then Inr (sample_raw [(''base'', 1), (''strict'', 2)]) else Inl (errors_New ''yaml''),
     yaml_Second = \<lambda>_. Inl io_EOF\<rparr>"

definition sample_watcher :: ConfigMapWatcher where
  "sample_watcher = NewConfigMapWatcher ''policies'' []"

definition sample_events :: "raw_event list" where
  "sample_events = [(watch_Added, WatchConfigMap ''policies'' [(''policies.yaml'', ''v'')]),
                    (watch_Deleted, WatchConfigMap ''policies'' [])]"

lemma sample_decode: "\<exists>ps. policy_Decode 9 sample_env sample_yaml ''v'' = Some (Inr ps)"
  using sample_compiles
  by (auto simp: policy_Decode_def sample_yaml_def decodeOne_def byte_def eval_nat_numeral)

lemma sample_stream:
  obtains s n where "(forward_step (convert (Reload 9 sample_env sample_yaml) (\<lambda>_. io_EOF) sample_watcher))\<^sup>*\<^sup>*
      (start_stream (Some \<lparr>current = None\<rparr>) sample_events) s" "stream_manager s = Some n" "Current n \<noteq> None"
proof -
  obtain ps where ps: "policy_Decode 9 sample_env sample_yaml ''v'' = Some (Inr ps)" using sample_decode by blast
  let ?conv = "convert (Reload 9 sample_env sample_yaml) (\<lambda>_. io_EOF) sample_watcher"
  let ?m = "\<lparr>current = None\<rparr>" and ?m' = "\<lparr>current = Some ps\<rparr>"
  let ?s0 = "start_stream (Some ?m) sample_events"
  have c: "?conv (Some ?m) (hd sample_events) = Some (mkPolicyEvent EventReloaded None, False, Some ?m')"
    using ps by (simp add: convert_def sample_events_def sample_watcher_def NewConfigMapWatcher_def Reload_def)
  define s1 where "s1 = ?s0\<lparr>pending := tl sample_events, sent := sent ?s0 @ [mkPolicyEvent EventReloaded None],
      stream_manager := Some ?m', open_stream := \<not> False\<rparr>"
  have "forward_step ?conv ?s0 s1" unfolding s1_def
    by (rule forward_step.event[where raw = "hd sample_events"])
      (use c in \<open>simp_all add: start_stream_def sample_events_def\<close>)
  then have "(forward_step ?conv)\<^sup>*\<^sup>* ?s0 s1" by (rule r_into_rtranclp)
  then show thesis by (rule that) (auto simp: Current_def s1_def)
qed

lemma wf_empty_manager: "wf_manager env \<lparr>current = None\<rparr>"
  by (simp add: wf_manager_def)

theorem forward_keeps_last_valid_witness:
  "\<exists>s n. (forward_step (convert (Reload 9 sample_env sample_yaml) (\<lambda>_. io_EOF) sample_watcher))\<^sup>*\<^sup>*
           (start_stream (Some \<lparr>current = None\<rparr>) sample_events) s \<and>
         stream_manager s = Some n \<and> Current n \<noteq> None"
proof -
  obtain s n where s: "(forward_step (convert (Reload 9 sample_env sample_yaml) (\<lambda>_. io_EOF) sample_watcher))\<^sup>*\<^sup>*
      (start_stream (Some \<lparr>current = None\<rparr>) sample_events) s" "stream_manager s = Some n" "Current n \<noteq> None" by (rule sample_stream)
  from forward_keeps_last_valid[OF s(1) wf_empty_manager] s show ?thesis by auto
qed

end
