(* ===== verification/Watch_Streams.thy ===== *)
theory Watch_Streams
  imports Workload Systems
begin

text \<open>
  The watch streams of package \<^verbatim>\<open>workload\<close>: the merged stream over Deployments and StatefulSets
  (\<^verbatim>\<open>gateway.go\<close>) and the HPA stream (\<^verbatim>\<open>hpa.go\<close>). Each forwarding goroutine, the goroutine that closes
  the result channel, the consumer's \<^verbatim>\<open>Stop\<close> and the cancellation of the context are steps of one
  transition relation, so every interleaving is a run.

  An API watch is the list of raw events it has still to deliver before it closes its channel. A
  watch that was told to stop may drop what is left.
\<close>

type_synonym raw_object_event = "string \<times> object"

section \<open>The merged workload stream\<close>

record mergedWatchStream =
  m_pending :: "Kind \<Rightarrow> raw_object_event list"
  m_running :: "Kind \<Rightarrow> bool"
  m_stopped :: "Kind \<Rightarrow> bool"
  m_cancelled :: bool
  m_sent :: "Event list"
  m_closed :: bool

definition disconnected_event :: "Kind \<Rightarrow> Event" where
  "disconnected_event kind =
     \<lparr>Event_Type = EventDisconnected, Event_Kind = kind, Event_Workload = None, Event_Err = Some ErrWatchDisconnected\<rparr>"

text \<open>
  \<^verbatim>\<open>forward\<close> for one kind: the goroutine ends when it sees the cancelled context, also while it waits to
  hand over an event; it ends after the disconnection when the watch has closed; otherwise it converts
  and sends. Both deferred calls, \<^verbatim>\<open>source.Stop\<close> and \<^verbatim>\<open>wait.Done\<close>, happen as it ends.
\<close>

definition forward_ends :: "Kind \<Rightarrow> mergedWatchStream \<Rightarrow> mergedWatchStream" where
  "forward_ends kind s = s\<lparr>m_running := (m_running s)(kind := False), m_stopped := (m_stopped s)(kind := True)\<rparr>"

inductive merged_step :: "(object \<Rightarrow> goerr) \<Rightarrow> mergedWatchStream \<Rightarrow> mergedWatchStream \<Rightarrow> bool" for FromObject where
  ctx_Done: "m_running s kind \<Longrightarrow> m_cancelled s \<Longrightarrow> merged_step FromObject s (forward_ends kind s)"
| disconnected: "m_running s kind \<Longrightarrow> m_pending s kind = [] \<Longrightarrow>
    merged_step FromObject s (forward_ends kind (s\<lparr>m_sent := m_sent s @ [disconnected_event kind]\<rparr>))"
| event: "m_running s kind \<Longrightarrow> m_pending s kind = raw # rest \<Longrightarrow>
    merged_step FromObject s (s\<lparr>m_pending := (m_pending s)(kind := rest),
      m_sent := m_sent s @ [convertWatchEvent FromObject kind raw]\<rparr>)"
| event_unsent: "m_running s kind \<Longrightarrow> m_cancelled s \<Longrightarrow> m_pending s kind = raw # rest \<Longrightarrow>
    merged_step FromObject s (forward_ends kind (s\<lparr>m_pending := (m_pending s)(kind := rest)\<rparr>))"
| close_result: "\<not> m_running s KindDeployment \<Longrightarrow> \<not> m_running s KindStatefulSet \<Longrightarrow> \<not> m_closed s \<Longrightarrow>
    merged_step FromObject s (s\<lparr>m_closed := True\<rparr>)"
| stop: "merged_step FromObject s (s\<lparr>m_cancelled := True, m_stopped := (\<lambda>_. True)\<rparr>)"
| cancel: "merged_step FromObject s (s\<lparr>m_cancelled := True\<rparr>)"
| watch_drops: "m_stopped s kind \<Longrightarrow> merged_step FromObject s (s\<lparr>m_pending := (m_pending s)(kind := [])\<rparr>)"

text \<open>
  \<^verbatim>\<open>KubernetesGateway.Watch\<close>: both watches are opened in turn; when the second fails, the first is
  stopped. The watches of the API, by namespace, are a parameter; the result also lists the watches that
  were stopped.
\<close>

record watch_client =
  Deployments_Watch :: "string \<Rightarrow> raw_object_event list result"
  StatefulSets_Watch :: "string \<Rightarrow> raw_object_event list result"
  HPAs_Watch :: "string \<Rightarrow> raw_object_event list result"

definition WatchDeployments :: "watch_client \<Rightarrow> raw_object_event list result" where
  "WatchDeployments c = Deployments_Watch c NamespaceAll"

definition WatchStatefulSets :: "watch_client \<Rightarrow> raw_object_event list result" where
  "WatchStatefulSets c = StatefulSets_Watch c NamespaceAll"

definition start_merged :: "raw_object_event list \<Rightarrow> raw_object_event list \<Rightarrow> mergedWatchStream" where
  "start_merged deployments statefulSets =
     \<lparr>m_pending = (\<lambda>kind. if kind = KindDeployment then deployments else if kind = KindStatefulSet then statefulSets else []),
      m_running = supported_kind, m_stopped = (\<lambda>_. False), m_cancelled = False, m_sent = [], m_closed = False\<rparr>"

definition gateway_Watch ::
  "watch_client \<Rightarrow> mergedWatchStream result \<times> Kind list" where
  "gateway_Watch c =
     (case WatchDeployments c of
        Inl err \<Rightarrow> (Inl (Errorf ''watch deployments across all namespaces: %w'' [] [err]), [])
      | Inr deployments \<Rightarrow>
          (case WatchStatefulSets c of
             Inl err \<Rightarrow> (Inl (Errorf ''watch statefulsets across all namespaces: %w'' [] [err]), [KindDeployment])
           | Inr statefulSets \<Rightarrow> (Inr (start_merged deployments statefulSets), [])))"

section \<open>The HPA stream\<close>

record HPATargetReference =
  Ref_APIVersion :: string
  Ref_Kind :: string
  Ref_Namespace :: string
  Ref_Name :: string

definition targetReference :: "HPA option \<Rightarrow> HPATargetReference option" where
  "targetReference hpa =
     (case hpa of
        None \<Rightarrow> None
      | Some hpa \<Rightarrow> Some \<lparr>Ref_APIVersion = HPA_TargetAPIVersion hpa, Ref_Kind = HPA_TargetKind hpa,
                        Ref_Namespace = HPA_Namespace hpa, Ref_Name = HPA_TargetName hpa\<rparr>)"

definition ErrHPAWatchDisconnected :: goerr where
  "ErrHPAWatchDisconnected = errors_New ''HPA watch disconnected''"

record HPAEvent =
  HPAEvent_Type :: EventType
  HPAEvent_Namespace :: string
  HPAEvent_Name :: string
  HPAEvent_Target :: "HPATargetReference option"
  HPAEvent_Err :: "goerr option"

definition hpa_failure :: "EventType \<Rightarrow> goerr \<Rightarrow> HPAEvent" where
  "hpa_failure t err = \<lparr>HPAEvent_Type = t, HPAEvent_Namespace = [], HPAEvent_Name = [], HPAEvent_Target = None, HPAEvent_Err = Some err\<rparr>"

definition convertHPAWatchEvent :: "(object \<Rightarrow> goerr) \<Rightarrow> raw_object_event \<Rightarrow> HPAEvent" where
  "convertHPAWatchEvent FromObject raw =
     (if fst raw = watch_Error then hpa_failure EventError (Errorf ''HPA watch error: %w'' [] [FromObject (snd raw)])
      else (case eventType (fst raw) of
          None \<Rightarrow> hpa_failure EventError (Errorf ''HPA watch returned unsupported event type %q'' [Str (fst raw)] [])
        | Some t \<Rightarrow>
            (case snd raw of
               ObjHPA hpa \<Rightarrow> \<lparr>HPAEvent_Type = t, HPAEvent_Namespace = HPA_Namespace hpa, HPAEvent_Name = HPA_Name hpa,
                            HPAEvent_Target = targetReference (Some hpa), HPAEvent_Err = None\<rparr>
             | _ \<Rightarrow> hpa_failure EventError (Errorf ''HPA watch returned %T'' [Str (type_name (snd raw))] []))))"

record hpaWatchStream =
  h_pending :: "raw_object_event list"
  h_running :: bool
  h_stopped :: bool
  h_cancelled :: bool
  h_sent :: "HPAEvent list"

text \<open>The deferred calls of \<^verbatim>\<open>forward\<close> stop the watch and close the result channel as it ends.\<close>

definition hpa_forward_ends :: "hpaWatchStream \<Rightarrow> hpaWatchStream" where
  "hpa_forward_ends s = s\<lparr>h_running := False, h_stopped := True\<rparr>"

inductive hpa_step :: "(object \<Rightarrow> goerr) \<Rightarrow> hpaWatchStream \<Rightarrow> hpaWatchStream \<Rightarrow> bool" for FromObject where
  ctx_Done: "h_running s \<Longrightarrow> h_cancelled s \<Longrightarrow> hpa_step FromObject s (hpa_forward_ends s)"
| disconnected: "h_running s \<Longrightarrow> h_pending s = [] \<Longrightarrow>
    hpa_step FromObject s (hpa_forward_ends (s\<lparr>h_sent := h_sent s @ [hpa_failure EventDisconnected ErrHPAWatchDisconnected]\<rparr>))"
| event: "h_running s \<Longrightarrow> h_pending s = raw # rest \<Longrightarrow>
    hpa_step FromObject s (s\<lparr>h_pending := rest, h_sent := h_sent s @ [convertHPAWatchEvent FromObject raw]\<rparr>)"
| event_unsent: "h_running s \<Longrightarrow> h_cancelled s \<Longrightarrow> h_pending s = raw # rest \<Longrightarrow>
    hpa_step FromObject s (hpa_forward_ends (s\<lparr>h_pending := rest\<rparr>))"
| stop: "hpa_step FromObject s (s\<lparr>h_cancelled := True, h_stopped := True\<rparr>)"
| cancel: "hpa_step FromObject s (s\<lparr>h_cancelled := True\<rparr>)"
| watch_drops: "h_stopped s \<Longrightarrow> hpa_step FromObject s (s\<lparr>h_pending := []\<rparr>)"

definition start_hpa :: "raw_object_event list \<Rightarrow> hpaWatchStream" where
  "start_hpa events = \<lparr>h_pending = events, h_running = True, h_stopped = False, h_cancelled = False, h_sent = []\<rparr>"

definition hpa_Watch :: "watch_client \<Rightarrow> hpaWatchStream result" where
  "hpa_Watch c =
     (case HPAs_Watch c NamespaceAll of
        Inl err \<Rightarrow> Inl (Errorf ''watch HPAs across all namespaces: %w'' [] [err])
      | Inr events \<Rightarrow> Inr (start_hpa events))"

section \<open>What a stream delivers\<close>

lemma Event_Kind_convert [simp]: "Event_Kind (convertWatchEvent FromObject kind raw) = kind"
  by (auto simp: convertWatchEvent_def Let_def split: option.splits sum.splits)

lemma Event_Kind_disconnected [simp]: "Event_Kind (disconnected_event kind) = kind"
  by (simp add: disconnected_event_def)

text \<open>
  The contract of a forwarder towards its consumer: what was sent is the conversion of a prefix of what
  the watch delivered, in order, each event once, perhaps followed by the disconnection, which ends the
  forwarder. As long as nobody stopped the watch or cancelled the context, nothing is missing.
\<close>

definition delivered ::
  "('r \<Rightarrow> 'e) \<Rightarrow> 'e \<Rightarrow> 'r list \<Rightarrow> bool \<Rightarrow> bool \<Rightarrow> 'r list \<Rightarrow> 'e list \<Rightarrow> bool" where
  "delivered conv disc events running undisturbed pending sent \<longleftrightarrow>
     (\<exists>n \<le> length events. \<exists>tail \<in> {[], [disc]}. sent = map conv (take n events) @ tail \<and>
        (running \<longrightarrow> tail = [] \<and> (pending = drop n events \<or> pending = [])) \<and>
        (undisturbed \<longrightarrow> pending = drop n events \<and> (\<not> running \<longrightarrow> tail = [disc] \<and> n = length events)))"

lemma delivered_start: "delivered conv disc events True undisturbed events []"
  unfolding delivered_def by (rule exI[of _ 0]) auto

lemma delivered_event:
  assumes "delivered conv disc events True u (raw # rest) sent"
  shows "delivered conv disc events True u rest (sent @ [conv raw])"
proof -
  from assms obtain n where n: "n \<le> length events" "sent = map conv (take n events)" "raw # rest = drop n events"
    unfolding delivered_def by auto
  then have lt: "n < length events" by (metis drop_all list.distinct(1) not_le)
  then have "raw = events ! n" "rest = drop (Suc n) events"
    using n(3) by (metis Cons_nth_drop_Suc list.inject)+
  then show ?thesis unfolding delivered_def using n(2) lt
    by (intro exI[of _ "Suc n"]) (simp add: take_Suc_conv_app_nth)
qed

lemma delivered_disconnected:
  "delivered conv disc events True u [] sent \<Longrightarrow> delivered conv disc events False u [] (sent @ [disc])"
  unfolding delivered_def by auto

lemma delivered_ends:
  "delivered conv disc events running u pending sent \<Longrightarrow> delivered conv disc events False False pending' sent"
  unfolding delivered_def by auto

lemma delivered_dropped:
  "delivered conv disc events running u pending sent \<Longrightarrow> delivered conv disc events running False [] sent"
  unfolding delivered_def by auto

lemma delivered_disturbed:
  "delivered conv disc events running u pending sent \<Longrightarrow> delivered conv disc events running False pending sent"
  unfolding delivered_def by auto

text \<open>
  The moves of one forwarder as its consumer and its watch see them. A view is the raw events still to
  come, whether the forwarder runs, whether it was left undisturbed, and what it sent.
\<close>

type_synonym ('r, 'e) view = "'r list \<times> bool \<times> bool \<times> 'e list"

inductive forward_move :: "('r \<Rightarrow> 'e) \<Rightarrow> 'e \<Rightarrow> ('r, 'e) view \<Rightarrow> ('r, 'e) view \<Rightarrow> bool" for conv disc where
  move_stay: "forward_move conv disc v v"
| move_event: "forward_move conv disc (raw # rest, True, u, sent) (rest, True, u, sent @ [conv raw])"
| move_disconnected: "forward_move conv disc ([], True, u, sent) ([], False, u, sent @ [disc])"
| move_ends: "forward_move conv disc (pending, running, u, sent) (pending', False, False, sent)"
| move_disturbed: "forward_move conv disc (pending, running, u, sent) (pending, running, False, sent)"
| move_dropped: "forward_move conv disc (pending, running, False, sent) ([], running, False, sent)"
| move_drained: "forward_move conv disc (pending, False, u, sent) ([], False, u, sent)"

definition delivered_view :: "('r \<Rightarrow> 'e) \<Rightarrow> 'e \<Rightarrow> 'r list \<Rightarrow> ('r, 'e) view \<Rightarrow> bool" where
  "delivered_view conv disc events v = (case v of (pending, running, u, sent) \<Rightarrow> delivered conv disc events running u pending sent)"

lemma delivered_drained:
  "delivered conv disc events False u pending sent \<Longrightarrow> delivered conv disc events False u [] sent"
  unfolding delivered_def by auto

lemma delivered_move:
  "forward_move conv disc v v' \<Longrightarrow> delivered_view conv disc events v \<Longrightarrow> delivered_view conv disc events v'"
  by (induction rule: forward_move.induct)
    (auto simp: delivered_view_def intro: delivered_event delivered_disconnected delivered_ends delivered_dropped
       delivered_disturbed delivered_drained)

text \<open>
  A transition system that contains a forwarder: from a start with the given events, every step is a
  move of the forwarder in its view.
\<close>

locale forwarder = invariant_system step inv
  for step :: "'s \<Rightarrow> 's \<Rightarrow> bool" and inv :: "'s \<Rightarrow> bool" +
  fixes view :: "'s \<Rightarrow> ('r, 'e) view" and conv :: "'r \<Rightarrow> 'e" and disc :: 'e
  assumes step_move: "inv s \<Longrightarrow> step s t \<Longrightarrow> forward_move conv disc (view s) (view t)"
begin

lemma reachable_delivered:
  assumes "step\<^sup>*\<^sup>* s t" "inv s" "view s = (events, True, u, [])"
  shows "delivered_view conv disc events (view t)"
  using assms(1)
proof (induction rule: rtranclp_induct)
  case base
  show ?case by (simp add: assms(3) delivered_view_def delivered_start)
next
  case (step t t')
  then have "inv t" using reachable_inv assms(2) by blast
  then show ?case using delivered_move[OF step_move] step.hyps(2) step.IH by blast
qed

end

definition merged_inv :: "mergedWatchStream \<Rightarrow> bool" where
  "merged_inv s \<longleftrightarrow> (\<forall>k. m_running s k \<longrightarrow> supported_kind k) \<and> (\<forall>k. \<not> m_cancelled s \<and> m_stopped s k \<longrightarrow> \<not> m_running s k) \<and>
     (m_closed s \<longrightarrow> \<not> m_running s KindDeployment \<and> \<not> m_running s KindStatefulSet)"

definition merged_view :: "Kind \<Rightarrow> mergedWatchStream \<Rightarrow> (raw_object_event, Event) view" where
  "merged_view k s = (m_pending s k, m_running s k, \<not> m_cancelled s, filter (\<lambda>e. Event_Kind e = k) (m_sent s))"

lemma merged_inv_step: "merged_step FromObject s t \<Longrightarrow> merged_inv s \<Longrightarrow> merged_inv t"
  by (induction rule: merged_step.induct) (auto simp: merged_inv_def forward_ends_def)

lemma merged_move:
  "merged_step FromObject s t \<Longrightarrow> merged_inv s \<Longrightarrow>
   forward_move (convertWatchEvent FromObject k) (disconnected_event k) (merged_view k s) (merged_view k t)"
proof (induction rule: merged_step.induct)
  case (ctx_Done s kind)
  then show ?case by (auto simp: merged_view_def forward_ends_def intro: forward_move.intros)
next
  case (disconnected s kind)
  then show ?case by (auto simp: merged_view_def forward_ends_def intro: forward_move.intros)
next
  case (event s kind raw rest)
  then show ?case by (auto simp: merged_view_def intro: forward_move.intros)
next
  case (event_unsent s kind raw rest)
  then show ?case by (auto simp: merged_view_def forward_ends_def intro: forward_move.intros)
next
  case (watch_drops s kind)
  then show ?case
    by (cases "m_cancelled s") (auto simp: merged_view_def merged_inv_def intro: forward_move.intros)
qed (auto simp: merged_view_def intro: forward_move.intros)

interpretation merged: forwarder "merged_step FromObject" merged_inv "merged_view k" "convertWatchEvent FromObject k" "disconnected_event k"
  for FromObject k
  by unfold_locales (blast intro: merged_inv_step merged_move)+

definition hpa_inv :: "hpaWatchStream \<Rightarrow> bool" where
  "hpa_inv s \<longleftrightarrow> (\<not> h_cancelled s \<and> h_stopped s \<longrightarrow> \<not> h_running s)"

definition hpa_view :: "hpaWatchStream \<Rightarrow> (raw_object_event, HPAEvent) view" where
  "hpa_view s = (h_pending s, h_running s, \<not> h_cancelled s, h_sent s)"

lemma hpa_move:
  "hpa_step FromObject s t \<Longrightarrow> hpa_inv s \<Longrightarrow> hpa_inv t \<and>
   forward_move (convertHPAWatchEvent FromObject) (hpa_failure EventDisconnected ErrHPAWatchDisconnected) (hpa_view s) (hpa_view t)"
proof (induction rule: hpa_step.induct)
  case (watch_drops s)
  then show ?case by (cases "h_cancelled s") (auto simp: hpa_view_def hpa_inv_def intro: forward_move.intros)
qed (auto simp: hpa_view_def hpa_inv_def hpa_forward_ends_def intro: forward_move.intros)

interpretation hpa: forwarder "hpa_step FromObject" hpa_inv hpa_view "convertHPAWatchEvent FromObject"
    "hpa_failure EventDisconnected ErrHPAWatchDisconnected"
  for FromObject
  by unfold_locales (blast dest: hpa_move)+

lemma hpa_stream_delivers:
  assumes "(hpa_step FromObject)\<^sup>*\<^sup>* (start_hpa events) s"
  shows "delivered (convertHPAWatchEvent FromObject) (hpa_failure EventDisconnected ErrHPAWatchDisconnected) events
           (h_running s) (\<not> h_cancelled s) (h_pending s) (h_sent s)"
  using hpa.reachable_delivered[OF assms, of events True]
  by (simp add: hpa_inv_def hpa_view_def start_hpa_def delivered_view_def)

section \<open>Closing\<close>

text \<open>A cancelled stream can always finish: the goroutines that still run take the cancellation, then the channel closes.\<close>

lemma forward_ends_simps [simp]:
  "m_running (forward_ends k s) = (m_running s)(k := False)" "m_cancelled (forward_ends k s) = m_cancelled s"
  "m_closed (forward_ends k s) = m_closed s" "m_sent (forward_ends k s) = m_sent s"
  by (simp_all add: forward_ends_def)

definition merged_left :: "mergedWatchStream \<Rightarrow> nat" where
  "merged_left s = (if m_running s KindDeployment then 1 else 0) + (if m_running s KindStatefulSet then 1 else 0) +
     (if m_closed s then 0 else 1)"

interpretation closing: progress "merged_step FromObject" "\<lambda>s. m_cancelled s \<and> m_sent s = before" m_closed merged_left
  for FromObject before
proof
  fix s :: mergedWatchStream
  assume s: "m_cancelled s \<and> m_sent s = before" "\<not> m_closed s"
  show "\<exists>t. merged_step FromObject s t \<and> (m_cancelled t \<and> m_sent t = before) \<and> merged_left t < merged_left s"
  proof (cases "\<exists>k \<in> {KindDeployment, KindStatefulSet}. m_running s k")
    case True
    then obtain k where "k \<in> {KindDeployment, KindStatefulSet}" "m_running s k" by blast
    with s merged_step.ctx_Done[OF this(2), of FromObject] show ?thesis
      by (intro exI[of _ "forward_ends k s"]) (auto simp: merged_left_def)
  next
    case False
    with s merged_step.close_result[of s FromObject] show ?thesis
      by (intro exI[of _ "s\<lparr>m_closed := True\<rparr>"]) (auto simp: merged_left_def)
  qed
qed

text \<open>And it does finish in every run that is fair to the goroutines.\<close>

definition forward_exit :: "(object \<Rightarrow> goerr) \<Rightarrow> Kind \<Rightarrow> mergedWatchStream \<Rightarrow> mergedWatchStream \<Rightarrow> bool" where
  "forward_exit FromObject k s t \<longleftrightarrow> merged_step FromObject s t \<and> m_running s k \<and> \<not> m_running t k"

definition channel_closes :: "(object \<Rightarrow> goerr) \<Rightarrow> mergedWatchStream \<Rightarrow> mergedWatchStream \<Rightarrow> bool" where
  "channel_closes FromObject s t \<longleftrightarrow> merged_step FromObject s t \<and> \<not> m_closed s \<and> m_closed t"

definition fair_to_stream :: "(object \<Rightarrow> goerr) \<Rightarrow> (nat \<Rightarrow> mergedWatchStream) \<Rightarrow> bool" where
  "fair_to_stream FromObject \<sigma> \<longleftrightarrow> weakly_fair (forward_exit FromObject KindDeployment) \<sigma> \<and>
     weakly_fair (forward_exit FromObject KindStatefulSet) \<sigma> \<and> weakly_fair (channel_closes FromObject) \<sigma>"

lemma merged_step_stable:
  assumes "merged_step FromObject s t"
  shows "m_cancelled s \<Longrightarrow> m_cancelled t" "m_closed s \<Longrightarrow> m_closed t" "\<not> m_running s k \<Longrightarrow> \<not> m_running t k"
  using assms by (cases rule: merged_step.cases; auto)+

lemma fair_stream_ends:
  assumes run: "is_run (merged_step FromObject) \<sigma>" and fair: "weakly_fair (forward_exit FromObject k) \<sigma>" and start: "m_cancelled (\<sigma> 0)"
  shows "\<exists>n \<ge> 0. \<forall>i \<ge> n. m_cancelled (\<sigma> i) \<and> \<not> m_running (\<sigma> i) k"
proof (rule weakly_fair_reaches[OF run fair])
  show "\<exists>t. forward_exit FromObject k s t" if "m_cancelled s" "\<not> \<not> m_running s k" for s
    using merged_step.ctx_Done[of s k FromObject] that unfolding forward_exit_def by (intro exI[of _ "forward_ends k s"]) simp
qed (use start merged_step_stable in \<open>auto simp: forward_exit_def\<close>)

lemma fair_stream_closes:
  assumes run: "is_run (merged_step FromObject) \<sigma>" and fair: "fair_to_stream FromObject \<sigma>" and start: "m_cancelled (\<sigma> 0)"
  shows "\<exists>n. \<forall>i \<ge> n. m_closed (\<sigma> i)"
proof -
  let ?J = "\<lambda>s. \<not> m_running s KindDeployment \<and> \<not> m_running s KindStatefulSet"
  obtain n1 where n1: "\<And>i. n1 \<le> i \<Longrightarrow> \<not> m_running (\<sigma> i) KindDeployment"
    using fair_stream_ends[OF run _ start, of KindDeployment] fair unfolding fair_to_stream_def by blast
  obtain n2 where n2: "\<And>i. n2 \<le> i \<Longrightarrow> \<not> m_running (\<sigma> i) KindStatefulSet"
    using fair_stream_ends[OF run _ start, of KindStatefulSet] fair unfolding fair_to_stream_def by blast
  have wf: "weakly_fair (channel_closes FromObject) \<sigma>" using fair by (simp add: fair_to_stream_def)
  have "\<exists>n \<ge> max n1 n2. \<forall>i \<ge> n. ?J (\<sigma> i) \<and> m_closed (\<sigma> i)"
  proof (rule weakly_fair_reaches[OF run wf])
    show "?J (\<sigma> (max n1 n2))" using n1 n2 by simp
    show "\<exists>t. channel_closes FromObject s t" if "?J s" "\<not> m_closed s" for s
      using merged_step.close_result[of s FromObject] that unfolding channel_closes_def
      by (intro exI[of _ "s\<lparr>m_closed := True\<rparr>"]) simp
  qed (use merged_step_stable in \<open>auto simp: channel_closes_def\<close>)
  then show ?thesis by blast
qed

text \<open>
  C21: the merged workload stream loses, duplicates and reorders nothing. In every run, for each of the
  two kinds, the events the consumer got are the conversions of a prefix of what that kind's watch
  delivered, in order, followed at most by the disconnection as the last one; as long as nobody stopped
  the stream, what is not yet sent is still to come, and a kind that has ended delivered everything and
  then its disconnection. A cancelled stream can always close its channel, without sending more, and it
  does so in every run that is fair to its goroutines.
\<close>

theorem merged_stream_delivers:
  assumes "(merged_step FromObject)\<^sup>*\<^sup>* (start_merged deployments statefulSets) s"
  shows "delivered (convertWatchEvent FromObject KindDeployment) (disconnected_event KindDeployment) deployments
           (m_running s KindDeployment) (\<not> m_cancelled s) (m_pending s KindDeployment)
           (filter (\<lambda>e. Event_Kind e = KindDeployment) (m_sent s)) \<and>
         delivered (convertWatchEvent FromObject KindStatefulSet) (disconnected_event KindStatefulSet) statefulSets
           (m_running s KindStatefulSet) (\<not> m_cancelled s) (m_pending s KindStatefulSet)
           (filter (\<lambda>e. Event_Kind e = KindStatefulSet) (m_sent s)) \<and>
         (m_cancelled s \<longrightarrow> (\<exists>t. (merged_step FromObject)\<^sup>*\<^sup>* s t \<and> m_closed t \<and> m_sent t = m_sent s) \<and>
            (\<forall>\<sigma>. \<sigma> 0 = s \<and> is_run (merged_step FromObject) \<sigma> \<and> fair_to_stream FromObject \<sigma> \<longrightarrow> (\<exists>n. \<forall>i \<ge> n. m_closed (\<sigma> i))))"
proof -
  have start: "merged_inv (start_merged deployments statefulSets)"
    "merged_view KindDeployment (start_merged deployments statefulSets) = (deployments, True, True, [])"
    "merged_view KindStatefulSet (start_merged deployments statefulSets) = (statefulSets, True, True, [])"
    by (simp_all add: merged_inv_def merged_view_def start_merged_def)
  show ?thesis
    using merged.reachable_delivered[OF assms start(1,2)] merged.reachable_delivered[OF assms start(1,3)]
      closing.can_reach[of s "m_sent s" FromObject] fair_stream_closes[of FromObject]
    unfolding delivered_view_def merged_view_def prod.case by blast
qed

definition api_object :: object where
  "api_object = ObjDeployment \<lparr>Apps_Meta = \<lparr>Meta_Namespace = ''shop'', Meta_Name = ''api'', Meta_UID = ''u1'', Meta_Labels = []\<rparr>,
     Apps_Containers = [(''app'', ''app:v1'')]\<rparr>"

theorem merged_stream_delivers_witness:
  "\<exists>s. (merged_step (\<lambda>_. ErrWatchDisconnected))\<^sup>*\<^sup>* (start_merged [(watch_Added, api_object)] []) s \<and>
     length (filter (\<lambda>e. Event_Kind e = KindDeployment) (m_sent s)) = 1 \<and> \<not> m_closed s"
proof -
  let ?s = "start_merged [(watch_Added, api_object)] []"
  let ?t = "?s\<lparr>m_pending := (m_pending ?s)(KindDeployment := []),
    m_sent := m_sent ?s @ [convertWatchEvent (\<lambda>_. ErrWatchDisconnected) KindDeployment (watch_Added, api_object)]\<rparr>"
  have "merged_step (\<lambda>_. ErrWatchDisconnected) ?s ?t"
    by (rule merged_step.event) (simp_all add: start_merged_def)
  then have steps: "(merged_step (\<lambda>_. ErrWatchDisconnected))\<^sup>*\<^sup>* ?s ?t" by simp
  have "m_running ?t KindDeployment" "\<not> m_cancelled ?t" "m_pending ?t KindDeployment = []" "\<not> m_closed ?t"
    by (simp_all add: start_merged_def)
  then have "length (filter (\<lambda>e. Event_Kind e = KindDeployment) (m_sent ?t)) = 1"
    using merged_stream_delivers[OF steps] by (auto simp: delivered_def)
  then show ?thesis using steps \<open>\<not> m_closed ?t\<close> by blast
qed

end
