(* ===== verification/Orchestrator.thy ===== *)
theory Orchestrator
  imports Transition Policy_Manager Watch_Streams "HOL-Library.Sublist"
begin

text \<open>
  The controller of \<^verbatim>\<open>internal/controller/orchestrator.go\<close>: its construction, reconciling one workload
  under the policy that matches it, and a full pass over the inventory. One pass is a program over a
  world of arbitrary type; the theorems speak of its recorded calls. The loop and the supervisors that
  call it are in \<open>Controller_Run\<close>.
\<close>

section \<open>The controller and its options\<close>

abbreviation DefaultReconcileInterval :: duration where "DefaultReconcileInterval \<equiv> 30 * Second"
abbreviation DefaultWatchRetryDelay :: duration where "DefaultWatchRetryDelay \<equiv> Second"

definition ErrInvalidController :: goerr where
  "ErrInvalidController = errors_New ''controller orchestration dependencies must be configured''"

definition ErrNoPolicySnapshot :: goerr where
  "ErrNoPolicySnapshot = errors_New ''no valid policy snapshot is available''"

definition ErrPolicyConflict :: goerr where
  "ErrPolicyConflict = errors_New ''multiple highest-priority policies match workload''"

record ReconcileObservation =
  Obs_Workload :: Workload
  Obs_Policy :: string
  Obs_Reason :: string
  Obs_Result :: string
  Obs_Decision :: Decision
  Obs_Err :: "goerr option"

record 'w Observer =
  ControllerStarted :: "('w, unit) io"
  ControllerStopped :: "('w, unit) io"
  ObserveReconcile :: "ReconcileObservation \<Rightarrow> ('w, unit) io"
  ObservePolicyEvent :: "PolicyEvent \<Rightarrow> ('w, unit) io"
  ObserveError :: "string \<Rightarrow> goerr option \<Rightarrow> ('w, unit) io"

definition noopObserver :: "'w Observer" where
  "noopObserver = \<lparr>ControllerStarted = ret (), ControllerStopped = ret (), ObserveReconcile = \<lambda>_. ret (),
     ObservePolicyEvent = \<lambda>_. ret (), ObserveError = \<lambda>_ _. ret ()\<rparr>"

record 'w ControllerOptions =
  Opt_ReconcileInterval :: duration
  Opt_WatchRetryDelay :: duration
  Opt_HandleError :: "(goerr option \<Rightarrow> ('w, unit) io) option"
  Opt_Observer :: "'w Observer option"

text \<open>
  A watch either fails to start or answers with a stream; what the stream delivers is up to the
  cluster, so a watcher is the action of starting it.
\<close>

record 'w Controller =
  c_List :: "Kind \<Rightarrow> ('w, Workload list result) io"
  c_WatchWorkloads :: "('w, goerr option) io"
  c_WatchHPAs :: "('w, goerr option) io"
  c_Current :: "('w, PolicySet option) io"
  c_WatchPolicies :: "('w, goerr option) io"
  c_Reconcile :: "Workload \<Rightarrow> Policy \<Rightarrow> ('w, Decision \<times> goerr option) io"
  c_ctx_Err :: "('w, goerr option) io"
  c_interval :: duration
  c_retryDelay :: duration
  c_handleError :: "goerr option \<Rightarrow> ('w, unit) io"
  c_observer :: "'w Observer"

text \<open>\<^verbatim>\<open>NewController\<close>: a nil interface is \<open>None\<close>; the context that \<^verbatim>\<open>Run\<close> receives is given here.\<close>

definition NewController ::
  "((Kind \<Rightarrow> ('w, Workload list result) io) \<times> ('w, goerr option) io) option \<Rightarrow> ('w, goerr option) io option \<Rightarrow>
   ('w, PolicySet option) io option \<Rightarrow> ('w, goerr option) io option \<Rightarrow>
   (Workload \<Rightarrow> Policy \<Rightarrow> ('w, Decision \<times> goerr option) io) option \<Rightarrow> 'w ControllerOptions \<Rightarrow>
   ('w, goerr option) io \<Rightarrow> 'w Controller result" where
  "NewController inventory hpa policies policyWatch transition options ctx =
     (case (inventory, hpa, policies, policyWatch, transition) of
        (Some (list, watch), Some watchHPAs, Some cur, Some watchPolicies, Some rec) \<Rightarrow>
          Inr \<lparr>c_List = list, c_WatchWorkloads = watch, c_WatchHPAs = watchHPAs, c_Current = cur,
               c_WatchPolicies = watchPolicies, c_Reconcile = rec, c_ctx_Err = ctx,
               c_interval = (if Opt_ReconcileInterval options \<le> 0 then DefaultReconcileInterval else Opt_ReconcileInterval options),
               c_retryDelay = (if Opt_WatchRetryDelay options \<le> 0 then DefaultWatchRetryDelay else Opt_WatchRetryDelay options),
               c_handleError = (case Opt_HandleError options of None \<Rightarrow> \<lambda>_. ret () | Some h \<Rightarrow> h),
               c_observer = (case Opt_Observer options of None \<Rightarrow> noopObserver | Some observer \<Rightarrow> observer)\<rparr>
      | _ \<Rightarrow> Inl ErrInvalidController)"

section \<open>Reconciling\<close>

definition observation :: "Workload \<Rightarrow> string \<Rightarrow> string \<Rightarrow> goerr option \<Rightarrow> ReconcileObservation" where
  "observation v reason result err =
     \<lparr>Obs_Workload = v, Obs_Policy = [], Obs_Reason = reason, Obs_Result = result, Obs_Decision = zeroDecision, Obs_Err = err\<rparr>"

definition reconcileOne :: "'w Controller \<Rightarrow> Workload \<Rightarrow> ('w, unit) io" where
  "reconcileOne c v = do {
     policies \<leftarrow> c_Current c;
     case policies of
       None \<Rightarrow> do {
         let err = Errorf ''reconcile %s: %w'' [Str (workload_Key v)] [ErrNoPolicySnapshot];
         ObserveReconcile (c_observer c) (observation v ''no-policy-snapshot'' ''error'' (Some err));
         c_handleError c (Some err)
       }
     | Some policies \<Rightarrow> do {
         let matched = policy_Match policies (Workload_Kind v) (Workload_Name v) (Workload_Labels v);
         if Conflict matched then do {
           let err = Errorf ''reconcile %s: %w: %v'' [Str (workload_Key v), Strs (ConflictNames matched)] [ErrPolicyConflict];
           ObserveReconcile (c_observer c) (observation v ''policy-conflict'' ''error'' (Some err));
           c_handleError c (Some err)
         }
         else (case Result_Policy matched of
             None \<Rightarrow> ObserveReconcile (c_observer c) (observation v ''no-matching-policy'' ''skipped'' None)
           | Some p \<Rightarrow> do {
               (decision, err) \<leftarrow> c_Reconcile c v p;
               let obs = \<lparr>Obs_Workload = v, Obs_Policy = Policy_Name p, Obs_Reason = Reason decision,
                          Obs_Result = ''success'', Obs_Decision = decision, Obs_Err = err\<rparr>;
               case err of
                 Some e \<Rightarrow> do {
                   ObserveReconcile (c_observer c) (obs\<lparr>Obs_Result := ''error'',
                     Obs_Reason := (if Reason decision = [] then ''transition-error'' else Reason decision)\<rparr>);
                   c_handleError c (Some (Errorf ''reconcile %s: %w'' [Str (workload_Key v)] [e]))
                 }
               | None \<Rightarrow> ObserveReconcile (c_observer c) obs
             })
       }
   }"

text \<open>
  \<^verbatim>\<open>reconcileAll\<close>: the items of a kind; the answer says whether the pass goes on, it ends when the
  context is done.
\<close>

fun reconcile_items :: "'w Controller \<Rightarrow> Workload list \<Rightarrow> ('w, bool) io" where
  "reconcile_items c [] = ret True"
| "reconcile_items c (v # items) = do {
     err \<leftarrow> c_ctx_Err c;
     case err of
       Some _ \<Rightarrow> ret False
     | None \<Rightarrow> do { reconcileOne c v; reconcile_items c items }
   }"

fun reconcile_kinds :: "'w Controller \<Rightarrow> Kind list \<Rightarrow> ('w, unit) io" where
  "reconcile_kinds c [] = ret ()"
| "reconcile_kinds c (kind # kinds) = do {
     items \<leftarrow> c_List c kind;
     case items of
       Inl err \<Rightarrow> do {
         c_handleError c (Some (Errorf ''list %s workloads: %w'' [Str kind] [err]));
         reconcile_kinds c kinds
       }
     | Inr items \<Rightarrow> do {
         goes_on \<leftarrow> reconcile_items c items;
         if goes_on then reconcile_kinds c kinds else ret ()
       }
   }"

definition reconcileAll :: "'w Controller \<Rightarrow> ('w, unit) io" where
  "reconcileAll c = reconcile_kinds c [KindDeployment, KindStatefulSet]"

section \<open>Recorded calls\<close>

datatype call =
    Listed Kind "Workload list result"
  | Policies_Read "PolicySet option"
  | Context "goerr option"
  | Transitioned Workload Policy "Decision \<times> goerr option"
  | Observed ReconcileObservation
  | Handled "goerr option"

definition traced_controller :: "'w Controller \<Rightarrow> ('w \<times> call list) Controller" where
  "traced_controller c =
     \<lparr>c_List = \<lambda>kind. logged (Listed kind) (c_List c kind), c_WatchWorkloads = unlogged (c_WatchWorkloads c),
      c_WatchHPAs = unlogged (c_WatchHPAs c), c_Current = logged Policies_Read (c_Current c),
      c_WatchPolicies = unlogged (c_WatchPolicies c), c_Reconcile = \<lambda>v p. logged (Transitioned v p) (c_Reconcile c v p),
      c_ctx_Err = logged Context (c_ctx_Err c), c_interval = c_interval c, c_retryDelay = c_retryDelay c,
      c_handleError = \<lambda>e. logged (\<lambda>_. Handled e) (c_handleError c e),
      c_observer = \<lparr>ControllerStarted = unlogged (ControllerStarted (c_observer c)),
        ControllerStopped = unlogged (ControllerStopped (c_observer c)),
        ObserveReconcile = \<lambda>e. logged (\<lambda>_. Observed e) (ObserveReconcile (c_observer c) e),
        ObservePolicyEvent = \<lambda>e. unlogged (ObservePolicyEvent (c_observer c) e),
        ObserveError = \<lambda>s e. unlogged (ObserveError (c_observer c) s e)\<rparr>\<rparr>"

section \<open>One workload\<close>

text \<open>
  The calls a reconciliation of one workload makes, by what the policies say: none yet, several of
  highest priority, none that matches, or exactly one, whose transition is run once.
\<close>

definition top_of :: "PolicySet \<Rightarrow> Workload \<Rightarrow> Policy set" where
  "top_of policies v = top_policies policies (Workload_Kind v) (Workload_Name v) (Workload_Labels v)"

inductive one_calls :: "Workload \<Rightarrow> call list \<Rightarrow> bool" for v where
  no_snapshot: "errors_Is err ErrNoPolicySnapshot \<Longrightarrow>
    one_calls v [Policies_Read None, Observed (observation v ''no-policy-snapshot'' ''error'' (Some err)), Handled (Some err)]"
| conflict: "errors_Is err ErrPolicyConflict \<Longrightarrow>
    (distinct (map Policy_Name (Policies policies)) \<Longrightarrow> 2 \<le> card (top_of policies v)) \<Longrightarrow>
    one_calls v [Policies_Read (Some policies), Observed (observation v ''policy-conflict'' ''error'' (Some err)), Handled (Some err)]"
| no_match: "top_of policies v = {} \<Longrightarrow>
    one_calls v [Policies_Read (Some policies), Observed (observation v ''no-matching-policy'' ''skipped'' None)]"
| success: "top_of policies v = {p} \<Longrightarrow> reason = Reason decision \<Longrightarrow>
    one_calls v [Policies_Read (Some policies), Transitioned v p (decision, None),
      Observed \<lparr>Obs_Workload = v, Obs_Policy = Policy_Name p, Obs_Reason = reason, Obs_Result = ''success'',
                Obs_Decision = decision, Obs_Err = None\<rparr>]"
| failure: "top_of policies v = {p} \<Longrightarrow> errors_Is err e \<Longrightarrow> reason \<noteq> [] \<Longrightarrow>
    one_calls v [Policies_Read (Some policies), Transitioned v p (decision, Some e),
      Observed \<lparr>Obs_Workload = v, Obs_Policy = Policy_Name p, Obs_Reason = reason, Obs_Result = ''error'',
                Obs_Decision = decision, Obs_Err = Some e\<rparr>, Handled (Some err)]"

lemma calls:
  "emits (c_List (traced_controller c) kind) (\<lambda>a new. new = [Listed kind a])"
  "emits (c_Current (traced_controller c)) (\<lambda>a new. new = [Policies_Read a])"
  "emits (c_Reconcile (traced_controller c) v p) (\<lambda>a new. new = [Transitioned v p a])"
  "emits (c_ctx_Err (traced_controller c)) (\<lambda>a new. new = [Context a])"
  "emits (c_handleError (traced_controller c) e) (\<lambda>a new. new = [Handled e])"
  "emits (ObserveReconcile (c_observer (traced_controller c)) obs) (\<lambda>a new. new = [Observed obs])"
  by (simp_all add: traced_controller_def emits_logged)

lemmas call_binds = calls[THEN emits_bind] and call_ends = calls[THEN emits_mono]

lemma reconcileOne_calls: "emits (reconcileOne (traced_controller c) v) (\<lambda>_. one_calls v)"
  unfolding reconcileOne_def
proof (rule call_binds, goal_cases)
  case (1 policies new)
  show ?case
  proof (cases policies)
    case None
    show ?thesis unfolding 1 None option.case Let_def
      by (rule call_binds, rule call_ends) (auto intro: one_calls.no_snapshot)
  next
    case (Some ps)
    show ?thesis
    proof (cases rule: policy_Match_cases[of ps "Workload_Kind v" "Workload_Name v" "Workload_Labels v"])
      case none
      then show ?thesis unfolding 1 Some
        by (auto simp: Let_def Conflict_def top_of_def intro!: call_ends one_calls.no_match)
    next
      case (unique p)
      then show ?thesis unfolding 1 Some
        by (auto simp: Let_def Conflict_def top_of_def split: option.splits
            intro!: call_binds call_ends one_calls.success one_calls.failure)
    next
      case several
      then show ?thesis unfolding 1 Some
        by (auto simp: Let_def top_of_def intro!: call_binds call_ends one_calls.conflict)
    qed
  qed
qed

text \<open>
  C14: one workload is reconciled under the right policy or not at all. The controller reads the policies
  once. Without a snapshot, or when several policies share the highest priority among those that match,
  it runs no transition and reports the error, and without a match it only records that; otherwise it
  runs the transition exactly once, for this workload, under the unique matching policy of highest
  priority. Every branch is observed exactly once, with result error exactly when an error was handed to
  the error handler.
\<close>

theorem reconcileOne_correct:
  "\<exists>w' calls. run_state (reconcileOne (traced_controller c) v) (w, []) = ((), (w', calls)) \<and> one_calls v calls"
  using emits_run[OF reconcileOne_calls[of c v], of w] by auto

section \<open>A full pass\<close>

definition visited :: "call list \<Rightarrow> Workload list" where
  "visited calls = concat (map (\<lambda>e. case e of Observed obs \<Rightarrow> [Obs_Workload obs] | _ \<Rightarrow> []) calls)"

definition listed :: "call list \<Rightarrow> Workload list" where
  "listed calls = concat (map (\<lambda>e. case e of Listed _ (Inr items) \<Rightarrow> items | _ \<Rightarrow> []) calls)"

definition listed_kinds :: "call list \<Rightarrow> Kind list" where
  "listed_kinds calls = concat (map (\<lambda>e. case e of Listed kind _ \<Rightarrow> [kind] | _ \<Rightarrow> []) calls)"

definition saw_cancel :: "call list \<Rightarrow> bool" where
  "saw_cancel calls = (\<exists>err. Context (Some err) \<in> set calls)"

lemma pass_append [simp]:
  "visited (xs @ ys) = visited xs @ visited ys" "listed (xs @ ys) = listed xs @ listed ys"
  "listed_kinds (xs @ ys) = listed_kinds xs @ listed_kinds ys" "saw_cancel (xs @ ys) \<longleftrightarrow> saw_cancel xs \<or> saw_cancel ys"
  by (auto simp: visited_def listed_def listed_kinds_def saw_cancel_def)

lemma pass_Nil [simp]: "visited [] = []" "listed [] = []" "listed_kinds [] = []" "\<not> saw_cancel []"
  by (simp_all add: visited_def listed_def listed_kinds_def saw_cancel_def)

lemma pass_Cons [simp]:
  "visited (Listed kind x # cs) = visited cs" "visited (Handled e # cs) = visited cs" "visited (Context a # cs) = visited cs"
  "listed (Listed kind (Inr items) # cs) = items @ listed cs" "listed (Listed kind (Inl err) # cs) = listed cs"
  "listed (Handled e # cs) = listed cs" "listed (Context a # cs) = listed cs"
  "listed_kinds (Listed kind x # cs) = kind # listed_kinds cs" "listed_kinds (Handled e # cs) = listed_kinds cs"
  "listed_kinds (Context a # cs) = listed_kinds cs" "saw_cancel (Listed kind x # cs) = saw_cancel cs"
  "saw_cancel (Handled e # cs) = saw_cancel cs" "saw_cancel (Context a # cs) \<longleftrightarrow> a \<noteq> None \<or> saw_cancel cs"
  by (auto simp: visited_def listed_def listed_kinds_def saw_cancel_def)

lemmas pass_defs = visited_def listed_def listed_kinds_def saw_cancel_def

lemma one_calls_pass: "one_calls v cs \<Longrightarrow> visited cs = [v] \<and> listed cs = [] \<and> listed_kinds cs = [] \<and> \<not> saw_cancel cs"
  by (cases rule: one_calls.cases) (auto simp: pass_defs observation_def)

definition items_calls :: "Workload list \<Rightarrow> bool \<Rightarrow> call list \<Rightarrow> bool" where
  "items_calls items goes_on cs \<longleftrightarrow> listed cs = [] \<and> listed_kinds cs = [] \<and> (goes_on \<longleftrightarrow> \<not> saw_cancel cs) \<and>
     prefix (visited cs) items \<and> (goes_on \<longrightarrow> visited cs = items)"

lemma reconcile_items_calls: "emits (reconcile_items (traced_controller c) items) (items_calls items)"
proof (induction items)
  case Nil
  then show ?case by (simp add: emits_return items_calls_def)
next
  case (Cons v items)
  have rest: "emits (State_Monad.bind (reconcileOne (traced_controller c) v) (\<lambda>_. reconcile_items (traced_controller c) items))
      (\<lambda>goes_on new. items_calls (v # items) goes_on ([Context None] @ new))"
    by (rule emits_bind[OF reconcileOne_calls], rule emits_mono[OF Cons.IH])
      (auto simp: items_calls_def pass_defs dest!: one_calls_pass[unfolded pass_defs])
  show ?case using rest
    by (auto simp: items_calls_def pass_defs split: option.splits intro!: call_binds emits_return)
qed

definition kinds_calls :: "Kind list \<Rightarrow> call list \<Rightarrow> bool" where
  "kinds_calls kinds cs \<longleftrightarrow> prefix (visited cs) (listed cs) \<and> prefix (listed_kinds cs) kinds \<and>
     (\<not> saw_cancel cs \<longrightarrow> visited cs = listed cs \<and> listed_kinds cs = kinds) \<and>
     (\<forall>kind err. Listed kind (Inl err) \<in> set cs \<longrightarrow> (\<exists>e. Handled (Some e) \<in> set cs \<and> errors_Is e err))"

lemma no_listing: "listed_kinds cs = [] \<Longrightarrow> Listed kind x \<notin> set cs"
  by (force simp: listed_kinds_def)

lemma kinds_failed:
  "kinds_calls kinds cs \<Longrightarrow> errors_Is e err \<Longrightarrow> kinds_calls (kind # kinds) (Listed kind (Inl err) # Handled (Some e) # cs)"
  by (auto simp: kinds_calls_def)

lemma kinds_done:
  assumes "items_calls items True cs" "kinds_calls kinds cs'"
  shows "kinds_calls (kind # kinds) (Listed kind (Inr items) # cs @ cs')"
  using assms no_listing[of cs] unfolding kinds_calls_def items_calls_def by (auto 0 3)

lemma kinds_cancelled:
  assumes "items_calls items False cs"
  shows "kinds_calls (kind # kinds) (Listed kind (Inr items) # cs)"
  using assms no_listing[of cs] unfolding kinds_calls_def items_calls_def by auto

lemma reconcile_kinds_calls: "emits (reconcile_kinds (traced_controller c) kinds) (\<lambda>_. kinds_calls kinds)"
proof (induction kinds)
  case Nil
  then show ?case by (simp add: emits_return kinds_calls_def)
next
  case (Cons kind kinds)
  show ?case unfolding reconcile_kinds.simps
  proof (rule call_binds, goal_cases)
    case (1 answer new)
    show ?case
    proof (cases answer)
      case (Inl err)
      show ?thesis unfolding 1 Inl sum.case
        by (rule call_binds, rule emits_mono[OF Cons.IH]) (auto intro: kinds_failed)
    next
      case (Inr items)
      show ?thesis unfolding 1 Inr sum.case
      proof (rule emits_bind[OF reconcile_items_calls], goal_cases)
        case (1 goes_on cs)
        then show ?case
          by (cases goes_on) (auto intro!: emits_mono[OF Cons.IH] emits_return intro: kinds_done kinds_cancelled)
      qed
    qed
  qed
qed

text \<open>
  C15: a full pass covers the inventory. It reconciles the listed Deployments and then the listed
  StatefulSets, each workload exactly once and in the order of the lists. Unless the context is found
  cancelled, it lists both kinds and visits every listed workload: a failed listing of one kind is handed
  to the error handler and does not keep the other kind from being processed. A cancelled pass has
  visited a prefix.
\<close>

theorem reconcileAll_visits:
  "\<exists>w' calls. run_state (reconcileAll (traced_controller c)) (w, []) = ((), (w', calls)) \<and>
     kinds_calls [KindDeployment, KindStatefulSet] calls"
  using emits_run[OF reconcile_kinds_calls[of c "[KindDeployment, KindStatefulSet]"], of w]
  by (auto simp: reconcileAll_def)

end
