(* ===== verification/Observability.thy ===== *)
theory Observability
  imports Orchestrator
begin

text \<open>
  Package \<^verbatim>\<open>internal/observability\<close>: the metrics, readiness, the telemetry that the controller observes
  itself with, and the HTTP handler of the health endpoints. A counter vector of the Prometheus library
  maps label values to a count, a gauge is a number; gauges hold byte counts and flags, which a
  \<^verbatim>\<open>float64\<close> represents exactly.
\<close>

section \<open>Metrics (\<^verbatim>\<open>metrics.go\<close>)\<close>

type_synonym counter = "string list \<Rightarrow> nat"

definition Inc :: "string list \<Rightarrow> counter \<Rightarrow> counter" where
  "Inc labels c = c(labels := c labels + 1)"

record Metrics =
  reconciliations :: counter
  decisions :: counter
  errors :: counter
  policyReloads :: counter
  policyReady :: int
  ready :: int
  stateBytes :: "string \<Rightarrow> int"
  stateNearLimit :: int
  stateExceeded :: int

definition NewMetrics :: Metrics where
  "NewMetrics = \<lparr>reconciliations = \<lambda>_. 0, decisions = \<lambda>_. 0, errors = \<lambda>_. 0, policyReloads = \<lambda>_. 0,
     policyReady = 0, ready = 0, stateBytes = \<lambda>_. 0, stateNearLimit = 0, stateExceeded = 0\<rparr>"

definition boundedReason :: "string \<Rightarrow> string" where
  "boundedReason reason =
     (if HasPrefix reason ''scale-down-window'' then ''scale-down-window''
      else if reason \<in> set [''revision-lifecycle-expired'', ''restore-previous-replicas'', ''active-window'',
                           ''no-policy-snapshot'', ''policy-conflict'', ''no-matching-policy'', ''transition-error'']
      then reason else ''other'')"

definition boolFloat :: "bool \<Rightarrow> int" where
  "boolFloat value = (if value then 1 else 0)"

definition metrics_ObserveReconcile :: "ReconcileObservation \<Rightarrow> Metrics \<Rightarrow> Metrics" where
  "metrics_ObserveReconcile event m =
     (let kind = Workload_Kind (Obs_Workload event);
          m = m\<lparr>reconciliations := Inc [kind, Obs_Result event] (reconciliations m)\<rparr>;
          m = m\<lparr>decisions := Inc [kind, boundedReason (Obs_Reason event)] (decisions m)\<rparr>
      in if Obs_Err event \<noteq> None then m\<lparr>errors := Inc [''reconcile'', boundedReason (Obs_Reason event)] (errors m)\<rparr> else m)"

fun event_label :: "PolicyEventType \<Rightarrow> string" where
  "event_label EventReloaded = ''reloaded''"
| "event_label EventReloadRejected = ''reload-rejected''"
| "event_label PolicyDeleted = ''deleted''"
| "event_label PolicyError = ''error''"
| "event_label PolicyDisconnected = ''disconnected''"

definition metrics_ObservePolicyEvent :: "PolicyEvent \<Rightarrow> Metrics \<Rightarrow> Metrics" where
  "metrics_ObservePolicyEvent event m =
     (let result = event_label (PolicyEvent_Type event);
          m = m\<lparr>policyReloads := Inc [result] (policyReloads m)\<rparr>
      in if PolicyEvent_Err event \<noteq> None then m\<lparr>errors := Inc [''policy'', result] (errors m)\<rparr> else m)"

definition metrics_ObserveError :: "string \<Rightarrow> Metrics \<Rightarrow> Metrics" where
  "metrics_ObserveError component m = m\<lparr>errors := Inc [component, ''runtime-error''] (errors m)\<rparr>"

definition SetReadiness :: "bool \<Rightarrow> bool \<Rightarrow> Metrics \<Rightarrow> Metrics" where
  "SetReadiness p r m = m\<lparr>policyReady := boolFloat p, ready := boolFloat r\<rparr>"

definition metrics_ObserveStateCapacity :: "Capacity \<Rightarrow> Metrics \<Rightarrow> Metrics" where
  "metrics_ObserveStateCapacity capacity m =
     m\<lparr>stateBytes := (stateBytes m)(''state'' := StateBytes capacity, ''total'' := TotalBytes capacity),
       stateNearLimit := boolFloat (NearLimit capacity), stateExceeded := boolFloat (Exceeded capacity)\<rparr>"

section \<open>Readiness and telemetry (\<^verbatim>\<open>runtime.go\<close>)\<close>

text \<open>
  The policy provider is a pointer to the manager that the policy watch reloads; the record holds the
  manager it leads to, so a reload shows here at once (\<open>offer\<close> below). A nil provider is \<open>None\<close>.
\<close>

record Readiness =
  readiness_policies :: "Manager option"
  controllerOn :: bool
  dependencies :: bool

definition NewReadiness :: "Manager option \<Rightarrow> Readiness" where
  "NewReadiness policies = \<lparr>readiness_policies = policies, controllerOn = False, dependencies = False\<rparr>"

definition SetDependenciesReady :: "bool \<Rightarrow> Readiness \<Rightarrow> Readiness" where
  "SetDependenciesReady b r = r\<lparr>dependencies := b\<rparr>"

definition SetControllerRunning :: "bool \<Rightarrow> Readiness \<Rightarrow> Readiness" where
  "SetControllerRunning b r = r\<lparr>controllerOn := b\<rparr>"

definition PolicyReady :: "Readiness \<Rightarrow> bool" where
  "PolicyReady r = (case readiness_policies r of None \<Rightarrow> False | Some manager \<Rightarrow> Current manager \<noteq> None)"

definition Ready :: "Readiness \<Rightarrow> bool" where
  "Ready r \<longleftrightarrow> controllerOn r \<and> dependencies r \<and> PolicyReady r"

datatype log_line = Info string "(string \<times> fmt_arg) list" | Error string "(string \<times> fmt_arg) list"

record Telemetry =
  tele_metrics :: Metrics
  tele_readiness :: Readiness
  tele_log :: "log_line list"

definition NewTelemetry :: "Metrics \<Rightarrow> Readiness \<Rightarrow> Telemetry" where
  "NewTelemetry m r = \<lparr>tele_metrics = m, tele_readiness = r, tele_log = []\<rparr>"

definition refreshReadiness :: "Telemetry \<Rightarrow> Telemetry" where
  "refreshReadiness t =
     t\<lparr>tele_metrics := SetReadiness (PolicyReady (tele_readiness t)) (Ready (tele_readiness t)) (tele_metrics t)\<rparr>"

definition write_log :: "log_line \<Rightarrow> Telemetry \<Rightarrow> Telemetry" where
  "write_log l t = t\<lparr>tele_log := tele_log t @ [l]\<rparr>"

definition tele_ControllerStarted :: "Telemetry \<Rightarrow> Telemetry" where
  "tele_ControllerStarted t =
     write_log (Info ''controller started'' []) (refreshReadiness (t\<lparr>tele_readiness := SetControllerRunning True (tele_readiness t)\<rparr>))"

definition tele_ControllerStopped :: "Telemetry \<Rightarrow> Telemetry" where
  "tele_ControllerStopped t =
     write_log (Info ''controller stopped'' []) (refreshReadiness (t\<lparr>tele_readiness := SetControllerRunning False (tele_readiness t)\<rparr>))"

definition reconcile_attributes :: "ReconcileObservation \<Rightarrow> (string \<times> fmt_arg) list" where
  "reconcile_attributes event =
     [(''kind'', Str (Workload_Kind (Obs_Workload event))), (''namespace'', Str (Workload_Namespace (Obs_Workload event))),
      (''workload'', Str (Workload_Name (Obs_Workload event))), (''policy'', Str (Obs_Policy event)),
      (''reason'', Str (Obs_Reason event)), (''result'', Str (Obs_Result event)),
      (''desired_replicas'', Num (DesiredReplicas (Obs_Decision event))),
      (''should_scale'', Str (if ShouldScale (Obs_Decision event) then ''true'' else ''false''))]"

definition tele_ObserveReconcile :: "ReconcileObservation \<Rightarrow> Telemetry \<Rightarrow> Telemetry" where
  "tele_ObserveReconcile event t =
     (let t = t\<lparr>tele_metrics := metrics_ObserveReconcile event (tele_metrics t)\<rparr>;
          t = (if Obs_Err event = None \<and> Obs_Result event = ''success''
               then t\<lparr>tele_readiness := SetDependenciesReady True (tele_readiness t)\<rparr> else t);
          t = refreshReadiness t
      in case Obs_Err event of
           Some err \<Rightarrow> write_log (Error ''workload reconciliation failed'' (reconcile_attributes event @ [(''error'', ErrV err)])) t
         | None \<Rightarrow> write_log (Info ''workload reconciliation completed'' (reconcile_attributes event)) t)"

definition tele_ObservePolicyEvent :: "PolicyEvent \<Rightarrow> Telemetry \<Rightarrow> Telemetry" where
  "tele_ObservePolicyEvent event t =
     (let t = refreshReadiness (t\<lparr>tele_metrics := metrics_ObservePolicyEvent event (tele_metrics t)\<rparr>);
          label = (''event'', Str (event_label (PolicyEvent_Type event)))
      in case PolicyEvent_Err event of
           Some err \<Rightarrow> write_log (Error ''policy reload event'' [label, (''error'', ErrV err)]) t
         | None \<Rightarrow> write_log (Info ''policy reload event'' [label]) t)"

definition tele_ObserveError :: "string \<Rightarrow> goerr option \<Rightarrow> Telemetry \<Rightarrow> Telemetry" where
  "tele_ObserveError component err t =
     write_log (Error ''controller runtime error''
       ((''component'', Str component) # (case err of None \<Rightarrow> [] | Some e \<Rightarrow> [(''error'', ErrV e)])))
       (t\<lparr>tele_metrics := metrics_ObserveError component (tele_metrics t)\<rparr>)"

text \<open>The telemetry as the controller's observer, over a world that contains it.\<close>

definition telemetry_observer :: "((Telemetry \<Rightarrow> Telemetry) \<Rightarrow> 'w \<Rightarrow> 'w) \<Rightarrow> 'w Observer" where
  "telemetry_observer modT =
     \<lparr>ControllerStarted = State (\<lambda>w. ((), modT tele_ControllerStarted w)),
      ControllerStopped = State (\<lambda>w. ((), modT tele_ControllerStopped w)),
      ObserveReconcile = \<lambda>e. State (\<lambda>w. ((), modT (tele_ObserveReconcile e) w)),
      ObservePolicyEvent = \<lambda>e. State (\<lambda>w. ((), modT (tele_ObservePolicyEvent e) w)),
      ObserveError = \<lambda>c e. State (\<lambda>w. ((), modT (tele_ObserveError c e) w))\<rparr>"

section \<open>The health endpoints (\<^verbatim>\<open>http.go\<close>)\<close>

record response =
  status :: int
  content_type :: string
  body :: string

definition json_response :: "int \<Rightarrow> string \<Rightarrow> response" where
  "json_response code text = \<lparr>status = code, content_type = ''application/json'',
     body = ''{'' @ [CHR 0x22] @ ''status'' @ [CHR 0x22] @ '':'' @ [CHR 0x22] @ text @ [CHR 0x22] @ ''}'' @ [CHR 0x0A]\<rparr>"

text \<open>
  The handler: the Prometheus handler of \<^verbatim>\<open>/metrics\<close> is a parameter; the multiplexer of the standard
  library answers every other path with 404.
\<close>

definition handle_http :: "(Metrics \<Rightarrow> response) \<Rightarrow> string \<Rightarrow> Readiness \<Rightarrow> Metrics \<Rightarrow> response \<times> Metrics" where
  "handle_http prometheus path r m =
     (if path = ''/healthz'' then (json_response 200 ''ok'', m)
      else if path = ''/readyz'' then
        (let m = SetReadiness (PolicyReady r) (Ready r) m in
         if \<not> Ready r then (json_response 503 ''not-ready'', m) else (json_response 200 ''ready'', m))
      else if path = ''/metrics'' then (prometheus m, m)
      else (\<lparr>status = 404, content_type = ''text/plain; charset=utf-8'', body = ''404 page not found'' @ [CHR 0x0A]\<rparr>, m))"

section \<open>Runs of the telemetry\<close>

text \<open>What the controller and the state store report to the telemetry and the metrics.\<close>

datatype report =
    Started
  | Stopped
  | Reconciled ReconcileObservation
  | PolicyReport PolicyEvent
  | Failed string "goerr option"
  | CapacityReport Capacity

fun report_step :: "report \<Rightarrow> Telemetry \<Rightarrow> Telemetry" where
  "report_step Started t = tele_ControllerStarted t"
| "report_step Stopped t = tele_ControllerStopped t"
| "report_step (Reconciled event) t = tele_ObserveReconcile event t"
| "report_step (PolicyReport event) t = tele_ObservePolicyEvent event t"
| "report_step (Failed component err) t = tele_ObserveError component err t"
| "report_step (CapacityReport capacity) t = t\<lparr>tele_metrics := metrics_ObserveStateCapacity capacity (tele_metrics t)\<rparr>"

lemmas tele_defs = tele_ControllerStarted_def tele_ControllerStopped_def tele_ObserveReconcile_def tele_ObservePolicyEvent_def
  tele_ObserveError_def refreshReadiness_def write_log_def SetReadiness_def metrics_ObserveReconcile_def
  metrics_ObservePolicyEvent_def metrics_ObserveError_def metrics_ObserveStateCapacity_def Let_def

definition bounded_reasons :: "string list" where
  "bounded_reasons = [''scale-down-window'', ''revision-lifecycle-expired'', ''restore-previous-replicas'', ''active-window'',
     ''no-policy-snapshot'', ''policy-conflict'', ''no-matching-policy'', ''transition-error'', ''other'']"

lemma boundedReason_bounded: "boundedReason reason \<in> set bounded_reasons"
  by (simp add: boundedReason_def bounded_reasons_def)

text \<open>The label values that occur in a counter vector: the time series it exports.\<close>

definition series :: "counter \<Rightarrow> string list set" where
  "series c = {labels. c labels \<noteq> 0}"

lemma series_Inc: "series (Inc labels c) = insert labels (series c)"
  by (auto simp: series_def Inc_def)

lemma series_zero [simp]: "series (\<lambda>_. 0) = {}"
  by (simp add: series_def)

definition reconciliation_labels :: "string list list" where
  "reconciliation_labels = [[k, r]. k \<leftarrow> [KindDeployment, KindStatefulSet], r \<leftarrow> [''success'', ''error'', ''skipped'']]"

definition decision_labels :: "string list list" where
  "decision_labels = [[k, r]. k \<leftarrow> [KindDeployment, KindStatefulSet], r \<leftarrow> bounded_reasons]"

definition error_labels :: "string list list" where
  "error_labels = map (\<lambda>r. [''reconcile'', r]) bounded_reasons @
     map (\<lambda>t. [''policy'', event_label t]) [EventReloaded, EventReloadRejected, PolicyDeleted, PolicyError, PolicyDisconnected] @
     [[''controller'', ''runtime-error''], [''state-store'', ''runtime-error'']]"

definition reload_labels :: "string list list" where
  "reload_labels = map (\<lambda>t. [event_label t]) [EventReloaded, EventReloadRejected, PolicyDeleted, PolicyError, PolicyDisconnected]"

definition within_labels :: "Metrics \<Rightarrow> bool" where
  "within_labels m \<longleftrightarrow> series (reconciliations m) \<subseteq> set reconciliation_labels \<and> series (decisions m) \<subseteq> set decision_labels \<and>
     series (errors m) \<subseteq> set error_labels \<and> series (policyReloads m) \<subseteq> set reload_labels"

text \<open>
  Reports with supported kinds, the three results and the two components as labels. That the program makes
  no others is proved in \<open>Telemetry_Run\<close>.
\<close>

fun regular_report :: "report \<Rightarrow> bool" where
  "regular_report (Reconciled event) \<longleftrightarrow>
     supported_kind (Workload_Kind (Obs_Workload event)) \<and> Obs_Result event \<in> {''success'', ''error'', ''skipped''}"
| "regular_report (Failed component _) \<longleftrightarrow> component \<in> {''controller'', ''state-store''}"
| "regular_report _ \<longleftrightarrow> True"

lemma event_label_in: "[event_label t] \<in> set reload_labels" "[''policy'', event_label t] \<in> set error_labels"
  by (cases t; simp add: reload_labels_def error_labels_def)+

lemma reason_in:
  "[''reconcile'', boundedReason r] \<in> set error_labels"
  "supported_kind k \<Longrightarrow> [k, boundedReason r] \<in> set decision_labels"
  using boundedReason_bounded[of r] by (auto simp: error_labels_def decision_labels_def)

lemma result_in: "supported_kind k \<Longrightarrow> r \<in> {''success'', ''error'', ''skipped''} \<Longrightarrow> [k, r] \<in> set reconciliation_labels"
  by (auto simp: reconciliation_labels_def)

lemma component_in: "c \<in> {''controller'', ''state-store''} \<Longrightarrow> [c, ''runtime-error''] \<in> set error_labels"
  by (auto simp: error_labels_def)

lemma within_labels_step:
  "regular_report r \<Longrightarrow> within_labels (tele_metrics t) \<Longrightarrow> within_labels (tele_metrics (report_step r t))"
  by (cases r) (auto simp: within_labels_def tele_defs series_Inc event_label_in reason_in result_in component_in
      split: option.splits)

lemma reconciliations_step:
  "reconciliations (tele_metrics (report_step r t)) labels = reconciliations (tele_metrics t) labels +
     (case r of Reconciled event \<Rightarrow> if labels = [Workload_Kind (Obs_Workload event), Obs_Result event] then 1 else 0 | _ \<Rightarrow> 0)"
  by (cases r) (auto simp: tele_defs Inc_def split: option.splits)

definition times_observed :: "string \<Rightarrow> string \<Rightarrow> report list \<Rightarrow> nat" where
  "times_observed kind result rs = length (filter (\<lambda>r. case r of
     Reconciled event \<Rightarrow> Workload_Kind (Obs_Workload event) = kind \<and> Obs_Result event = result | _ \<Rightarrow> False) rs)"

lemma within_labels_card:
  assumes "within_labels m"
  shows "card (series (reconciliations m)) \<le> 6" "card (series (decisions m)) \<le> 18"
    "card (series (errors m)) \<le> 16" "card (series (policyReloads m)) \<le> 5"
proof -
  have "card S \<le> length ls" if "S \<subseteq> set ls" for S and ls :: "string list list"
    using card_mono[OF _ that] card_length[of ls] by (meson List.finite_set le_trans)
  moreover have "length reconciliation_labels = 6" "length decision_labels = 18" "length error_labels = 16" "length reload_labels = 5"
    by (simp_all add: reconciliation_labels_def decision_labels_def error_labels_def reload_labels_def bounded_reasons_def)
  ultimately show "card (series (reconciliations m)) \<le> 6" "card (series (decisions m)) \<le> 18"
    "card (series (errors m)) \<le> 16" "card (series (policyReloads m)) \<le> 5"
    using assms unfolding within_labels_def by metis+
qed

section \<open>Readiness over a run\<close>

text \<open>The manager behind the policy provider is reloaded.\<close>

definition offer :: "Manager \<Rightarrow> Telemetry \<Rightarrow> Telemetry" where
  "offer manager t = t\<lparr>tele_readiness := (tele_readiness t)\<lparr>readiness_policies := Some manager\<rparr>\<rparr>"

definition some_success :: "report list \<Rightarrow> bool" where
  "some_success rs \<longleftrightarrow> (\<exists>event. Reconciled event \<in> set rs \<and> Obs_Err event = None \<and> Obs_Result event = ''success'')"

lemma some_success_simps [simp]:
  "\<not> some_success []" "some_success (rs @ rs') \<longleftrightarrow> some_success rs \<or> some_success rs'"
  by (auto simp: some_success_def)

lemma readiness_step:
  "readiness_policies (tele_readiness (report_step r t)) = readiness_policies (tele_readiness t)"
  "dependencies (tele_readiness (report_step r t)) \<longleftrightarrow> dependencies (tele_readiness t) \<or> some_success [r]"
  by (cases r; auto simp: tele_defs some_success_def SetControllerRunning_def SetDependenciesReady_def split: option.splits)+

end
