(* ===== verification/Runtime.thy ===== *)
theory Runtime
  imports Policy_Manager Systems
begin

text \<open>
  Package \<^verbatim>\<open>internal/runtime\<close>: the coordinator that serves health endpoints on every replica while leader
  election gates the controller, and the elector on Kubernetes leases. \<^verbatim>\<open>Coordinator.Run\<close> is a transition
  system of four goroutines (itself, the HTTP server, the elector and the leader callback) that share
  atomic flags and one-place channels.
\<close>

section \<open>Strings and errors\<close>

text \<open>\<^verbatim>\<open>strings.TrimSpace\<close>: the UTF-8 encodings of white space, stripped from both ends.\<close>

definition space_rune :: "string \<Rightarrow> bool" where
  "space_rune s =
     (case s of
        [c] \<Rightarrow> byte c = 32 \<or> 9 \<le> byte c \<and> byte c \<le> 13
      | [c, d] \<Rightarrow> byte c = 194 \<and> (byte d = 133 \<or> byte d = 160)
      | [c, d, e] \<Rightarrow>
          byte c = 225 \<and> byte d = 154 \<and> byte e = 128 \<or>
          byte c = 226 \<and> byte d = 128 \<and> (128 \<le> byte e \<and> byte e \<le> 138 \<or> byte e \<in> {168, 169, 175}) \<or>
          byte c = 226 \<and> byte d = 129 \<and> byte e = 159 \<or>
          byte c = 227 \<and> byte d = 128 \<and> byte e = 128
      | _ \<Rightarrow> False)"

function trim_left :: "string \<Rightarrow> string" where
  "trim_left s =
     (if s \<noteq> [] \<and> space_rune (take 1 s) then trim_left (drop 1 s)
      else if s \<noteq> [] \<and> space_rune (take 2 s) then trim_left (drop 2 s)
      else if s \<noteq> [] \<and> space_rune (take 3 s) then trim_left (drop 3 s)
      else s)"
  by pat_completeness auto
termination by (relation "measure length") auto

function trim_right :: "string \<Rightarrow> string" where
  "trim_right s =
     (if s \<noteq> [] \<and> space_rune (drop (length s - 1) s) then trim_right (take (length s - 1) s)
      else if s \<noteq> [] \<and> space_rune (drop (length s - 2) s) then trim_right (take (length s - 2) s)
      else if s \<noteq> [] \<and> space_rune (drop (length s - 3) s) then trim_right (take (length s - 3) s)
      else s)"
  by pat_completeness auto
termination by (relation "measure length") auto

declare trim_left.simps [simp del] trim_right.simps [simp del]

definition TrimSpace :: "string \<Rightarrow> string" where
  "TrimSpace s = trim_right (trim_left s)"

definition ErrInvalidDependencies :: goerr where "ErrInvalidDependencies = errors_New ''runtime dependencies must be configured''"
definition ErrLeadershipLost :: goerr where "ErrLeadershipLost = errors_New ''leader election leadership lost''"
definition ErrElectionStopped :: goerr where "ErrElectionStopped = errors_New ''leader election stopped unexpectedly''"
definition ErrControllerStopped :: goerr where "ErrControllerStopped = errors_New ''controller stopped unexpectedly''"
definition ErrHTTPServerStopped :: goerr where "ErrHTTPServerStopped = errors_New ''HTTP server stopped unexpectedly''"
definition ErrShutdownTimeout :: goerr where "ErrShutdownTimeout = errors_New ''graceful shutdown timed out''"

text \<open>\<^verbatim>\<open>http.ErrServerClosed\<close>, which \<^verbatim>\<open>ListenAndServe\<close> returns after a shutdown.\<close>

definition http_ErrServerClosed :: goerr where "http_ErrServerClosed = errors_New ''http: Server closed''"

text \<open>\<^verbatim>\<open>errors.Join\<close> of two errors wraps both.\<close>

definition errors_Join :: "goerr \<Rightarrow> goerr \<Rightarrow> goerr" where
  "errors_Join a b = Errorf ''%w %w'' [] [a, b]"

definition preferError :: "goerr option \<Rightarrow> goerr \<Rightarrow> goerr option" where
  "preferError primary shutdown = (case primary of Some err \<Rightarrow> Some (errors_Join err shutdown) | None \<Rightarrow> Some shutdown)"

section \<open>Options (\<^verbatim>\<open>NewCoordinator\<close>)\<close>

abbreviation DefaultShutdownTimeout :: duration where "DefaultShutdownTimeout \<equiv> 10 * Second"

record ('e, 's, 'r, 'd) Coordinator =
  elector :: 'e
  server :: 's
  runner :: 'r
  readiness :: 'd
  shutdownTimeout :: duration
  onNewLeader :: "string \<Rightarrow> string list"

text \<open>
  The dependencies are interface values, \<open>None\<close> when nil. \<^verbatim>\<open>OnNewLeader\<close> is a callback that may log: its
  result is what it logs.
\<close>

definition NewCoordinator ::
  "'e option \<Rightarrow> 's option \<Rightarrow> 'r option \<Rightarrow> 'd option \<Rightarrow> duration \<Rightarrow> (string \<Rightarrow> string list) option \<Rightarrow>
   ('e, 's, 'r, 'd) Coordinator result" where
  "NewCoordinator e s r d timeout newLeader =
     (case (e, s, r, d) of
        (Some e, Some s, Some r, Some d) \<Rightarrow>
          Inr \<lparr>elector = e, server = s, runner = r, readiness = d,
               shutdownTimeout = (if timeout \<le> 0 then DefaultShutdownTimeout else timeout),
               onNewLeader = (case newLeader of None \<Rightarrow> (\<lambda>_. []) | Some f \<Rightarrow> f)\<rparr>
      | _ \<Rightarrow> Inl ErrInvalidDependencies)"

section \<open>\<^verbatim>\<open>Coordinator.Run\<close>\<close>

text \<open>A channel with one place: nothing sent yet, a message in it, or the message received.\<close>

datatype 'a chan = Empty | Full 'a | Taken

text \<open>
  The leader callback: not invoked, entered, past its check of the context, with \<^verbatim>\<open>leaderStarted\<close> stored,
  running the controller, back from it, with readiness cleared, after the loss check, and ended.
\<close>

datatype leader_pc =
    NotElected | Entered | Passed | Stored | RunnerOn | RunnerBack "goerr option" | Cleared "goerr option"
  | Checked "goerr option" | Ended

text \<open>What was already received when the coordinator leaves its \<^verbatim>\<open>select\<close>.\<close>

record received =
  serverDone :: bool
  electionDone :: bool
  controllerDone :: bool

datatype coord_pc =
    Selecting
  | Chosen "goerr option" received
  | Shutting "goerr option" received
  | Cancelling "goerr option" received
  | WaitElection "goerr option" received
  | WaitController "goerr option" received
  | WaitServer "goerr option" received
  | WaitShutdown "goerr option"
  | Returned "goerr option"

record coord =
  ctx_done :: bool
  cancel_called :: bool
  leader_ctx_done :: bool
  controller_on :: bool
  leader_started :: bool
  lost :: bool
  shutting_down :: bool
  lost_signal :: bool
  stopping :: bool
  server_result :: "goerr option chan"
  election_result :: "goerr option chan"
  controller_result :: "goerr option chan"
  leader :: leader_pc
  main :: coord_pc
  began_live :: bool

definition run_ctx_done :: "coord \<Rightarrow> bool" where
  "run_ctx_done s \<longleftrightarrow> ctx_done s \<or> cancel_called s"

definition nothing_received :: received where
  "nothing_received = \<lparr>serverDone = False, electionDone = False, controllerDone = False\<rparr>"

lemma nothing_received_simps [simp]:
  "serverDone nothing_received = False" "electionDone nothing_received = False" "controllerDone nothing_received = False"
  by (simp_all add: nothing_received_def)

text \<open>The result after each way out of the \<^verbatim>\<open>select\<close>.\<close>

definition controller_outcome :: "bool \<Rightarrow> bool \<Rightarrow> goerr option \<Rightarrow> goerr option" where
  "controller_outcome ctxDone wasLost err =
     (if ctxDone then None
      else if wasLost then Some ErrLeadershipLost
      else (case err of Some e \<Rightarrow> Some (Errorf ''controller run: %w'' [] [e]) | None \<Rightarrow> Some ErrControllerStopped))"

definition election_outcome :: "bool \<Rightarrow> bool \<Rightarrow> goerr option \<Rightarrow> goerr option" where
  "election_outcome ctxDone wasLost err =
     (if ctxDone then None
      else if wasLost \<or> (\<exists>e. err = Some e \<and> errors_Is e ErrLeadershipLost) then Some ErrLeadershipLost
      else (case err of Some e \<Rightarrow> Some (Errorf ''leader election: %w'' [] [e]) | None \<Rightarrow> Some ErrElectionStopped))"

definition server_outcome :: "bool \<Rightarrow> goerr option \<Rightarrow> goerr option" where
  "server_outcome ctxDone err =
     (if ctxDone then None
      else (case err of
          None \<Rightarrow> Some ErrHTTPServerStopped
        | Some e \<Rightarrow> if errors_Is e http_ErrServerClosed then Some ErrHTTPServerStopped
                    else Some (Errorf ''HTTP server: %w'' [] [e])))"

text \<open>\<^verbatim>\<open>lost.Store(true)\<close> and the attempt to signal it, as both callbacks do it.\<close>

definition mark_lost :: "coord \<Rightarrow> coord" where
  "mark_lost s = s\<lparr>lost := True, lost_signal := True\<rparr>"

text \<open>
  The leader callback. The runner may itself switch the readiness flag while it runs (the telemetry does
  so when the controller starts and stops).
\<close>

inductive leader_step :: "coord \<Rightarrow> coord \<Rightarrow> bool" where
  elected: "leader s = NotElected \<Longrightarrow> election_result s = Empty \<Longrightarrow> leader_step s (s\<lparr>leader := Entered\<rparr>)"
| refused: "leader s = Entered \<Longrightarrow> run_ctx_done s \<Longrightarrow> leader_step s (s\<lparr>leader := Ended\<rparr>)"
| passed: "leader s = Entered \<Longrightarrow> \<not> run_ctx_done s \<Longrightarrow> leader_step s (s\<lparr>leader := Passed\<rparr>)"
| stored: "leader s = Passed \<Longrightarrow> leader_step s (s\<lparr>leader := Stored, leader_started := True\<rparr>)"
| runs: "leader s = Stored \<Longrightarrow>
    leader_step s (s\<lparr>leader := RunnerOn, controller_on := True, began_live := (\<not> run_ctx_done s)\<rparr>)"
| toggles: "leader s = RunnerOn \<Longrightarrow> leader_step s (s\<lparr>controller_on := b\<rparr>)"
| comes_back: "leader s = RunnerOn \<Longrightarrow> leader_step s (s\<lparr>leader := RunnerBack err\<rparr>)"
| cleared: "leader s = RunnerBack err \<Longrightarrow> leader_step s (s\<lparr>leader := Cleared err, controller_on := False\<rparr>)"
| found_lost: "leader s = Cleared err \<Longrightarrow> leader_ctx_done s \<Longrightarrow> \<not> run_ctx_done s \<Longrightarrow> \<not> shutting_down s \<Longrightarrow>
    leader_step s (mark_lost (s\<lparr>leader := Checked err\<rparr>))"
| not_lost: "leader s = Cleared err \<Longrightarrow> \<not> (leader_ctx_done s \<and> \<not> run_ctx_done s \<and> \<not> shutting_down s) \<Longrightarrow>
    leader_step s (s\<lparr>leader := Checked err\<rparr>)"
| reported: "leader s = Checked err \<Longrightarrow> leader_step s (s\<lparr>leader := Ended, controller_result := Full err\<rparr>)"

text \<open>
  The elector, about which no more is assumed than that it calls the callbacks before it returns: it may
  lose leadership, call \<^verbatim>\<open>OnStoppedLeading\<close>, and return. And the HTTP server, which may return at any time.
\<close>

inductive other_step :: "coord \<Rightarrow> coord \<Rightarrow> bool" where
  loses: "other_step s (s\<lparr>leader_ctx_done := True\<rparr>)"
| stopped_leading: "election_result s = Empty \<Longrightarrow> other_step s (s\<lparr>controller_on := False, stopping := True\<rparr>)"
| stopped_lost: "stopping s \<Longrightarrow> \<not> ctx_done s \<Longrightarrow> \<not> shutting_down s \<Longrightarrow> other_step s (mark_lost (s\<lparr>stopping := False\<rparr>))"
| stopped_quietly: "stopping s \<Longrightarrow> ctx_done s \<or> shutting_down s \<Longrightarrow> other_step s (s\<lparr>stopping := False\<rparr>)"
| election_returns: "election_result s = Empty \<Longrightarrow> \<not> stopping s \<Longrightarrow> other_step s (s\<lparr>election_result := Full err\<rparr>)"
| server_returns: "server_result s = Empty \<Longrightarrow> other_step s (s\<lparr>server_result := Full err\<rparr>)"
| cancelled: "other_step s (s\<lparr>ctx_done := True\<rparr>)"

text \<open>The coordinator itself. The deadline of the shutdown may pass at any time.\<close>

definition timed_out :: "goerr option \<Rightarrow> coord_pc" where
  "timed_out result = Returned (preferError result ErrShutdownTimeout)"

inductive main_step :: "coord \<Rightarrow> coord \<Rightarrow> bool" where
  wake_ctx: "main s = Selecting \<Longrightarrow> ctx_done s \<Longrightarrow> main_step s (s\<lparr>main := Chosen None nothing_received\<rparr>)"
| wake_lost: "main s = Selecting \<Longrightarrow> lost_signal s \<Longrightarrow>
    main_step s (s\<lparr>lost_signal := False, main := Chosen (Some ErrLeadershipLost) nothing_received\<rparr>)"
| wake_controller: "main s = Selecting \<Longrightarrow> controller_result s = Full err \<Longrightarrow>
    main_step s (s\<lparr>controller_result := Taken,
      main := Chosen (controller_outcome (ctx_done s) (lost s) err) (nothing_received\<lparr>controllerDone := True\<rparr>)\<rparr>)"
| wake_election: "main s = Selecting \<Longrightarrow> election_result s = Full err \<Longrightarrow>
    main_step s (s\<lparr>election_result := Taken,
      main := Chosen (election_outcome (ctx_done s) (lost s) err) (nothing_received\<lparr>electionDone := True\<rparr>)\<rparr>)"
| wake_server: "main s = Selecting \<Longrightarrow> server_result s = Full err \<Longrightarrow>
    main_step s (s\<lparr>server_result := Taken,
      main := Chosen (server_outcome (ctx_done s) err) (nothing_received\<lparr>serverDone := True\<rparr>)\<rparr>)"
| mark_shutting: "main s = Chosen r d \<Longrightarrow> main_step s (s\<lparr>shutting_down := True, main := Shutting r d\<rparr>)"
| call_cancel: "main s = Shutting r d \<Longrightarrow> main_step s (s\<lparr>cancel_called := True, main := Cancelling r d\<rparr>)"
| clear_readiness: "main s = Cancelling r d \<Longrightarrow> main_step s (s\<lparr>controller_on := False, main := WaitElection r d\<rparr>)"
| election_was_done: "main s = WaitElection r d \<Longrightarrow> electionDone d \<Longrightarrow> main_step s (s\<lparr>main := WaitController r d\<rparr>)"
| election_done: "main s = WaitElection r d \<Longrightarrow> \<not> electionDone d \<Longrightarrow> election_result s = Full err \<Longrightarrow>
    main_step s (s\<lparr>election_result := Taken, main := WaitController r d\<rparr>)"
| election_timeout: "main s = WaitElection r d \<Longrightarrow> \<not> electionDone d \<Longrightarrow> main_step s (s\<lparr>main := timed_out r\<rparr>)"
| controller_skipped: "main s = WaitController r d \<Longrightarrow> \<not> leader_started s \<or> controllerDone d \<Longrightarrow>
    main_step s (s\<lparr>main := WaitServer r d\<rparr>)"
| controller_done: "main s = WaitController r d \<Longrightarrow> leader_started s \<Longrightarrow> \<not> controllerDone d \<Longrightarrow> controller_result s = Full err \<Longrightarrow>
    main_step s (s\<lparr>controller_result := Taken, main := WaitServer r d\<rparr>)"
| controller_timeout: "main s = WaitController r d \<Longrightarrow> leader_started s \<Longrightarrow> \<not> controllerDone d \<Longrightarrow>
    main_step s (s\<lparr>main := timed_out r\<rparr>)"
| server_was_done: "main s = WaitServer r d \<Longrightarrow> serverDone d \<Longrightarrow> main_step s (s\<lparr>main := WaitShutdown r\<rparr>)"
| server_done: "main s = WaitServer r d \<Longrightarrow> \<not> serverDone d \<Longrightarrow> server_result s = Full err \<Longrightarrow>
    main_step s (s\<lparr>server_result := Taken, main := WaitShutdown r\<rparr>)"
| server_timeout: "main s = WaitServer r d \<Longrightarrow> \<not> serverDone d \<Longrightarrow> main_step s (s\<lparr>main := timed_out r\<rparr>)"
| shutdown_fails: "main s = WaitShutdown r \<Longrightarrow> \<not> errors_Is err context_Canceled \<Longrightarrow>
    main_step s (s\<lparr>main := Returned (preferError r (Errorf ''shutdown HTTP server: %w'' [] [err]))\<rparr>)"
| shutdown_done: "main s = WaitShutdown r \<Longrightarrow> main_step s (s\<lparr>main := Returned r\<rparr>)"
| shutdown_timeout: "main s = WaitShutdown r \<Longrightarrow> main_step s (s\<lparr>main := timed_out r\<rparr>)"

definition coord_step :: "coord \<Rightarrow> coord \<Rightarrow> bool" where
  "coord_step s t \<longleftrightarrow> leader_step s t \<or> other_step s t \<or> main_step s t"

definition start_coord :: coord where
  "start_coord = \<lparr>ctx_done = False, cancel_called = False, leader_ctx_done = False, controller_on = False, leader_started = False,
     lost = False, shutting_down = False, lost_signal = False, stopping = False, server_result = Empty,
     election_result = Empty, controller_result = Empty, leader = NotElected, main = Selecting, began_live = False\<rparr>"

section \<open>Leases (\<^verbatim>\<open>election.go\<close>)\<close>

abbreviation DefaultLeaseDuration :: duration where "DefaultLeaseDuration \<equiv> 15 * Second"
abbreviation DefaultRenewDeadline :: duration where "DefaultRenewDeadline \<equiv> 10 * Second"
abbreviation DefaultRetryPeriod :: duration where "DefaultRetryPeriod \<equiv> 2 * Second"

text \<open>The configuration handed to the leader election library; the lock is what \<^verbatim>\<open>resourcelock.New\<close> answers.\<close>

record 'l LeaderElectionConfig =
  Lock :: 'l
  LeaseDuration :: duration
  RenewDeadline :: duration
  RetryPeriod :: duration
  ReleaseOnCancel :: bool
  LeaseName :: string

definition NewKubernetesElector ::
  "(string \<Rightarrow> string \<Rightarrow> string \<Rightarrow> 'l result) option \<Rightarrow> string \<Rightarrow> string \<Rightarrow> string \<Rightarrow> 'l LeaderElectionConfig result" where
  "NewKubernetesElector client namespace name identity =
     (case client of
        None \<Rightarrow> Inl ErrInvalidDependencies
      | Some new_lock \<Rightarrow>
          if TrimSpace namespace = [] \<or> TrimSpace name = [] \<or> TrimSpace identity = [] then Inl ErrInvalidDependencies
          else (case new_lock namespace name identity of
              Inl err \<Rightarrow> Inl (Errorf ''create Lease resource lock: %w'' [] [err])
            | Inr lock \<Rightarrow> Inr \<lparr>Lock = lock, LeaseDuration = DefaultLeaseDuration, RenewDeadline = DefaultRenewDeadline,
                              RetryPeriod = DefaultRetryPeriod, ReleaseOnCancel = True, LeaseName = name\<rparr>))"

text \<open>
  \<^verbatim>\<open>KubernetesElector.Run\<close>: the error of \<^verbatim>\<open>NewLeaderElector\<close> if any, and the error of the context after the
  library's \<^verbatim>\<open>Run\<close> has returned, are arguments.
\<close>

definition elector_Run :: "goerr option \<Rightarrow> goerr option \<Rightarrow> goerr option" where
  "elector_Run configured ctxErr =
     (case configured of
        Some err \<Rightarrow> Some (Errorf ''configure leader election: %w'' [] [err])
      | None \<Rightarrow> if ctxErr \<noteq> None then None else Some ErrLeadershipLost)"

text \<open>\<^verbatim>\<open>NewLeaderIdentity\<close>: the environment variable, the host name and the UUID are arguments.\<close>

definition NewLeaderIdentity :: "string \<Rightarrow> string result \<Rightarrow> string result \<Rightarrow> string result" where
  "NewLeaderIdentity podName osHostname newUUID =
     (case (if TrimSpace podName \<noteq> [] then Inr (TrimSpace podName)
            else (case osHostname of
                Inl err \<Rightarrow> Inl (Errorf ''determine leader identity hostname: %w'' [] [err])
              | Inr hostname \<Rightarrow> Inr hostname)) of
        Inl err \<Rightarrow> Inl err
      | Inr hostname \<Rightarrow>
          (case newUUID of
             Inl err \<Rightarrow> Inl (Errorf ''generate leader identity UUID: %w'' [] [err])
           | Inr randomID \<Rightarrow> Inr (hostname @ ''_'' @ randomID)))"

section \<open>Invariant\<close>

text \<open>The result a coordinator has settled on, in any state after the \<^verbatim>\<open>select\<close>.\<close>

fun settled :: "coord_pc \<Rightarrow> (goerr option \<times> received) option" where
  "settled (Chosen r d) = Some (r, d)"
| "settled (Shutting r d) = Some (r, d)"
| "settled (Cancelling r d) = Some (r, d)"
| "settled (WaitElection r d) = Some (r, d)"
| "settled (WaitController r d) = Some (r, d)"
| "settled (WaitServer r d) = Some (r, d)"
| "settled _ = None"

fun past_cancel :: "coord_pc \<Rightarrow> bool" where
  "past_cancel Selecting = False"
| "past_cancel (Chosen _ _) = False"
| "past_cancel (Shutting _ _) = False"
| "past_cancel _ = True"

fun past_election :: "coord_pc \<Rightarrow> bool" where
  "past_election (WaitController _ _) = True"
| "past_election (WaitServer _ _) = True"
| "past_election (WaitShutdown _) = True"
| "past_election _ = False"

fun past_controller :: "coord_pc \<Rightarrow> bool" where
  "past_controller (WaitServer _ _) = True"
| "past_controller (WaitShutdown _) = True"
| "past_controller _ = False"

definition all_in :: "coord \<Rightarrow> bool" where
  "all_in s \<longleftrightarrow> election_result s = Taken \<and> server_result s = Taken \<and> (began_live s \<longrightarrow> controller_result s = Taken)"

definition clean :: "goerr option \<Rightarrow> bool" where
  "clean r \<longleftrightarrow> (\<forall>e. r = Some e \<longrightarrow> \<not> errors_Is e ErrShutdownTimeout)"

text \<open>
  The stretch of the leader callback between its two calls of \<^verbatim>\<open>SetControllerRunning\<close>: the controller runs, or
  it has come back and the callback is about to clear the mark.
\<close>

definition leader_active :: "leader_pc \<Rightarrow> bool" where
  "leader_active pc \<longleftrightarrow> pc = RunnerOn \<or> (\<exists>err. pc = RunnerBack err)"

definition coord_inv :: "coord \<Rightarrow> bool" where
  "coord_inv s \<longleftrightarrow>
     (controller_on s \<longrightarrow> leader_active (leader s)) \<and>
     (began_live s \<longrightarrow> leader_started s) \<and>
     (leader s \<in> {Stored, RunnerOn} \<or> (\<exists>err. leader s \<in> {RunnerBack err, Cleared err, Checked err}) \<longrightarrow> leader_started s) \<and>
     (leader s \<noteq> Ended \<longrightarrow> controller_result s = Empty) \<and>
     (past_cancel (main s) \<longrightarrow> cancel_called s) \<and>
     (\<forall>r d. settled (main s) = Some (r, d) \<longrightarrow> (r = None \<longrightarrow> ctx_done s) \<and>
        (electionDone d \<longrightarrow> election_result s = Taken) \<and> (serverDone d \<longrightarrow> server_result s = Taken) \<and>
        (controllerDone d \<longrightarrow> controller_result s = Taken)) \<and>
     (\<forall>r. main s = WaitShutdown r \<longrightarrow> (r = None \<longrightarrow> ctx_done s) \<and> server_result s = Taken) \<and>
     (past_election (main s) \<longrightarrow> election_result s = Taken) \<and>
     (past_controller (main s) \<longrightarrow> began_live s \<longrightarrow> controller_result s = Taken) \<and>
     (\<forall>r. main s = Returned r \<longrightarrow> (r = None \<longrightarrow> ctx_done s) \<and> (clean r \<longrightarrow> all_in s))"

lemma timeout_not_clean: "\<not> clean (preferError r ErrShutdownTimeout)"
  by (auto simp: clean_def preferError_def errors_Join_def split: option.splits)

lemma preferError_some: "preferError r e \<noteq> None"
  by (simp add: preferError_def split: option.splits)

lemma outcome_None:
  "controller_outcome c l e = None \<Longrightarrow> c" "election_outcome c l e = None \<Longrightarrow> c" "server_outcome c e = None \<Longrightarrow> c"
  by (auto simp: controller_outcome_def election_outcome_def server_outcome_def split: if_splits option.splits)

lemma coord_inv_start: "coord_inv start_coord"
  by (simp add: coord_inv_def start_coord_def)

lemma past_order: "past_controller pc \<Longrightarrow> past_election pc" "past_election pc \<Longrightarrow> past_cancel pc"
  by (cases pc; simp)+

lemma coord_inv_leader: "leader_step s t \<Longrightarrow> coord_inv s \<Longrightarrow> coord_inv t"
proof (induction rule: leader_step.induct)
  case (runs s)
  then have "past_controller (main s) \<longrightarrow> cancel_called s" "\<forall>r. main s = Returned r \<longrightarrow> cancel_called s"
    using past_order unfolding coord_inv_def by force+
  with runs show ?case by (auto simp: coord_inv_def run_ctx_done_def leader_active_def all_in_def)
qed (auto simp: coord_inv_def leader_active_def mark_lost_def all_in_def)

lemma coord_inv_other: "other_step s t \<Longrightarrow> coord_inv s \<Longrightarrow> coord_inv t"
  by (induction rule: other_step.induct) (auto simp: coord_inv_def leader_active_def mark_lost_def all_in_def)

lemma coord_inv_main: "main_step s t \<Longrightarrow> coord_inv s \<Longrightarrow> coord_inv t"
proof (induction rule: main_step.induct)
  case (wake_controller s err)
  then have "leader s = Ended" unfolding coord_inv_def by auto
  with wake_controller show ?case by (auto simp: coord_inv_def nothing_received_def leader_active_def dest: outcome_None)
next
  case (controller_done s r d err)
  then have "leader s = Ended" unfolding coord_inv_def by auto
  with controller_done show ?case by (auto simp: coord_inv_def leader_active_def)
next
  case (shutdown_done s r)
  then show ?case by (auto simp: coord_inv_def all_in_def)
qed (auto simp: coord_inv_def nothing_received_def all_in_def timed_out_def timeout_not_clean preferError_some dest: outcome_None)

lemma coord_inv_step: "coord_step s t \<Longrightarrow> coord_inv s \<Longrightarrow> coord_inv t"
  unfolding coord_step_def using coord_inv_leader coord_inv_other coord_inv_main by blast

interpretation coordinator: invariant_system coord_step coord_inv
  by unfold_locales (rule coord_inv_step)

lemma coord_inv_reachable: "coord_step\<^sup>*\<^sup>* start_coord s \<Longrightarrow> coord_inv s"
  using coordinator.reachable_inv coord_inv_start by blast

section \<open>Properties of the coordinator\<close>

text \<open>
  C18: in every interleaving of the four goroutines, a replica is marked as running its controller only
  between the moment its leader callback starts the controller and the moment that callback clears the
  mark, which is the callback's first step after the controller has come back: never before the replica
  was elected, and never again once the callback has cleared the mark. \<^verbatim>\<open>Run\<close> returns without an error only after its context was cancelled; and it
  returns without a shutdown timeout only after the election, the HTTP server and every controller that
  began under a live context have reported back.
\<close>

theorem coordinator_safe:
  assumes "coord_step\<^sup>*\<^sup>* start_coord s"
  shows "(controller_on s \<longrightarrow> leader_active (leader s)) \<and>
    (main s = Returned r \<longrightarrow> (r = None \<longrightarrow> ctx_done s) \<and> (clean r \<longrightarrow> all_in s))"
  using coord_inv_reachable[OF assms] unfolding coord_inv_def by blast

text \<open>A run in which the context is cancelled while the replica waits for leadership.\<close>

lemma quiet_shutdown:
  obtains s where "coord_step\<^sup>*\<^sup>* start_coord s" "main s = Returned None"
proof -
  let ?a = "start_coord\<lparr>ctx_done := True\<rparr>"
  let ?b = "?a\<lparr>main := Chosen None nothing_received\<rparr>"
  let ?c = "?b\<lparr>shutting_down := True, main := Shutting None nothing_received\<rparr>"
  let ?d = "?c\<lparr>cancel_called := True, main := Cancelling None nothing_received\<rparr>"
  let ?e = "?d\<lparr>controller_on := False, main := WaitElection None nothing_received\<rparr>"
  let ?f = "?e\<lparr>election_result := Full None\<rparr>"
  let ?g = "?f\<lparr>server_result := Full None\<rparr>"
  let ?h = "?g\<lparr>election_result := Taken, main := WaitController None nothing_received\<rparr>"
  let ?i = "?h\<lparr>main := WaitServer None nothing_received\<rparr>"
  let ?j = "?i\<lparr>server_result := Taken, main := WaitShutdown None\<rparr>"
  let ?k = "?j\<lparr>main := Returned None\<rparr>"
  have "other_step start_coord ?a" "main_step ?a ?b" "main_step ?b ?c" "main_step ?c ?d" "main_step ?d ?e"
    by (rule other_step.cancelled main_step.wake_ctx main_step.mark_shutting main_step.call_cancel main_step.clear_readiness;
        simp add: start_coord_def)+
  moreover have "other_step ?e ?f" "other_step ?f ?g"
    by (rule other_step.election_returns other_step.server_returns; simp add: start_coord_def)+
  moreover have "main_step ?g ?h" by (rule main_step.election_done) simp_all
  moreover have "main_step ?h ?i" by (rule main_step.controller_skipped) (simp_all add: start_coord_def)
  moreover have "main_step ?i ?j" by (rule main_step.server_done[where d = nothing_received]) simp_all
  moreover have "main_step ?j ?k" by (rule main_step.shutdown_done) simp
  ultimately have "coord_step\<^sup>*\<^sup>* start_coord ?k"
    by (meson coord_step_def converse_rtranclp_into_rtranclp rtranclp.rtrancl_refl)
  then show thesis by (rule that) simp
qed

theorem coordinator_safe_witness:
  "\<exists>s. coord_step\<^sup>*\<^sup>* start_coord s \<and> main s = Returned None \<and> ctx_done s \<and> all_in s"
proof -
  obtain s where "coord_step\<^sup>*\<^sup>* start_coord s" "main s = Returned None" by (rule quiet_shutdown)
  with coordinator_safe[of s None] show ?thesis by (auto simp: clean_def)
qed

text \<open>Where the error of the \<^verbatim>\<open>select\<close> is kept until the end.\<close>

fun reports :: "goerr \<Rightarrow> coord_pc \<Rightarrow> bool" where
  "reports e (Chosen r _) = (\<exists>e'. r = Some e' \<and> errors_Is e' e)"
| "reports e (Shutting r _) = (\<exists>e'. r = Some e' \<and> errors_Is e' e)"
| "reports e (Cancelling r _) = (\<exists>e'. r = Some e' \<and> errors_Is e' e)"
| "reports e (WaitElection r _) = (\<exists>e'. r = Some e' \<and> errors_Is e' e)"
| "reports e (WaitController r _) = (\<exists>e'. r = Some e' \<and> errors_Is e' e)"
| "reports e (WaitServer r _) = (\<exists>e'. r = Some e' \<and> errors_Is e' e)"
| "reports e (WaitShutdown r) = (\<exists>e'. r = Some e' \<and> errors_Is e' e)"
| "reports e (Returned r) = (\<exists>e'. r = Some e' \<and> errors_Is e' e)"
| "reports e Selecting = False"

lemma reports_preferError: "\<exists>e'. r = Some e' \<and> errors_Is e' e \<Longrightarrow> \<exists>e'. preferError r x = Some e' \<and> errors_Is e' e"
  by (auto simp: preferError_def errors_Join_def)

lemma reports_step: "coord_step s t \<Longrightarrow> reports e (main s) \<Longrightarrow> reports e (main t)"
  unfolding coord_step_def
proof (elim disjE)
  show "leader_step s t \<Longrightarrow> reports e (main s) \<Longrightarrow> reports e (main t)"
    by (induction rule: leader_step.induct) (auto simp: mark_lost_def)
  show "other_step s t \<Longrightarrow> reports e (main s) \<Longrightarrow> reports e (main t)"
    by (induction rule: other_step.induct) (auto simp: mark_lost_def)
  show "main_step s t \<Longrightarrow> reports e (main s) \<Longrightarrow> reports e (main t)"
    by (induction rule: main_step.induct) (auto simp: timed_out_def preferError_def errors_Join_def)
qed

interpretation cause: invariant_system coord_step "\<lambda>s. reports e (main s)" for e
  by unfold_locales (rule reports_step)

text \<open>
  Once the context is cancelled or a first failure was chosen, the coordinator has a step of its own in
  every state, each brings it closer to its end, and no step of another goroutine takes it back.
\<close>

fun steps_left :: "coord_pc \<Rightarrow> nat" where
  "steps_left Selecting = 8"
| "steps_left (Chosen _ _) = 7"
| "steps_left (Shutting _ _) = 6"
| "steps_left (Cancelling _ _) = 5"
| "steps_left (WaitElection _ _) = 4"
| "steps_left (WaitController _ _) = 3"
| "steps_left (WaitServer _ _) = 2"
| "steps_left (WaitShutdown _) = 1"
| "steps_left (Returned _) = 0"

definition winding_down :: "coord \<Rightarrow> bool" where
  "winding_down s \<longleftrightarrow> ctx_done s \<or> main s \<noteq> Selecting"

definition has_returned :: "coord \<Rightarrow> bool" where
  "has_returned s \<longleftrightarrow> (\<exists>r. main s = Returned r)"

lemma main_step_lowers: "main_step s t \<Longrightarrow> steps_left (main t) < steps_left (main s) \<and> winding_down t"
  by (induction rule: main_step.induct) (auto simp: timed_out_def winding_down_def)

lemma leader_step_keeps: "leader_step s t \<Longrightarrow> main t = main s \<and> (ctx_done s \<longrightarrow> ctx_done t)"
  by (induction rule: leader_step.induct) (auto simp: mark_lost_def)

lemma other_step_keeps: "other_step s t \<Longrightarrow> main t = main s \<and> (ctx_done s \<longrightarrow> ctx_done t)"
  by (induction rule: other_step.induct) (auto simp: mark_lost_def)

lemmas other_steps_keep = leader_step_keeps other_step_keeps

lemma main_step_enabled: "winding_down s \<Longrightarrow> \<not> has_returned s \<Longrightarrow> \<exists>t. main_step s t"
  unfolding winding_down_def has_returned_def by (cases "main s") (blast intro: main_step.intros)+

interpretation ending: fair_progress coord_step winding_down main_step has_returned "\<lambda>s. steps_left (main s)"
proof
  fix s t
  show "winding_down t" if "winding_down s" "coord_step s t"
    using that other_steps_keep main_step_lowers unfolding coord_step_def winding_down_def by metis
  show "steps_left (main t) \<le> steps_left (main s)" if "winding_down s" "coord_step s t"
    using that other_steps_keep main_step_lowers unfolding coord_step_def by (metis less_imp_le order_refl)
qed (auto simp: coord_step_def main_step_lowers main_step_enabled)

text \<open>
  C19: \<^verbatim>\<open>Run\<close> ends, and it does not hide why. Once the context is cancelled or a first failure was chosen,
  the coordinator reaches its end by its own steps, whatever the other goroutines do or fail to do: it is
  never stuck before, and every infinite run that is weakly fair to its steps comes to a state where it
  has returned. And when the failure it woke up for was an error, every run that continues from there can
  only return an error that wraps it, also when the shutdown fails or times out on top of it.
\<close>

theorem coordinator_ends_with_cause:
  assumes "ctx_done s \<or> main s \<noteq> Selecting"
  shows "(\<exists>t r. main_step\<^sup>*\<^sup>* s t \<and> main t = Returned r) \<and>
    (\<forall>t. coord_step\<^sup>*\<^sup>* s t \<and> (\<nexists>r. main t = Returned r) \<longrightarrow> (\<exists>u. main_step t u)) \<and>
    (\<forall>\<sigma>. \<sigma> 0 = s \<and> is_run coord_step \<sigma> \<and> weakly_fair main_step \<sigma> \<longrightarrow> (\<exists>j r. main (\<sigma> j) = Returned r)) \<and>
    (\<forall>e d t r. main s = Chosen (Some e) d \<and> coord_step\<^sup>*\<^sup>* s t \<and> main t = Returned r \<longrightarrow>
       (\<exists>e'. r = Some e' \<and> errors_Is e' e))"
proof (intro conjI allI impI)
  have live: "winding_down s" using assms by (simp add: winding_down_def)
  show "\<exists>t r. main_step\<^sup>*\<^sup>* s t \<and> main t = Returned r"
    using ending.can_reach[OF live] unfolding has_returned_def by blast
  show "\<exists>u. main_step t u" if "coord_step\<^sup>*\<^sup>* s t \<and> (\<nexists>r. main t = Returned r)" for t
    using ending.enabled ending.reachable_inv live that unfolding has_returned_def by blast
  show "\<exists>j r. main (\<sigma> j) = Returned r"
    if "\<sigma> 0 = s \<and> is_run coord_step \<sigma> \<and> weakly_fair main_step \<sigma>" for \<sigma>
    using ending.reaches[of \<sigma> 0] live that unfolding has_returned_def by auto
  show "\<exists>e'. r = Some e' \<and> errors_Is e' e"
    if "main s = Chosen (Some e) d \<and> coord_step\<^sup>*\<^sup>* s t \<and> main t = Returned r" for e d t r
    using cause.reachable_inv[of s t e] that by auto
qed

definition lost_coord :: coord where
  "lost_coord = start_coord\<lparr>main := Chosen (Some ErrLeadershipLost) nothing_received\<rparr>"

theorem coordinator_ends_with_cause_witness:
  "\<exists>\<sigma> j e. \<sigma> 0 = lost_coord \<and> is_run coord_step \<sigma> \<and> main (\<sigma> j) = Returned (Some e) \<and> errors_Is e ErrLeadershipLost"
proof -
  have chosen: "ctx_done lost_coord \<or> main lost_coord \<noteq> Selecting" "main lost_coord = Chosen (Some ErrLeadershipLost) nothing_received"
    by (simp_all add: lost_coord_def)
  have "\<exists>t. coord_step s t" for s using other_step.cancelled unfolding coord_step_def by blast
  then obtain \<sigma> where run: "\<sigma> 0 = lost_coord" "is_run coord_step \<sigma>" "weakly_fair main_step \<sigma>"
    using ending.fair_run[of lost_coord] chosen(1) unfolding winding_down_def by metis
  then obtain j r where j: "main (\<sigma> j) = Returned r"
    using coordinator_ends_with_cause[OF chosen(1)] by blast
  have "coord_step\<^sup>*\<^sup>* lost_coord (\<sigma> j)" using run_reachable[OF run(2)] run(1) by simp
  with coordinator_ends_with_cause[OF chosen(1)] chosen(2) j run show ?thesis by blast
qed

end
