(* ===== verification/Commands.thy ===== *)
theory Commands
  imports Observability Runtime
begin

text \<open>
  The two commands: the start-up of the controller (\<^verbatim>\<open>cmd/controller/main.go\<close>) and the check of a
  multi-platform image manifest (\<^verbatim>\<open>hack/verify-manifest.go\<close>).
\<close>

section \<open>Starting the controller\<close>

abbreviation defaultNamespace :: string where "defaultNamespace \<equiv> ''lifecycle-system''"
abbreviation defaultPolicyConfigMap :: string where "defaultPolicyConfigMap \<equiv> ''workload-lifecycle-policies''"
abbreviation defaultStateConfigMap :: string where "defaultStateConfigMap \<equiv> ''workload-lifecycle-state''"
abbreviation defaultHTTPAddress :: string where "defaultHTTPAddress \<equiv> '':8080''"
abbreviation defaultLeaseName :: string where "defaultLeaseName \<equiv> ''workload-lifecycle-controller''"

definition envOrDefault :: "(string \<Rightarrow> string) \<Rightarrow> string \<Rightarrow> string \<Rightarrow> string" where
  "envOrDefault Getenv name fallback = (if Getenv name \<noteq> [] then Getenv name else fallback)"

text \<open>
  What the start-up asks of its surroundings: the environment, the cluster configuration and client, the
  ConfigMaps of a namespace, the JSON codec, the host name, a UUID, and the lease lock.
\<close>

record ('w, 'l) startup_env =
  InClusterConfig :: "goerr option"
  NewForConfig :: "goerr option"
  Getenv :: "string \<Rightarrow> string"
  ConfigMaps :: "string \<Rightarrow> 'w cm_client"
  Codec :: json_codec
  Hostname :: "string result"
  NewUUID :: "string result"
  NewLock :: "string \<Rightarrow> string \<Rightarrow> string \<Rightarrow> 'l result"

text \<open>The first load of the policies; \<open>None\<close> when decoding crashes.\<close>

definition initial_policy ::
  "(Manager \<Rightarrow> string \<Rightarrow> (goerr option \<times> Manager) option) \<Rightarrow> ConfigMap result \<Rightarrow> Manager \<Rightarrow> (goerr option \<times> Manager) option" where
  "initial_policy reload answer manager =
     (case answer of
        Inl err \<Rightarrow> Some (Some err, manager)
      | Inr initialPolicy \<Rightarrow>
          (case map_of (case CM_Data initialPolicy of None \<Rightarrow> [] | Some data \<Rightarrow> data) DefaultConfigMapDataKey of
             None \<Rightarrow> Some (Some (Errorf ''%w %q'' [Str DefaultConfigMapDataKey] [ErrMissingPolicyData]), manager)
           | Some payload \<Rightarrow> reload manager payload))"

text \<open>
  The state store of the process, whose observer is the metrics: it works on the cluster and the metrics,
  of which its client leaves the metrics alone.
\<close>

definition beside_client :: "'w cm_client \<Rightarrow> ('w \<times> 'x) cm_client" where
  "beside_client c =
     \<lparr>cm_Get = \<lambda>n. unlogged (cm_Get c n), cm_Create = \<lambda>cm. unlogged (cm_Create c cm), cm_Update = \<lambda>cm. unlogged (cm_Update c cm),
      cm_ctx_Err = unlogged (cm_ctx_Err c), cm_timer = \<lambda>d. unlogged (cm_timer c d),
      IsNotFound = IsNotFound c, IsConflict = IsConflict c, IsAlreadyExists = IsAlreadyExists c\<rparr>"

definition metrics_observer :: "Capacity \<Rightarrow> ('w \<times> Metrics, unit) io" where
  "metrics_observer capacity = State (\<lambda>(w, m). ((), (w, metrics_ObserveStateCapacity capacity m)))"

definition state_store :: "('w, 'l) startup_env \<Rightarrow> string \<Rightarrow> string \<Rightarrow> ('w \<times> Metrics) ConfigMapStateStore" where
  "state_store e namespace name =
     SetCapacityObserver metrics_observer (NewConfigMapStateStore (beside_client (ConfigMaps e namespace)) (Codec e) namespace name)"

definition load_state :: "('w, 'l) startup_env \<Rightarrow> string \<Rightarrow> string \<Rightarrow> Telemetry \<Rightarrow> ('w, Telemetry) io" where
  "load_state e namespace name t = State (\<lambda>w.
     case run_state (store_Load (state_store e namespace name)) (w, tele_metrics t) of (answer, (w', m)) \<Rightarrow>
       let t = t\<lparr>tele_metrics := m\<rparr>
       in (case answer of
             Inl err \<Rightarrow> tele_ObserveError ''state-store'' (Some err) t
           | Inr _ \<Rightarrow> t\<lparr>tele_readiness := SetDependenciesReady True (tele_readiness t)\<rparr>, w'))"

record 'l process =
  proc_telemetry :: Telemetry
  proc_watcher :: ConfigMapWatcher
  proc_address :: string
  proc_elector :: "'l LeaderElectionConfig"

text \<open>The telemetry after the first load of the policies, and the rest of the start-up once the state is loaded.\<close>

definition policy_telemetry :: "goerr option \<Rightarrow> Manager \<Rightarrow> Telemetry" where
  "policy_telemetry policyErr manager =
     (let t = NewTelemetry NewMetrics (NewReadiness (Some manager))
      in case policyErr of
           Some err \<Rightarrow> tele_ObservePolicyEvent (mkPolicyEvent EventReloadRejected (Some err)) t
         | None \<Rightarrow> tele_ObservePolicyEvent (mkPolicyEvent EventReloaded None) t)"

definition start_process :: "('w, 'l) startup_env \<Rightarrow> string \<Rightarrow> string \<Rightarrow> Telemetry \<Rightarrow> 'l process result" where
  "start_process e namespace policyName t =
     (case NewLeaderIdentity (Getenv e ''POD_NAME'') (Hostname e) (NewUUID e) of
        Inl err \<Rightarrow> Inl err
      | Inr identity \<Rightarrow>
          (case NewKubernetesElector (Some (NewLock e))
                  (envOrDefault (Getenv e) ''LEADER_ELECTION_NAMESPACE'' namespace)
                  (envOrDefault (Getenv e) ''LEADER_ELECTION_NAME'' defaultLeaseName) identity of
             Inl err \<Rightarrow> Inl err
           | Inr lease \<Rightarrow>
               Inr \<lparr>proc_telemetry = t,
                 proc_watcher = NewConfigMapWatcher policyName DefaultConfigMapDataKey,
                 proc_address = envOrDefault (Getenv e) ''OBSERVABILITY_ADDR'' defaultHTTPAddress,
                 proc_elector = lease\<rparr>))"

text \<open>
  \<^verbatim>\<open>run\<close> up to the point where it hands over to the coordinator. The constructors of the reconciler, the
  controller and the coordinator get their dependencies from right here and none is nil.
\<close>

definition run_start ::
  "(Manager \<Rightarrow> string \<Rightarrow> (goerr option \<times> Manager) option) \<Rightarrow> ('w, 'l) startup_env \<Rightarrow> ('w, 'l process result option) io" where
  "run_start reload e =
     (case InClusterConfig e of
        Some err \<Rightarrow> ret (Some (Inl (Errorf ''load in-cluster Kubernetes configuration: %w'' [] [err])))
      | None \<Rightarrow>
     (case NewForConfig e of
        Some err \<Rightarrow> ret (Some (Inl (Errorf ''create Kubernetes client: %w'' [] [err])))
      | None \<Rightarrow> do {
          let namespace = envOrDefault (Getenv e) ''POD_NAMESPACE'' defaultNamespace;
          let policyName = envOrDefault (Getenv e) ''POLICY_CONFIGMAP'' defaultPolicyConfigMap;
          let stateName = envOrDefault (Getenv e) ''STATE_CONFIGMAP'' defaultStateConfigMap;
          initialPolicy \<leftarrow> cm_Get (ConfigMaps e namespace) policyName;
          case initial_policy reload initialPolicy \<lparr>current = None\<rparr> of
            None \<Rightarrow> ret None
          | Some (policyErr, manager) \<Rightarrow> do {
              t \<leftarrow> load_state e namespace stateName (policy_telemetry policyErr manager);
              ret (Some (start_process e namespace policyName t))
            }
        }))"

text \<open>
  \<^verbatim>\<open>main\<close>: the exit status of the process. After the start-up \<^verbatim>\<open>run\<close> returns what the coordinator returns;
  its context is cancelled by the signals. A crash of the runtime ends the process with status 2.
\<close>

definition exit_status :: "goerr option \<Rightarrow> int" where
  "exit_status err = (case err of Some _ \<Rightarrow> 1 | None \<Rightarrow> 0)"

inductive process_exits ::
  "(Manager \<Rightarrow> string \<Rightarrow> (goerr option \<times> Manager) option) \<Rightarrow> ('w, 'l) startup_env \<Rightarrow> 'w \<Rightarrow> int \<Rightarrow> bool" for reload e w where
  start_fails: "run_state (run_start reload e) w = (Some (Inl err), w') \<Longrightarrow> process_exits reload e w (exit_status (Some err))"
| coordinator_returns: "run_state (run_start reload e) w = (Some (Inr p), w') \<Longrightarrow> coord_step\<^sup>*\<^sup>* start_coord s \<Longrightarrow>
    Runtime.main s = Returned r \<Longrightarrow> process_exits reload e w (exit_status r)"
| crashes: "run_state (run_start reload e) w = (None, w') \<Longrightarrow> process_exits reload e w 2"

section \<open>Image manifests\<close>

text \<open>\<^verbatim>\<open>requiredPlatforms\<close>: the decoded list of operating system and architecture, or the decoding error.\<close>

definition requiredPlatforms :: "(string \<times> string) list result \<Rightarrow> goerr option" where
  "requiredPlatforms decoded =
     (case decoded of
        Inl err \<Rightarrow> Some (Errorf ''decode manifest inspection: %w'' [] [err])
      | Inr manifests \<Rightarrow>
          (let found = map (\<lambda>(os, arch). os @ ''/'' @ arch) manifests in
           (case filter (\<lambda>platform. platform \<notin> set found) [''linux/amd64'', ''linux/arm64''] of
              [] \<Rightarrow> None
            | platform # _ \<Rightarrow> Some (Errorf ''manifest is missing required platform %s'' [Str platform] []))))"

section \<open>Properties\<close>

lemma requiredPlatforms_accepts_iff [spec_iff]:
  "requiredPlatforms decoded = None \<longleftrightarrow>
     (\<exists>manifests. decoded = Inr manifests \<and>
        {''linux/amd64'', ''linux/arm64''} \<subseteq> (\<lambda>(os, arch). os @ ''/'' @ arch) ` set manifests)"
  unfolding requiredPlatforms_def by (cases decoded) (auto simp: Let_def split: list.splits)

lemma tele_policy_readiness [simp]:
  "tele_readiness (tele_ObservePolicyEvent ev t) = tele_readiness t" "tele_readiness (tele_ObserveError c err t) = tele_readiness t"
  by (simp_all add: tele_defs split: option.splits)

text \<open>The metrics do not change what the store does.\<close>

definition plain_store :: "('w, 'l) startup_env \<Rightarrow> string \<Rightarrow> string \<Rightarrow> 'w ConfigMapStateStore" where
  "plain_store e namespace name = NewConfigMapStateStore (ConfigMaps e namespace) (Codec e) namespace name"

lemma erases_metrics_observer [erases_intros]: "erases (metrics_observer capacity) (ret ())"
  by (simp add: erases_def metrics_observer_def)

interpretation unobserved: erasing_store "state_store e namespace name" "plain_store e namespace name" for e namespace name
  by unfold_locales (simp_all add: observe_def state_store_def plain_store_def SetCapacityObserver_def NewConfigMapStateStore_def
      beside_client_def erases_intros)

lemma run_load_state:
  obtains t' where "run_state (load_state e namespace name t) w = (t', snd (run_state (store_Load (plain_store e namespace name)) w))"
    "tele_readiness t' = (if isl (fst (run_state (store_Load (plain_store e namespace name)) w)) then tele_readiness t
       else SetDependenciesReady True (tele_readiness t))"
proof -
  obtain answer w' where plain: "run_state (store_Load (plain_store e namespace name)) w = (answer, w')" by fastforce
  from unobserved.erases_store_Load[of e namespace name, unfolded erases_def, rule_format, of w "tele_metrics t"]
  obtain m where "run_state (store_Load (state_store e namespace name)) (w, tele_metrics t) = (answer, (w', m))"
    by (auto simp: plain)
  then show thesis using that by (cases answer) (simp_all add: load_state_def plain)
qed

definition pod_namespace :: "('w, 'l) startup_env \<Rightarrow> string" where
  "pod_namespace e = envOrDefault (Getenv e) ''POD_NAMESPACE'' defaultNamespace"

text \<open>The policy object as the start-up reads it, and the load of the state that follows.\<close>

definition read_policy :: "('w, 'l) startup_env \<Rightarrow> 'w \<Rightarrow> ConfigMap result \<times> 'w" where
  "read_policy e w = run_state (cm_Get (ConfigMaps e (pod_namespace e))
     (envOrDefault (Getenv e) ''POLICY_CONFIGMAP'' defaultPolicyConfigMap)) w"

definition stored_policy :: "('w, 'l) startup_env \<Rightarrow> 'w \<Rightarrow> string option" where
  "stored_policy e w =
     (case fst (read_policy e w) of
        Inl _ \<Rightarrow> None | Inr cm \<Rightarrow> map_of (case CM_Data cm of None \<Rightarrow> [] | Some data \<Rightarrow> data) DefaultConfigMapDataKey)"

definition first_load :: "('w, 'l) startup_env \<Rightarrow> 'w \<Rightarrow> Document result \<times> 'w" where
  "first_load e w = run_state (store_Load (plain_store e (pod_namespace e)
     (envOrDefault (Getenv e) ''STATE_CONFIGMAP'' defaultStateConfigMap))) (snd (read_policy e w))"

definition leader_identity :: "('w, 'l) startup_env \<Rightarrow> string result" where
  "leader_identity e = NewLeaderIdentity (Getenv e ''POD_NAME'') (Hostname e) (NewUUID e)"

definition lease_config :: "('w, 'l) startup_env \<Rightarrow> string \<Rightarrow> 'l LeaderElectionConfig result" where
  "lease_config e identity = NewKubernetesElector (Some (NewLock e))
     (envOrDefault (Getenv e) ''LEADER_ELECTION_NAMESPACE'' (pod_namespace e))
     (envOrDefault (Getenv e) ''LEADER_ELECTION_NAME'' defaultLeaseName) identity"

text \<open>The policies that the manager offers after the first reload.\<close>

definition first_policies :: "nat \<Rightarrow> policy_env \<Rightarrow> yaml_env \<Rightarrow> string option \<Rightarrow> PolicySet option" where
  "first_policies depth env yaml payload =
     (case payload of None \<Rightarrow> None | Some p \<Rightarrow> (case policy_Decode depth env yaml p of Some (Inr ps) \<Rightarrow> Some ps | _ \<Rightarrow> None))"

lemma initial_policy_current:
  assumes "initial_policy (Reload depth env yaml) (fst (read_policy e w)) \<lparr>current = None\<rparr> = Some (err, manager)"
  shows "manager = \<lparr>current = first_policies depth env yaml (stored_policy e w)\<rparr>"
  using assms by (auto simp: initial_policy_def first_policies_def stored_policy_def Reload_def split: sum.splits option.splits)

lemma policy_telemetry_readiness:
  "tele_readiness (policy_telemetry err manager) = \<lparr>readiness_policies = Some manager, controllerOn = False, dependencies = False\<rparr>"
  by (simp add: policy_telemetry_def NewTelemetry_def NewReadiness_def Let_def split: option.split)

lemma start_process_ok: "start_process e namespace policyName t = Inr p \<Longrightarrow> proc_telemetry p = t"
  by (auto simp: start_process_def split: sum.splits)

lemma start_process_err:
  "start_process e (pod_namespace e) policyName t = Inl err \<longleftrightarrow>
     leader_identity e = Inl err \<or> (\<exists>identity. leader_identity e = Inr identity \<and> lease_config e identity = Inl err)"
  by (auto simp: start_process_def leader_identity_def lease_config_def split: sum.splits)

lemma run_start_run:
  assumes "InClusterConfig e = None" "NewForConfig e = None" "read_policy e w = (got, w1)"
    "initial_policy (Reload depth env yaml) got \<lparr>current = None\<rparr> = Some (perr, manager)"
  obtains t where "run_state (run_start (Reload depth env yaml) e) w = (Some (start_process e (pod_namespace e)
      (envOrDefault (Getenv e) ''POLICY_CONFIGMAP'' defaultPolicyConfigMap) t), snd (first_load e w))"
    "tele_readiness t = \<lparr>readiness_policies = Some \<lparr>current = first_policies depth env yaml (stored_policy e w)\<rparr>,
      controllerOn = False, dependencies = (\<not> isl (fst (first_load e w)))\<rparr>"
proof -
  let ?state = "envOrDefault (Getenv e) ''STATE_CONFIGMAP'' defaultStateConfigMap"
  have current: "manager = \<lparr>current = first_policies depth env yaml (stored_policy e w)\<rparr>"
    by (rule initial_policy_current) (use assms(3,4) in simp)
  obtain t where t: "run_state (load_state e (pod_namespace e) ?state (policy_telemetry perr manager)) w1 = (t, snd (first_load e w))"
    "tele_readiness t = (if isl (fst (first_load e w)) then tele_readiness (policy_telemetry perr manager)
       else SetDependenciesReady True (tele_readiness (policy_telemetry perr manager)))"
    using run_load_state[of e "pod_namespace e" ?state "policy_telemetry perr manager" w1] by (auto simp: first_load_def assms(3))
  have "run_state (run_start (Reload depth env yaml) e) w = (Some (start_process e (pod_namespace e)
      (envOrDefault (Getenv e) ''POLICY_CONFIGMAP'' defaultPolicyConfigMap) t), snd (first_load e w))"
    using assms t(1) by (simp add: run_start_def read_policy_def Let_def pod_namespace_def[symmetric])
  with that t(2) show thesis by (simp add: current policy_telemetry_readiness SetDependenciesReady_def)
qed

definition cluster_ok :: "('w, 'l) startup_env \<Rightarrow> bool" where
  "cluster_ok e \<longleftrightarrow> InClusterConfig e = None \<and> NewForConfig e = None"

text \<open>The stored payload sends the search for nulls round a cycle of aliases until the stack is exhausted.\<close>

definition policy_crashes :: "nat \<Rightarrow> policy_env \<Rightarrow> yaml_env \<Rightarrow> string option \<Rightarrow> bool" where
  "policy_crashes depth env yaml payload \<longleftrightarrow> (\<exists>p. payload = Some p \<and> policy_Decode depth env yaml p = None)"

text \<open>The errors that the start-up may return.\<close>

definition start_error :: "('w, 'l) startup_env \<Rightarrow> goerr \<Rightarrow> bool" where
  "start_error e err \<longleftrightarrow>
     (\<exists>cause. InClusterConfig e = Some cause \<and> err = Errorf ''load in-cluster Kubernetes configuration: %w'' [] [cause]) \<or>
     (\<exists>cause. InClusterConfig e = None \<and> NewForConfig e = Some cause \<and> err = Errorf ''create Kubernetes client: %w'' [] [cause]) \<or>
     cluster_ok e \<and> (leader_identity e = Inl err \<or>
       (\<exists>identity. leader_identity e = Inr identity \<and> lease_config e identity = Inl err))"

lemma start_process_starts:
  "(\<exists>p. start_process e (pod_namespace e) policyName t = Inr p) \<longleftrightarrow>
     (\<exists>identity lease. leader_identity e = Inr identity \<and> lease_config e identity = Inr lease)"
  by (auto simp: start_process_def leader_identity_def lease_config_def split: sum.splits)

lemma initial_policy_crashes:
  "initial_policy (Reload depth env yaml) (fst (read_policy e w)) m = None \<longleftrightarrow> policy_crashes depth env yaml (stored_policy e w)"
  by (auto simp: initial_policy_def policy_crashes_def stored_policy_def Reload_def split: sum.splits option.splits)

lemma run_start_crashes:
  assumes "cluster_ok e" "policy_crashes depth env yaml (stored_policy e w)"
  shows "fst (run_state (run_start (Reload depth env yaml) e) w) = None"
proof -
  obtain got w1 where got: "read_policy e w = (got, w1)" by fastforce
  have "initial_policy (Reload depth env yaml) got \<lparr>current = None\<rparr> = None"
    using initial_policy_crashes[of depth env yaml e w] assms(2) got by simp
  with got assms(1) show ?thesis
    by (simp add: cluster_ok_def run_start_def read_policy_def Let_def pod_namespace_def[symmetric])
qed

lemma run_start_runs:
  assumes "cluster_ok e" "\<not> policy_crashes depth env yaml (stored_policy e w)"
  obtains t where "run_state (run_start (Reload depth env yaml) e) w = (Some (start_process e (pod_namespace e)
      (envOrDefault (Getenv e) ''POLICY_CONFIGMAP'' defaultPolicyConfigMap) t), snd (first_load e w))"
    "tele_readiness t = \<lparr>readiness_policies = Some \<lparr>current = first_policies depth env yaml (stored_policy e w)\<rparr>,
      controllerOn = False, dependencies = (\<not> isl (fst (first_load e w)))\<rparr>"
proof -
  obtain got w1 where got: "read_policy e w = (got, w1)" by fastforce
  obtain perr manager where "initial_policy (Reload depth env yaml) got \<lparr>current = None\<rparr> = Some (perr, manager)"
    using initial_policy_crashes[of depth env yaml e w "\<lparr>current = None\<rparr>"] assms(2) got by auto
  with assms(1) got show thesis
    using run_start_run[of e w got w1 depth env yaml perr manager] that unfolding cluster_ok_def by metis
qed

lemma run_start_fails: "\<not> cluster_ok e \<Longrightarrow> \<exists>err. run_state (run_start reload e) w = (Some (Inl err), w) \<and> start_error e err"
  by (auto simp: cluster_ok_def start_error_def run_start_def split: option.splits)

lemma run_start_outcome:
  assumes "run_state (run_start (Reload depth env yaml) e) w = (Some (Inr p), w')"
  shows "tele_readiness (proc_telemetry p) = \<lparr>readiness_policies = Some \<lparr>current = first_policies depth env yaml (stored_policy e w)\<rparr>,
      controllerOn = False, dependencies = (\<not> isl (fst (first_load e w)))\<rparr>"
proof -
  have "cluster_ok e" using run_start_fails[of e "Reload depth env yaml" w] assms by auto
  moreover from this have "\<not> policy_crashes depth env yaml (stored_policy e w)" using run_start_crashes[of e depth env yaml w] assms by auto
  ultimately show ?thesis by (rule run_start_runs) (use assms in \<open>auto dest: start_process_ok[OF sym]\<close>)
qed

text \<open>
  C33: start-up degrades instead of failing, with one exception. If the cluster configuration and the
  client are there and decoding the stored policy exhausts the call stack (a payload with a cyclic
  alias), the process crashes; that is the only crash, and policy and state have no other way to stop the
  start-up: it succeeds exactly when configuration, client, identity and lease are there and decoding
  does not crash, and the error it returns otherwise is one of these four. When it succeeds, the policies
  on offer are exactly those of the stored payload if it decodes to a valid set and none otherwise (no
  object, no payload, an invalid one), dependencies count as ready exactly when the state document was
  loaded, and the replica is not ready, since it does not lead yet; and all it did to the cluster is to
  read the policy and to load the state, whatever the metrics observe.
\<close>

theorem run_start_degrades:
  "case run_state (run_start (Reload depth env yaml) e) w of (outcome, w') \<Rightarrow>
     (outcome = None \<longleftrightarrow> cluster_ok e \<and> policy_crashes depth env yaml (stored_policy e w)) \<and>
     ((\<exists>p. outcome = Some (Inr p)) \<longleftrightarrow> cluster_ok e \<and> \<not> policy_crashes depth env yaml (stored_policy e w) \<and>
        (\<exists>identity lease. leader_identity e = Inr identity \<and> lease_config e identity = Inr lease)) \<and>
     (case outcome of
        None \<Rightarrow> True
      | Some (Inl err) \<Rightarrow> start_error e err
      | Some (Inr p) \<Rightarrow>
          readiness_policies (tele_readiness (proc_telemetry p)) =
            Some \<lparr>current = first_policies depth env yaml (stored_policy e w)\<rparr> \<and>
          dependencies (tele_readiness (proc_telemetry p)) = (\<not> isl (fst (first_load e w))) \<and>
          \<not> Ready (tele_readiness (proc_telemetry p)) \<and> w' = snd (first_load e w))"
proof (cases "cluster_ok e \<and> \<not> policy_crashes depth env yaml (stored_policy e w)")
  case True
  then obtain t where run: "run_state (run_start (Reload depth env yaml) e) w = (Some (start_process e (pod_namespace e)
      (envOrDefault (Getenv e) ''POLICY_CONFIGMAP'' defaultPolicyConfigMap) t), snd (first_load e w))"
    "tele_readiness t = \<lparr>readiness_policies = Some \<lparr>current = first_policies depth env yaml (stored_policy e w)\<rparr>,
      controllerOn = False, dependencies = (\<not> isl (fst (first_load e w)))\<rparr>"
    using run_start_runs by metis
  let ?p = "start_process e (pod_namespace e) (envOrDefault (Getenv e) ''POLICY_CONFIGMAP'' defaultPolicyConfigMap) t"
  have err: "start_error e err" if "?p = Inl err" for err
    using that True by (simp add: start_process_err start_error_def)
  have ok: "tele_readiness (proc_telemetry p) = tele_readiness t" if "?p = Inr p" for p
    using start_process_ok[OF that] by simp
  have "(\<exists>p. ?p = Inr p) \<longleftrightarrow> (\<exists>identity lease. leader_identity e = Inr identity \<and> lease_config e identity = Inr lease)"
    by (rule start_process_starts)
  with True err ok show ?thesis by (cases ?p) (auto simp: run Ready_def)
next
  case False
  show ?thesis
  proof (cases "cluster_ok e")
    case True
    with False run_start_crashes[of e depth env yaml w] show ?thesis by (auto split: prod.split)
  next
    case no_cluster: False
    then show ?thesis using run_start_fails[of e "Reload depth env yaml" w] by auto
  qed
qed

definition forbidden :: goerr where "forbidden = errors_New ''forbidden''"

definition broken_start :: "(unit, unit) startup_env" where
  "broken_start = \<lparr>InClusterConfig = None, NewForConfig = None, Getenv = \<lambda>_. [],
     ConfigMaps = \<lambda>_. \<lparr>cm_Get = \<lambda>_. ret (Inl forbidden), cm_Create = \<lambda>_. ret (Inl forbidden), cm_Update = \<lambda>_. ret (Inl forbidden),
       cm_ctx_Err = ret None, cm_timer = \<lambda>_. ret None, IsNotFound = \<lambda>_. False, IsConflict = \<lambda>_. False, IsAlreadyExists = \<lambda>_. False\<rparr>,
     Codec = two_documents, Hostname = Inr ''pod-0'', NewUUID = Inr ''6ba7b810'', NewLock = \<lambda>_ _ _. Inr ()\<rparr>"

lemma broken_start_facts:
  "InClusterConfig broken_start = None" "NewForConfig broken_start = None" "read_policy broken_start w = (Inl forbidden, w)"
  "isl (fst (first_load broken_start w))" "stored_policy broken_start w = None"
proof -
  show read: "read_policy broken_start w = (Inl forbidden, w)" by (simp add: read_policy_def broken_start_def)
  show "InClusterConfig broken_start = None" "NewForConfig broken_start = None" by (simp_all add: broken_start_def)
  show "stored_policy broken_start w = None" by (simp only: stored_policy_def read fst_conv sum.case)
  show "isl (fst (first_load broken_start w))"
    unfolding first_load_def read
    by (simp add: store_Load_def store_retry_def plain_store_def NewConfigMapStateStore_def load_operation_def broken_start_def
        DefaultConflictBackoff_def eval_nat_numeral)
qed

lemma broken_starts: "\<exists>p w'. run_state (run_start (Reload 9 sample_env sample_yaml) broken_start) () = (Some (Inr p), w')"
proof -
  have "leader_identity broken_start = Inr ''pod-0_6ba7b810''" by code_simp
  moreover have "lease_config broken_start ''pod-0_6ba7b810'' = Inr \<lparr>Lock = (), LeaseDuration = DefaultLeaseDuration,
      RenewDeadline = DefaultRenewDeadline, RetryPeriod = DefaultRetryPeriod, ReleaseOnCancel = True, LeaseName = defaultLeaseName\<rparr>"
    by code_simp
  ultimately have "\<exists>p. start_process broken_start (pod_namespace broken_start) name t = Inr p" for name t
    using start_process_err[of broken_start name t] by (cases "start_process broken_start (pod_namespace broken_start) name t") auto
  moreover have "initial_policy (Reload 9 sample_env sample_yaml) (Inl forbidden) \<lparr>current = None\<rparr> = Some (Some forbidden, \<lparr>current = None\<rparr>)"
    by (simp add: initial_policy_def)
  ultimately show ?thesis using run_start_run[OF broken_start_facts(1-3)] by metis
qed

theorem run_start_degrades_witness:
  "\<exists>p w'. run_state (run_start (Reload 9 sample_env sample_yaml) broken_start) () = (Some (Inr p), w') \<and>
     readiness_policies (tele_readiness (proc_telemetry p)) = Some \<lparr>current = None\<rparr> \<and>
     \<not> dependencies (tele_readiness (proc_telemetry p))"
proof -
  obtain p w' where p: "run_state (run_start (Reload 9 sample_env sample_yaml) broken_start) () = (Some (Inr p), w')"
    using broken_starts by blast
  from run_start_degrades[where depth = 9 and env = sample_env and yaml = sample_yaml and e = broken_start and w = "()"] broken_start_facts(4)[of "()"] broken_start_facts(5)[of "()"]
  show ?thesis by (auto simp: p first_policies_def)
qed

text \<open>
  C20: the process reports success only for an orderly stop. If it exits with status 0, its start-up had
  succeeded, its context had been cancelled, which is what the termination signals do, and the leader
  election, the HTTP server and every controller that began under a live context had reported back. Every
  other end, lost leadership, a failed server, a shutdown that timed out, shows in the exit status.
\<close>

theorem exit_zero_is_orderly:
  assumes "process_exits reload e w 0"
  shows "\<exists>p w' s. run_state (run_start reload e) w = (Some (Inr p), w') \<and> coord_step\<^sup>*\<^sup>* start_coord s \<and>
    Runtime.main s = Returned None \<and> ctx_done s \<and> all_in s"
  using assms
proof (cases rule: process_exits.cases)
  case (coordinator_returns p w' s r)
  then have "Runtime.main s = Returned None" by (cases r) (simp_all add: exit_status_def)
  moreover from this have "ctx_done s \<and> all_in s"
    using coord_inv_reachable[OF coordinator_returns(3)] unfolding coord_inv_def clean_def by auto
  ultimately show ?thesis using coordinator_returns by blast
qed (simp_all add: exit_status_def)

theorem exit_zero_is_orderly_witness:
  "\<exists>p w' s. run_state (run_start (Reload 9 sample_env sample_yaml) broken_start) () = (Some (Inr p), w') \<and>
     coord_step\<^sup>*\<^sup>* start_coord s \<and> Runtime.main s = Returned None \<and> ctx_done s \<and> all_in s"
proof -
  obtain p w' where "run_state (run_start (Reload 9 sample_env sample_yaml) broken_start) () = (Some (Inr p), w')"
    using broken_starts by blast
  moreover obtain s where "coord_step\<^sup>*\<^sup>* start_coord s" "Runtime.main s = Returned None" by (rule quiet_shutdown)
  ultimately have "process_exits (Reload 9 sample_env sample_yaml) broken_start () (exit_status None)"
    by (rule process_exits.coordinator_returns)
  then show ?thesis by (intro exit_zero_is_orderly) (simp add: exit_status_def)
qed

end
