(* ===== verification/Composition.thy ===== *)
theory Composition
  imports Orchestrator
begin

text \<open>
  The parts put together: the controller over the reconciler of the running program. A full pass is run
  with every action of every reconciliation recorded in one trace, and the trace is taken apart into the
  runs of single workloads, each governed by a policy.
\<close>

section \<open>Programs that only append to the trace\<close>

text \<open>Whatever stands in the trace already neither changes what the program does nor is changed by it.\<close>

definition appends :: "('w \<times> 'ev list, 'a) io \<Rightarrow> bool" where
  "appends m \<longleftrightarrow> (\<forall>w tr. run_state m (w, tr) =
     (fst (run_state m (w, [])), fst (snd (run_state m (w, []))), tr @ snd (snd (run_state m (w, [])))))"

named_theorems appends_intros \<open>programs that only append to the trace\<close>

lemma appends_run: "appends m \<Longrightarrow> run_state m (w, []) = (a, w', new) \<Longrightarrow> run_state m (w, tr) = (a, w', tr @ new)"
  unfolding appends_def by (metis fst_conv snd_conv)

lemma appends_return [appends_intros]: "appends (ret a)"
  by (simp add: appends_def)

lemma appends_logged [appends_intros]: "appends (logged ev m)"
  by (simp add: appends_def run_logged split: prod.splits)

lemma appends_bind [appends_intros]:
  assumes "appends m" "\<And>a. appends (f a)"
  shows "appends (State_Monad.bind m f)"
  unfolding appends_def
proof (intro allI)
  fix w tr
  obtain a w1 new where m: "run_state m (w, []) = (a, w1, new)" by (metis prod_cases3)
  obtain b w2 new' where f: "run_state (f a) (w1, []) = (b, w2, new')" by (metis prod_cases3)
  note appends_run[OF assms(1) m] appends_run[OF assms(2) f]
  then show "run_state (State_Monad.bind m f) (w, tr) =
      (fst (run_state (State_Monad.bind m f) (w, [])), fst (snd (run_state (State_Monad.bind m f) (w, []))),
       tr @ snd (snd (run_state (State_Monad.bind m f) (w, []))))"
    using m by simp
qed

lemma appends_if [appends_intros]: "appends m \<Longrightarrow> appends n \<Longrightarrow> appends (if b then m else n)"
  by simp

lemma appends_cases [appends_intros]:
  "appends m \<Longrightarrow> (\<And>a. appends (f a)) \<Longrightarrow> appends (case x of None \<Rightarrow> m | Some a \<Rightarrow> f a)"
  "(\<And>e. appends (g e)) \<Longrightarrow> (\<And>a. appends (h a)) \<Longrightarrow> appends (case y of Inl e \<Rightarrow> g e | Inr a \<Rightarrow> h a)"
  "(\<And>a b. appends (k a b)) \<Longrightarrow> appends (case z of (a, b) \<Rightarrow> k a b)"
  by (simp_all split: option.split sum.split prod.split)

lemma appends_traced [appends_intros]:
  "appends (r_Evaluate (traced r) v)" "appends (r_Now (traced r))" "appends (r_Load (traced r))" "appends (r_Save (traced r) d)"
  "appends (r_Read (traced r) v)" "appends (r_Update (traced r) v n)" "appends (r_Delete (traced r) v)"
  by (simp_all add: traced_def appends_intros)

lemma appends_parts [appends_intros]:
  "appends (handleRedeployDuringWindow (traced r) document cur live key)"
  "appends (reconcile_override (traced r) v selected live b document cur)"
  "appends (applyDecision (traced r) live dec document cur b now)"
  by (auto simp: handleRedeployDuringWindow_def reconcile_override_def applyDecision_def r_save_def r_updateScale_def Let_def
      intro!: appends_intros)

lemma appends_Reconcile: "appends (Reconcile (traced r) v selected)"
  by (auto simp: Reconcile_def reconcile_loaded_def reconcile_live_def reconcile_window_def reconcile_decide_def
      r_save_def r_updateScale_def Let_def intro!: appends_intros)

section \<open>The running controller\<close>

text \<open>
  The controller of the program: it lists through the Kubernetes gateway and reconciles with the
  Kubernetes reconciler, whose actions are recorded. The policy manager, the context, the watches and the
  observer are those of a given controller; they record nothing.
\<close>

definition kube_controller :: "'w apps_client \<Rightarrow> 'w Reconciler \<Rightarrow> 'w Controller \<Rightarrow> ('w \<times> action list) Controller" where
  "kube_controller apps r c =
     \<lparr>c_List = \<lambda>kind. unlogged (gateway_List apps kind), c_WatchWorkloads = unlogged (c_WatchWorkloads c),
      c_WatchHPAs = unlogged (c_WatchHPAs c), c_Current = unlogged (c_Current c),
      c_WatchPolicies = unlogged (c_WatchPolicies c), c_Reconcile = Reconcile (traced r),
      c_ctx_Err = unlogged (c_ctx_Err c), c_interval = c_interval c, c_retryDelay = c_retryDelay c,
      c_handleError = \<lambda>e. unlogged (c_handleError c e),
      c_observer = \<lparr>ControllerStarted = unlogged (ControllerStarted (c_observer c)),
        ControllerStopped = unlogged (ControllerStopped (c_observer c)),
        ObserveReconcile = \<lambda>e. unlogged (ObserveReconcile (c_observer c) e),
        ObservePolicyEvent = \<lambda>e. unlogged (ObservePolicyEvent (c_observer c) e),
        ObserveError = \<lambda>s e. unlogged (ObserveError (c_observer c) s e)\<rparr>\<rparr>"

text \<open>
  A workload is the image of an object the API server lists, and a policy is the unique matching one of
  highest priority of a policy set the manager offers.
\<close>

definition api_listed :: "'w apps_client \<Rightarrow> Workload \<Rightarrow> bool" where
  "api_listed apps v \<longleftrightarrow>
     (\<exists>w ds d. fst (run_state (ListDeployments apps) w) = Inr ds \<and> d \<in> set ds \<and> v = WorkloadFromDeployment d) \<or>
     (\<exists>w ss s. fst (run_state (ListStatefulSets apps) w) = Inr ss \<and> s \<in> set ss \<and> v = WorkloadFromStatefulSet s)"

definition governs :: "'w Controller \<Rightarrow> Policy \<Rightarrow> Workload \<Rightarrow> bool" where
  "governs c p v \<longleftrightarrow> (\<exists>policies w. fst (run_state (c_Current c) w) = Some policies \<and> top_of policies v = {p})"

lemma emits_unlogged: "emits (unlogged m) (\<lambda>a new. new = [] \<and> (\<exists>w. fst (run_state m w) = a))"
  by (auto simp: emits_def wp_def run_unlogged split: prod.splits) (metis fst_conv)

lemma emits_Reconcile:
  "emits (Reconcile (traced (kube_reconciler apps store clock Sum256 LoadLocation)) v p)
     (\<lambda>_ new. \<exists>w. new = reconcile_trace apps store clock Sum256 LoadLocation v p w)"
  unfolding emits_def wp_fst_snd reconcile_trace_def
  by (intro allI) (subst appends_Reconcile[unfolded appends_def, rule_format], auto)

lemma kube_calls:
  "emits (c_List (kube_controller apps r c) kind) (\<lambda>a new. new = [] \<and> (\<exists>w. fst (run_state (gateway_List apps kind) w) = a))"
  "emits (c_Current (kube_controller apps r c)) (\<lambda>a new. new = [] \<and> (\<exists>w. fst (run_state (c_Current c) w) = a))"
  "emits (c_ctx_Err (kube_controller apps r c)) (\<lambda>a new. new = [])"
  "emits (c_handleError (kube_controller apps r c) e) (\<lambda>a new. new = [])"
  "emits (ObserveReconcile (c_observer (kube_controller apps r c)) obs) (\<lambda>a new. new = [])"
  by (simp_all add: kube_controller_def emits_unlogged emits_unlogged[THEN emits_mono])

lemmas kube_binds = kube_calls[THEN emits_bind] and kube_ends = kube_calls[THEN emits_mono]

lemma gateway_lists: "fst (run_state (gateway_List apps kind) w) = Inr items \<Longrightarrow> v \<in> set items \<Longrightarrow> api_listed apps v"
  by (auto simp: gateway_List_def api_listed_def split: if_splits prod.splits sum.splits) (metis fst_conv)+

text \<open>The runs of a pass: a workload, the policy that governs it, and the actions of its reconciliation.\<close>

definition governed_run ::
  "'w apps_client \<Rightarrow> 'w Controller \<Rightarrow> (string \<Rightarrow> string) \<Rightarrow> Workload \<times> Policy \<times> action list \<Rightarrow> bool" where
  "governed_run apps c Sum256 = (\<lambda>(v, p, tr). api_listed apps v \<and> governs c p v \<and> ok_trace (justified Sum256 v p) tr)"

abbreviation run_actions :: "(Workload \<times> Policy \<times> action list) list \<Rightarrow> action list" where
  "run_actions runs \<equiv> concat (map (\<lambda>(v, p, tr). tr) runs)"

definition governed :: "'w apps_client \<Rightarrow> 'w Controller \<Rightarrow> (string \<Rightarrow> string) \<Rightarrow> action list \<Rightarrow> bool" where
  "governed apps c Sum256 acts \<longleftrightarrow> (\<exists>runs. acts = run_actions runs \<and> list_all (governed_run apps c Sum256) runs)"

lemma governed_Nil [simp]: "governed apps c Sum256 []"
  by (auto simp: governed_def intro!: exI[of _ "[]"])

lemma governed_append:
  "governed apps c Sum256 xs \<Longrightarrow> governed apps c Sum256 ys \<Longrightarrow> governed apps c Sum256 (xs @ ys)"
  unfolding governed_def by (metis concat_append list_all_append map_append)

lemma governed_reconcile:
  "api_listed apps v \<Longrightarrow> governs c p v \<Longrightarrow> governed apps c Sum256 (reconcile_trace apps store clock Sum256 LoadLocation v p w)"
  unfolding governed_def
  by (rule exI[of _ "[(v, p, reconcile_trace apps store clock Sum256 LoadLocation v p w)]"])
    (simp add: governed_run_def reconcile_trace_justified)

lemma one_governed:
  assumes "api_listed apps v"
  shows "emits (reconcileOne (kube_controller apps (kube_reconciler apps store clock Sum256 LoadLocation) c) v)
    (\<lambda>_. governed apps c Sum256)"
  unfolding reconcileOne_def
proof (rule kube_binds, goal_cases)
  case (1 policies new)
  let ?r = "kube_reconciler apps store clock Sum256 LoadLocation"
  have Rec: "c_Reconcile (kube_controller apps ?r c) = Reconcile (traced ?r)" by (simp add: kube_controller_def)
  show ?case
  proof (cases policies)
    case None
    show ?thesis using 1 unfolding None option.case Let_def
      by (auto intro!: kube_binds kube_ends)
  next
    case (Some ps)
    show ?thesis
    proof (cases rule: policy_Match_cases[of ps "Workload_Kind v" "Workload_Name v" "Workload_Labels v"])
      case none
      then show ?thesis using 1 unfolding Some by (auto simp: Let_def Conflict_def intro!: kube_ends)
    next
      case (unique p)
      then have "governs c p v" using 1 Some by (auto simp: governs_def top_of_def)
      note run = governed_reconcile[OF assms this]
      show ?thesis using 1 unique unfolding Some
        by (auto simp: Let_def Conflict_def Rec split: option.splits
            intro!: emits_bind[OF emits_Reconcile] kube_binds kube_ends run)
    next
      case several
      then show ?thesis using 1 unfolding Some by (auto simp: Let_def intro!: kube_binds kube_ends)
    qed
  qed
qed

lemma items_governed:
  "list_all (api_listed apps) items \<Longrightarrow>
   emits (reconcile_items (kube_controller apps (kube_reconciler apps store clock Sum256 LoadLocation) c) items)
     (\<lambda>_. governed apps c Sum256)"
proof (induction items)
  case Nil
  then show ?case by (simp add: emits_return)
next
  case (Cons v items)
  then show ?case
    by (auto split: option.splits intro!: kube_binds emits_return emits_bind[OF one_governed] emits_mono[OF Cons.IH] governed_append)
qed

lemma kinds_governed:
  "emits (reconcile_kinds (kube_controller apps (kube_reconciler apps store clock Sum256 LoadLocation) c) kinds)
     (\<lambda>_. governed apps c Sum256)"
proof (induction kinds)
  case Nil
  then show ?case by (simp add: emits_return)
next
  case (Cons kind kinds)
  show ?case unfolding reconcile_kinds.simps
  proof (rule kube_binds, goal_cases)
    case (1 answer new)
    then show ?case
    proof (cases answer)
      case (Inl err)
      show ?thesis using 1 Cons.IH by (auto simp: Inl intro!: kube_binds)
    next
      case (Inr items)
      then have "list_all (api_listed apps) items" using 1 by (auto simp: list_all_iff gateway_lists)
      note run = emits_bind[OF items_governed[OF this]]
      show ?thesis using 1
        by (auto simp: Inr intro!: run emits_return emits_mono[OF Cons.IH] governed_append)
    qed
  qed
qed

text \<open>
  C2: end to end, a pass of the controller touches the cluster only on behalf of a policy. Everything a
  full pass does (clock, state and scale reads, state writes, scale writes and deletions) falls apart
  into runs of single workloads that the API server listed, each run under the unique matching policy of
  highest priority of the policies on offer, and inside a run every action is justified by the run itself:
  saves change only that workload's state and drop a snapshot only with a reason, scale writes are backed
  by the stored snapshot, deletions are of workloads whose stored age has passed the policy's limit. A
  workload without a policy, or with conflicting ones, is not touched.
\<close>

theorem pass_is_governed:
  "\<exists>w' acts. run_state (reconcileAll (kube_controller apps (kube_reconciler apps store clock Sum256 LoadLocation) c)) (w, []) =
     ((), (w', acts)) \<and> governed apps c Sum256 acts"
  using emits_run[OF kinds_governed[of apps store clock Sum256 LoadLocation c "[KindDeployment, KindStatefulSet]"], of w]
  by (auto simp: reconcileAll_def)

end
