(* ===== verification/Controller_Run.thy ===== *)
theory Controller_Run
  imports Orchestrator Systems
begin

text \<open>
  \<^verbatim>\<open>Controller.Run\<close> of \<^verbatim>\<open>internal/controller/orchestrator.go\<close> as a transition system: the loop that
  serialises reconciliations, the three watch supervisors, the unbuffered request channel between them,
  the ticker and the cancellation of the context. Every interleaving of these goroutines is a run.
\<close>

section \<open>Requests and reactions to events\<close>

record reconcileRequest =
  Req_workload :: "Workload option"
  Req_full :: bool

abbreviation full_request :: reconcileRequest where
  "full_request \<equiv> \<lparr>Req_workload = None, Req_full = True\<rparr>"

text \<open>What the loop does with a request.\<close>

definition serve :: "'w Controller \<Rightarrow> reconcileRequest \<Rightarrow> ('w, unit) io" where
  "serve c request =
     (if Req_full request then reconcileAll c
      else (case Req_workload request of Some v \<Rightarrow> reconcileOne c v | None \<Rightarrow> ret ()))"

text \<open>
  What a supervisor does with the answer of its stream, \<open>None\<close> when the channel is closed: it goes on, it
  sends a request, or it restarts the watch.
\<close>

datatype reaction = Continue | Send reconcileRequest | Restart

definition superviseWorkloads_event :: "'w Controller \<Rightarrow> Event option \<Rightarrow> ('w, reaction) io" where
  "superviseWorkloads_event c answer =
     (case answer of
        None \<Rightarrow> do { c_handleError c (Some ErrWatchDisconnected); ret Restart }
      | Some event \<Rightarrow>
          (case Event_Type event of
             EventDeleted \<Rightarrow> ret (Send full_request)
           | EventError \<Rightarrow> do { c_handleError c (Event_Err event); ret Restart }
           | EventDisconnected \<Rightarrow> do { c_handleError c (Event_Err event); ret Restart }
           | _ \<Rightarrow> ret (case Event_Workload event of
                         Some v \<Rightarrow> Send \<lparr>Req_workload = Some v, Req_full = False\<rparr>
                       | None \<Rightarrow> Continue)))"

definition superviseHPA_event :: "'w Controller \<Rightarrow> HPAEvent option \<Rightarrow> ('w, reaction) io" where
  "superviseHPA_event c answer =
     (case answer of
        None \<Rightarrow> do { c_handleError c (Some ErrHPAWatchDisconnected); ret Restart }
      | Some event \<Rightarrow>
          if HPAEvent_Type event = EventError \<or> HPAEvent_Type event = EventDisconnected
          then do { c_handleError c (HPAEvent_Err event); ret Restart }
          else ret (Send full_request))"

definition supervisePolicies_event :: "'w Controller \<Rightarrow> PolicyEvent option \<Rightarrow> ('w, reaction) io" where
  "supervisePolicies_event c answer =
     (case answer of
        None \<Rightarrow> do {
          ObservePolicyEvent (c_observer c) (mkPolicyEvent PolicyDisconnected (Some ErrPolicyWatchDisconnected));
          c_handleError c (Some ErrPolicyWatchDisconnected);
          ret Restart
        }
      | Some event \<Rightarrow> do {
          ObservePolicyEvent (c_observer c) event;
          (case PolicyEvent_Type event of
             EventReloaded \<Rightarrow> ret (Send full_request)
           | PolicyDeleted \<Rightarrow> ret (Send full_request)
           | EventReloadRejected \<Rightarrow> do { c_handleError c (PolicyEvent_Err event); ret Continue }
           | _ \<Rightarrow> do { c_handleError c (PolicyEvent_Err event); ret Restart })
        })"

section \<open>Blocking calls\<close>

text \<open>
  A blocking call that also watches the context has several possible answers. \<^verbatim>\<open>sendRequest\<close> answers true
  when the loop receives, and may answer false once the context is done; \<^verbatim>\<open>sleepWithContext\<close> ends with
  the timer, or with the error of the context once that is done.
\<close>

definition sendRequest :: "bool \<Rightarrow> bool \<Rightarrow> bool set" where
  "sendRequest receiving cancelled = (if receiving then {True} else {}) \<union> (if cancelled then {False} else {})"

definition sleepWithContext :: "bool \<Rightarrow> goerr option set" where
  "sleepWithContext cancelled = {None} \<union> (if cancelled then {Some context_Canceled} else {})"

definition retry :: "bool \<Rightarrow> bool set" where
  "retry cancelled = (\<lambda>err. err = None) ` sleepWithContext cancelled"

lemma sendRequest_iff [simp]: "True \<in> sendRequest receiving cancelled \<longleftrightarrow> receiving" "False \<in> sendRequest receiving cancelled \<longleftrightarrow> cancelled"
  by (simp_all add: sendRequest_def)

lemma retry_iff [simp]: "True \<in> retry cancelled" "False \<in> retry cancelled \<longleftrightarrow> cancelled"
  by (simp_all add: retry_def sleepWithContext_def)

section \<open>The supervisors and the loop\<close>

datatype supervisor = Workloads | HPAs | PolicyMap

text \<open>An answer of a supervisor's stream, of the type its stream has.\<close>

datatype stream_answer = WorkloadAnswer "Event option" | HPAAnswer "HPAEvent option" | PolicyAnswer "PolicyEvent option"

fun supervise_event :: "'w Controller \<Rightarrow> stream_answer \<Rightarrow> ('w, reaction) io" where
  "supervise_event c (WorkloadAnswer a) = superviseWorkloads_event c a"
| "supervise_event c (HPAAnswer a) = superviseHPA_event c a"
| "supervise_event c (PolicyAnswer a) = supervisePolicies_event c a"

fun answer_of :: "stream_answer \<Rightarrow> supervisor" where
  "answer_of (WorkloadAnswer _) = Workloads"
| "answer_of (HPAAnswer _) = HPAs"
| "answer_of (PolicyAnswer _) = PolicyMap"

fun start_watch :: "'w Controller \<Rightarrow> supervisor \<Rightarrow> ('w, goerr option) io" where
  "start_watch c Workloads = c_WatchWorkloads c"
| "start_watch c HPAs = c_WatchHPAs c"
| "start_watch c PolicyMap = c_WatchPolicies c"

fun start_failure :: "supervisor \<Rightarrow> goerr \<Rightarrow> goerr" where
  "start_failure Workloads err = Errorf ''start workload watch: %w'' [] [err]"
| "start_failure HPAs err = Errorf ''start HPA watch: %w'' [] [err]"
| "start_failure PolicyMap err = Errorf ''start policy watch: %w'' [] [err]"

text \<open>
  Where a supervisor stands: at the head of its loop, receiving from an open stream, sending a request
  from an open stream, in the retry pause, or returned. Where the loop stands: serving a request, in its
  \<^verbatim>\<open>select\<close>, waiting for the supervisors after the cancellation, or returned.
\<close>

datatype sup_pc = AtHead | Receiving | Sending reconcileRequest | Retrying | Finished

datatype main_pc = Serving reconcileRequest | Selecting | Waiting | Returned

record 'w running =
  world :: 'w
  main :: main_pc
  sup :: "supervisor \<Rightarrow> sup_pc"
  ctx_done :: bool
  cancel_called :: bool
  demanded :: "supervisor \<Rightarrow> reconcileRequest list"
  accepted :: "supervisor \<Rightarrow> reconcileRequest list"
  opened :: "supervisor \<Rightarrow> nat"
  stopped :: "supervisor \<Rightarrow> nat"

text \<open>The supervisors' context \<^verbatim>\<open>runCtx\<close> is done when its parent is, or once \<^verbatim>\<open>cancel\<close> was called.\<close>

definition run_done :: "'w running \<Rightarrow> bool" where
  "run_done s \<longleftrightarrow> ctx_done s \<or> cancel_called s"

definition goto :: "supervisor \<Rightarrow> sup_pc \<Rightarrow> 'w running \<Rightarrow> 'w running" where
  "goto i pc s = s\<lparr>sup := (sup s)(i := pc)\<rparr>"

definition stop_stream :: "supervisor \<Rightarrow> 'w running \<Rightarrow> 'w running" where
  "stop_stream i s = s\<lparr>stopped := (stopped s)(i := stopped s i + 1)\<rparr>"

inductive sup_step :: "'w Controller \<Rightarrow> supervisor \<Rightarrow> 'w running \<Rightarrow> 'w running \<Rightarrow> bool" for c i where
  loop_ends: "sup s i = AtHead \<Longrightarrow> run_done s \<Longrightarrow> sup_step c i s (goto i Finished s)"
| opens: "sup s i = AtHead \<Longrightarrow> \<not> run_done s \<Longrightarrow> run_state (start_watch c i) (world s) = (None, w') \<Longrightarrow>
    sup_step c i s (goto i Receiving (s\<lparr>world := w', opened := (opened s)(i := opened s i + 1)\<rparr>))"
| open_fails: "sup s i = AtHead \<Longrightarrow> \<not> run_done s \<Longrightarrow> run_state (start_watch c i) (world s) = (Some err, w') \<Longrightarrow>
    run_state (c_handleError c (Some (start_failure i err))) w' = (u, w'') \<Longrightarrow>
    sup_step c i s (goto i Retrying (s\<lparr>world := w''\<rparr>))"
| receive_continue: "sup s i = Receiving \<Longrightarrow> answer_of a = i \<Longrightarrow> run_state (supervise_event c a) (world s) = (Continue, w') \<Longrightarrow>
    sup_step c i s (s\<lparr>world := w'\<rparr>)"
| receive_send: "sup s i = Receiving \<Longrightarrow> answer_of a = i \<Longrightarrow> run_state (supervise_event c a) (world s) = (Send r, w') \<Longrightarrow>
    sup_step c i s (goto i (Sending r) (s\<lparr>world := w', demanded := (demanded s)(i := demanded s i @ [r])\<rparr>))"
| receive_restart: "sup s i = Receiving \<Longrightarrow> answer_of a = i \<Longrightarrow> run_state (supervise_event c a) (world s) = (Restart, w') \<Longrightarrow>
    sup_step c i s (goto i Retrying (stop_stream i (s\<lparr>world := w'\<rparr>)))"
| receive_done: "sup s i = Receiving \<Longrightarrow> run_done s \<Longrightarrow> sup_step c i s (goto i Finished (stop_stream i s))"
| send_done: "sup s i = Sending r \<Longrightarrow> False \<in> sendRequest False (run_done s) \<Longrightarrow> sup_step c i s (goto i Finished (stop_stream i s))"
| retries: "sup s i = Retrying \<Longrightarrow> again \<in> retry (run_done s) \<Longrightarrow>
    sup_step c i s (goto i (if again then AtHead else Finished) s)"

inductive run_step :: "'w Controller \<Rightarrow> 'w running \<Rightarrow> 'w running \<Rightarrow> bool" for c where
  supervisor: "sup_step c i s t \<Longrightarrow> run_step c s t"
| served: "main s = Serving r \<Longrightarrow> run_state (serve c r) (world s) = (u, w') \<Longrightarrow>
    run_step c s (s\<lparr>world := w', main := Selecting\<rparr>)"
| ticker: "main s = Selecting \<Longrightarrow> run_step c s (s\<lparr>main := Serving full_request\<rparr>)"
| request: "main s = Selecting \<Longrightarrow> sup s i = Sending r \<Longrightarrow> True \<in> sendRequest (main s = Selecting) (run_done s) \<Longrightarrow>
    run_step c s (goto i Receiving (s\<lparr>main := Serving r, accepted := (accepted s)(i := accepted s i @ [r])\<rparr>))"
| ctx_Done: "main s = Selecting \<Longrightarrow> ctx_done s \<Longrightarrow> run_step c s (s\<lparr>main := Waiting, cancel_called := True\<rparr>)"
| returns: "main s = Waiting \<Longrightarrow> \<forall>i. sup s i = Finished \<Longrightarrow>
    run_state (ControllerStopped (c_observer c)) (world s) = (u, w') \<Longrightarrow> run_step c s (s\<lparr>world := w', main := Returned\<rparr>)"
| cancelled: "run_step c s (s\<lparr>ctx_done := True\<rparr>)"
| environment: "run_step c s (s\<lparr>world := w'\<rparr>)"

text \<open>
  \<^verbatim>\<open>Run\<close> starts: the observer is told, the supervisors are started and the initial full pass is served.
  The fields \<open>demanded\<close> and \<open>accepted\<close> record, for the statements below, the requests that a supervisor
  set out to send and those that the loop received from it.
\<close>

definition start_run :: "'w Controller \<Rightarrow> 'w \<Rightarrow> 'w running" where
  "start_run c w =
     \<lparr>world = snd (run_state (ControllerStarted (c_observer c)) w), main = Serving full_request, sup = (\<lambda>_. AtHead),
      ctx_done = False, cancel_called = False, demanded = (\<lambda>_. []), accepted = (\<lambda>_. []), opened = (\<lambda>_. 0), stopped = (\<lambda>_. 0)\<rparr>"

section \<open>Invariants\<close>

definition stream_open :: "sup_pc \<Rightarrow> nat" where
  "stream_open pc = (case pc of Receiving \<Rightarrow> 1 | Sending _ \<Rightarrow> 1 | _ \<Rightarrow> 0)"

text \<open>The requests a supervisor has not handed over yet.\<close>

definition outstanding :: "sup_pc \<Rightarrow> reconcileRequest list \<Rightarrow> bool" where
  "outstanding pc rs = (case pc of Sending r \<Rightarrow> rs = [r] | Finished \<Rightarrow> length rs \<le> 1 | _ \<Rightarrow> rs = [])"

definition run_inv :: "'w running \<Rightarrow> bool" where
  "run_inv s \<longleftrightarrow>
     (\<forall>i. opened s i = stopped s i + stream_open (sup s i)) \<and>
     (\<forall>i. \<exists>rs. demanded s i = accepted s i @ rs \<and> outstanding (sup s i) rs) \<and>
     (\<forall>i. sup s i = Finished \<longrightarrow> run_done s) \<and>
     (cancel_called s \<longrightarrow> ctx_done s) \<and> (cancel_called s \<longleftrightarrow> main s = Waiting \<or> main s = Returned) \<and>
     (main s = Returned \<longrightarrow> (\<forall>i. sup s i = Finished))"

lemma run_inv_start: "run_inv (start_run c w)"
  by (simp add: run_inv_def start_run_def stream_open_def outstanding_def)

lemmas sup_defs = goto_def stop_stream_def run_done_def stream_open_def outstanding_def

lemma sup_step_frame:
  assumes "sup_step c i s t"
  shows "main t = main s" "ctx_done t = ctx_done s" "cancel_called t = cancel_called s" "accepted t = accepted s"
    "j \<noteq> i \<Longrightarrow> sup t j = sup s j" "j \<noteq> i \<Longrightarrow> demanded t j = demanded s j" "j \<noteq> i \<Longrightarrow> opened t j = opened s j"
    "j \<noteq> i \<Longrightarrow> stopped t j = stopped s j" "sup s i \<noteq> Finished"
  using assms by (cases rule: sup_step.cases; simp add: goto_def stop_stream_def)+

lemma sup_step_local:
  assumes "sup_step c i s t" "run_inv s"
  shows "opened t i = stopped t i + stream_open (sup t i) \<and>
    (\<exists>rs. demanded t i = accepted t i @ rs \<and> outstanding (sup t i) rs) \<and> (sup t i = Finished \<longrightarrow> run_done t)"
proof -
  from assms(2) obtain rs where o: "opened s i = stopped s i + stream_open (sup s i)"
    and rs: "demanded s i = accepted s i @ rs" "outstanding (sup s i) rs" unfolding run_inv_def by blast
  from assms(1) show ?thesis by (cases rule: sup_step.cases) (use o rs in \<open>auto simp: sup_defs\<close>)
qed

lemma run_inv_sup:
  assumes step: "sup_step c i s t" and inv: "run_inv s"
  shows "run_inv t"
proof -
  note frame = sup_step_frame[OF step] and here = sup_step_local[OF step inv]
  have returned: "main s \<noteq> Returned" using inv frame(9) unfolding run_inv_def by blast
  have "opened t j = stopped t j + stream_open (sup t j) \<and>
    (\<exists>rs. demanded t j = accepted t j @ rs \<and> outstanding (sup t j) rs) \<and> (sup t j = Finished \<longrightarrow> run_done t)" for j
    using here inv frame(2-8) by (cases "j = i") (auto simp: run_inv_def run_done_def)
  then show ?thesis using inv frame(1-4) returned unfolding run_inv_def by simp
qed

lemma run_inv_step: "run_step c s t \<Longrightarrow> run_inv s \<Longrightarrow> run_inv t"
proof (induction rule: run_step.induct)
  case (supervisor i s t)
  then show ?case by (rule run_inv_sup)
next
  case (request s i r)
  then obtain rs where "demanded s i = accepted s i @ rs" "outstanding (sup s i) rs" unfolding run_inv_def by blast
  with request have "demanded s i = accepted s i @ [r]" by (simp add: outstanding_def)
  with request show ?case by (auto simp: run_inv_def sup_defs)
qed (auto simp: run_inv_def run_done_def)

interpretation running: invariant_system "run_step c" run_inv for c
  by unfold_locales (rule run_inv_step)

section \<open>Stopping\<close>

text \<open>
  After the cancellation each component can finish on its own, whatever the others do: one step takes a
  supervisor to its end from wherever it stands, and the loop needs to complete the pass it is serving.
  The rank counts the supervisors at work and the steps left of the loop.
\<close>

fun loop_left :: "main_pc \<Rightarrow> nat" where
  "loop_left (Serving _) = 3"
| "loop_left Selecting = 2"
| "loop_left Waiting = 1"
| "loop_left Returned = 0"

definition at_work :: "'w running \<Rightarrow> supervisor \<Rightarrow> nat" where
  "at_work s i = (if sup s i = Finished then 0 else 1)"

definition work_left :: "'w running \<Rightarrow> nat" where
  "work_left s = loop_left (main s) + (at_work s Workloads + at_work s HPAs + at_work s PolicyMap)"

lemma run_unit: "run_state m w = ((), snd (run_state m w))"
  by (cases "run_state m w") simp

text \<open>The exit of a supervisor, and the moves of the loop by where they lead.\<close>

definition sup_exit :: "'w Controller \<Rightarrow> supervisor \<Rightarrow> 'w running \<Rightarrow> 'w running \<Rightarrow> bool" where
  "sup_exit c i s t \<longleftrightarrow> sup_step c i s t \<and> sup t i = Finished"

definition loop_move :: "'w Controller \<Rightarrow> (main_pc \<Rightarrow> bool) \<Rightarrow> main_pc \<Rightarrow> 'w running \<Rightarrow> 'w running \<Rightarrow> bool" where
  "loop_move c from_pc to_pc s t \<longleftrightarrow> run_step c s t \<and> from_pc (main s) \<and> main t = to_pc"

lemma sup_exit_enabled:
  assumes "run_done s" "sup s i \<noteq> Finished"
  shows "\<exists>t. sup_exit c i s t"
  unfolding sup_exit_def using assms
  by (cases "sup s i") (force simp: goto_def intro: sup_step.loop_ends sup_step.receive_done sup_step.send_done
      sup_step.retries[where again = False, simplified])+

lemma sup_can_finish:
  assumes "run_done s" "sup s i \<noteq> Finished"
  obtains t where "run_step c s t" "work_left t < work_left s" "ctx_done t = ctx_done s" "accepted t = accepted s"
proof -
  obtain t where t: "sup_step c i s t" "sup t i = Finished" using sup_exit_enabled[OF assms] unfolding sup_exit_def by blast
  note frame = sup_step_frame[OF t(1)]
  have le: "at_work t j \<le> at_work s j" for j
    using assms(2) t(2) frame(5)[of j] by (cases "j = i") (auto simp: at_work_def)
  have "at_work t i < at_work s i" using assms(2) t(2) by (simp add: at_work_def)
  then have "work_left t < work_left s"
    using le[of Workloads] le[of HPAs] le[of PolicyMap] unfolding work_left_def frame(1) by (cases i) simp_all
  then show thesis using that run_step.supervisor[OF t(1)] frame(2,4) by blast
qed

lemma run_advances:
  assumes "ctx_done s" "main s \<noteq> Returned"
  obtains t where "run_step c s t" "work_left t < work_left s" "ctx_done t" "accepted t = accepted s"
proof (cases "main s")
  case (Serving r)
  from run_step.served[OF this run_unit] that show thesis
    using assms by (fastforce simp: work_left_def at_work_def Serving)
next
  case Selecting
  from run_step.ctx_Done[OF this assms(1)] that show thesis
    using assms by (fastforce simp: work_left_def at_work_def Selecting)
next
  case Waiting
  show thesis
  proof (cases "\<forall>i. sup s i = Finished")
    case True
    from run_step.returns[OF Waiting this run_unit] that show thesis
      using assms by (fastforce simp: work_left_def at_work_def Waiting)
  next
    case False
    then obtain i where "sup s i \<noteq> Finished" by blast
    from sup_can_finish[OF _ this] that assms(1) show thesis by (metis run_done_def)
  qed
qed (use assms in simp)

interpretation stopping: progress "run_step c" "\<lambda>s. ctx_done s \<and> accepted s = before" "\<lambda>s. main s = Returned" work_left
  for c :: "'w Controller" and before
proof
  fix s :: "'w running" assume "ctx_done s \<and> accepted s = before" "main s \<noteq> Returned"
  with run_advances[of s c] show "\<exists>t. run_step c s t \<and> (ctx_done t \<and> accepted t = before) \<and> work_left t < work_left s"
    by metis
qed

text \<open>
  A run that is fair to the exits of the supervisors and to the loop. When several cases of a \<^verbatim>\<open>select\<close> are
  ready, Go takes one of them at random; so the exits of the supervisors, which stay possible, are taken
  at some time, and so is that of the loop, which is possible whenever the loop is back in its \<^verbatim>\<open>select\<close>.
\<close>

definition fair_to_all :: "'w Controller \<Rightarrow> (nat \<Rightarrow> 'w running) \<Rightarrow> bool" where
  "fair_to_all c \<sigma> \<longleftrightarrow> (\<forall>i. weakly_fair (sup_exit c i) \<sigma>) \<and>
     weakly_fair (loop_move c (\<lambda>pc. \<exists>r. pc = Serving r) Selecting) \<sigma> \<and>
     strongly_fair (loop_move c (\<lambda>pc. pc = Selecting) Waiting) \<sigma> \<and>
     weakly_fair (loop_move c (\<lambda>pc. pc = Waiting) Returned) \<sigma>"

lemma run_step_stable:
  assumes "run_step c s t"
  shows "ctx_done s \<Longrightarrow> ctx_done t" "sup s i = Finished \<Longrightarrow> sup t i = Finished"
    "main s \<in> {Waiting, Returned} \<Longrightarrow> main t \<in> {Waiting, Returned}" "main s = Returned \<Longrightarrow> main t = Returned"
proof -
  show "ctx_done s \<Longrightarrow> ctx_done t" "main s \<in> {Waiting, Returned} \<Longrightarrow> main t \<in> {Waiting, Returned}" "main s = Returned \<Longrightarrow> main t = Returned"
    using assms by (cases rule: run_step.cases; auto simp: goto_def sup_step_frame)+
  show "sup s i = Finished \<Longrightarrow> sup t i = Finished"
    using assms
  proof (cases rule: run_step.cases)
    case (supervisor j)
    then show "sup s i = Finished \<Longrightarrow> sup t i = Finished"
      using sup_step_frame(5)[OF supervisor, of i] sup_step_frame(9)[OF supervisor] by (cases "i = j") auto
  qed (auto simp: goto_def)
qed

lemma supervisors_finish:
  assumes run: "is_run (run_step c) \<sigma>" and fair: "fair_to_all c \<sigma>" and ctx0: "ctx_done (\<sigma> 0)"
  obtains n where "\<And>k i. n \<le> k \<Longrightarrow> sup (\<sigma> k) i = Finished"
proof -
  have "\<exists>n \<ge> 0. \<forall>k \<ge> n. ctx_done (\<sigma> k) \<and> sup (\<sigma> k) i = Finished" for i
  proof (rule weakly_fair_reaches[OF run])
    show "weakly_fair (sup_exit c i) \<sigma>" using fair by (simp add: fair_to_all_def)
    show "\<exists>t. sup_exit c i s t" if "ctx_done s" "sup s i \<noteq> Finished" for s
      by (rule sup_exit_enabled) (use that in \<open>simp_all add: run_done_def\<close>)
  qed (use ctx0 run_step_stable in \<open>auto simp: sup_exit_def\<close>)
  then obtain n where n: "\<And>i k. n i \<le> k \<Longrightarrow> sup (\<sigma> k) i = Finished" by metis
  show thesis
  proof (rule that[of "max (n Workloads) (max (n HPAs) (n PolicyMap))"])
    show "sup (\<sigma> k) i = Finished" if "max (n Workloads) (max (n HPAs) (n PolicyMap)) \<le> k" for k i
      using that n[of i k] by (cases i) auto
  qed
qed

lemma loop_leaves:
  assumes run: "is_run (run_step c) \<sigma>" and fair: "fair_to_all c \<sigma>" and ctx0: "ctx_done (\<sigma> 0)"
  obtains n where "\<And>k. n \<le> k \<Longrightarrow> main (\<sigma> k) \<in> {Waiting, Returned}"
proof -
  have ctx: "ctx_done (\<sigma> k)" for k by (rule run_stable[where P = ctx_done, OF run _ ctx0]) (auto intro: run_step_stable(1))
  have "\<exists>n. main (\<sigma> n) \<in> {Waiting, Returned}"
  proof (rule ccontr)
    assume "\<nexists>n. main (\<sigma> n) \<in> {Waiting, Returned}"
    then have busy: "main (\<sigma> k) = Selecting \<or> (\<exists>r. main (\<sigma> k) = Serving r)" for k by (cases "main (\<sigma> k)") auto
    have "\<exists>k \<ge> m. main (\<sigma> k) = Selecting" for m
    proof (rule ccontr)
      assume never: "\<not> (\<exists>k \<ge> m. main (\<sigma> k) = Selecting)"
      have "weakly_fair (loop_move c (\<lambda>pc. \<exists>r. pc = Serving r) Selecting) \<sigma>" using fair by (simp add: fair_to_all_def)
      then obtain k where "m \<le> k" "main (\<sigma> (Suc k)) = Selecting"
      proof (rule weakly_fairD[where n = m])
        fix k assume "m \<le> k"
        then obtain r where r: "main (\<sigma> k) = Serving r" using busy never by blast
        show "\<exists>t. loop_move c (\<lambda>pc. \<exists>r. pc = Serving r) Selecting (\<sigma> k) t"
          unfolding loop_move_def using run_step.served[OF r run_unit] r by fastforce
      qed (auto simp: loop_move_def)
      with never show False by (meson le_SucI)
    qed
    moreover have "\<exists>t. loop_move c (\<lambda>pc. pc = Selecting) Waiting (\<sigma> k) t" if "main (\<sigma> k) = Selecting" for k
      unfolding loop_move_def using run_step.ctx_Done[OF that ctx] that by fastforce
    ultimately have "\<exists>k \<ge> m. \<exists>t. loop_move c (\<lambda>pc. pc = Selecting) Waiting (\<sigma> k) t" for m by blast
    moreover have "strongly_fair (loop_move c (\<lambda>pc. pc = Selecting) Waiting) \<sigma>" using fair by (simp add: fair_to_all_def)
    ultimately obtain k where "loop_move c (\<lambda>pc. pc = Selecting) Waiting (\<sigma> k) (\<sigma> (Suc k))"
      using strongly_fairD[of "loop_move c (\<lambda>pc. pc = Selecting) Waiting" \<sigma> 0] by blast
    then have "main (\<sigma> (Suc k)) = Waiting" by (simp add: loop_move_def)
    with busy[of "Suc k"] show False by auto
  qed
  then obtain n where n: "main (\<sigma> n) \<in> {Waiting, Returned}" by blast
  show thesis
  proof (rule that)
    show "main (\<sigma> k) \<in> {Waiting, Returned}" if "n \<le> k" for k
      using run _ n that by (rule run_stable) (rule run_step_stable(3))
  qed
qed

lemma fair_run_returns:
  assumes run: "is_run (run_step c) \<sigma>" and fair: "fair_to_all c \<sigma>" and ctx0: "ctx_done (\<sigma> 0)"
  shows "\<exists>n. \<forall>k \<ge> n. main (\<sigma> k) = Returned"
proof -
  obtain n1 where n1: "\<And>k i. n1 \<le> k \<Longrightarrow> sup (\<sigma> k) i = Finished" using supervisors_finish[OF assms] by blast
  obtain n2 where n2: "\<And>k. n2 \<le> k \<Longrightarrow> main (\<sigma> k) \<in> {Waiting, Returned}" using loop_leaves[OF assms] by blast
  let ?J = "\<lambda>s. main s \<in> {Waiting, Returned} \<and> (\<forall>i. sup s i = Finished)"
  have start: "?J (\<sigma> (max n1 n2))" using n1 n2 by simp
  have wf: "weakly_fair (loop_move c (\<lambda>pc. pc = Waiting) Returned) \<sigma>" using fair by (simp add: fair_to_all_def)
  have "\<exists>m \<ge> max n1 n2. \<forall>k \<ge> m. ?J (\<sigma> k) \<and> main (\<sigma> k) = Returned"
  proof (rule weakly_fair_reaches[OF run wf])
    show "?J (\<sigma> (max n1 n2))" by (rule start)
    show "\<exists>t. loop_move c (\<lambda>pc. pc = Waiting) Returned s t" if "?J s" "main s \<noteq> Returned" for s
      unfolding loop_move_def using run_step.returns[of s c, OF _ _ run_unit] that by fastforce
    show "?J t" if "run_step c s t" "?J s" for s t
      using run_step_stable(3)[OF that(1)] run_step_stable(2)[OF that(1)] that(2) by blast
  qed (auto simp: loop_move_def intro: run_step_stable(4))
  then show ?thesis by blast
qed

lemma request_can_be_served:
  assumes "sup s i = Sending r" "main s = Selecting \<or> (\<exists>r'. main s = Serving r')"
  obtains t where "(run_step c)\<^sup>*\<^sup>* s t" "main t = Serving r" "accepted t i = accepted s i @ [r]"
proof -
  have select: "\<exists>t. (run_step c)\<^sup>*\<^sup>* s t \<and> main t = Serving r \<and> accepted t i = accepted s i @ [r]"
    if "main s = Selecting" "sup s i = Sending r" for s
    using run_step.request[OF that, of c] that
    by (intro exI[of _ "goto i Receiving (s\<lparr>main := Serving r, accepted := (accepted s)(i := accepted s i @ [r])\<rparr>)"])
      (auto simp: goto_def)
  show thesis using assms(2)
  proof (elim disjE exE)
    fix r' assume Serving: "main s = Serving r'"
    let ?s = "s\<lparr>world := snd (run_state (serve c r') (world s)), main := Selecting\<rparr>"
    have "run_step c s ?s" by (rule run_step.served[OF Serving run_unit])
    with select[of ?s] assms(1) show thesis using that by (auto intro: converse_rtranclp_into_rtranclp)
  qed (use select[of s] assms(1) that in blast)
qed

section \<open>Properties of the running controller\<close>

text \<open>
  C16: no request is lost while the controller runs. In every run, for each of the three supervisors, the
  requests its events demanded are exactly those the loop received from it, in the same order, except
  for one that it is about to hand over or that it dropped when it ended; it ends only after the
  cancellation. And the supervisors never block each other for good: before the cancellation a request
  that waits can always be received and served, after at most the pass in progress.
\<close>

theorem Run_loses_no_request:
  assumes "(run_step c)\<^sup>*\<^sup>* (start_run c w) s"
  shows "(\<exists>rs. demanded s i = accepted s i @ rs \<and> outstanding (sup s i) rs) \<and>
    (sup s i = Finished \<longrightarrow> ctx_done s) \<and>
    (\<forall>r. sup s i = Sending r \<and> \<not> ctx_done s \<longrightarrow>
       (\<exists>t. (run_step c)\<^sup>*\<^sup>* s t \<and> main t = Serving r \<and> accepted t i = accepted s i @ [r]))"
proof -
  have inv: "run_inv s" by (rule running.reachable_inv[OF assms run_inv_start])
  have busy: "main s = Selecting \<or> (\<exists>r'. main s = Serving r')" if "\<not> ctx_done s"
    using inv that unfolding run_inv_def by (cases "main s") auto
  have "\<exists>t. (run_step c)\<^sup>*\<^sup>* s t \<and> main t = Serving r \<and> accepted t i = accepted s i @ [r]"
    if "sup s i = Sending r" "\<not> ctx_done s" for r
    using request_can_be_served[OF that(1) busy[OF that(2)], of c] by blast
  then show ?thesis using inv unfolding run_inv_def run_done_def by blast
qed

text \<open>
  C17: cancellation is honoured and leaves nothing behind. From every state that a run can reach after the
  context is cancelled, the controller can return, after at most the pass in progress and without
  receiving another request; it does return, for good, in every infinite run that is fair to the
  supervisors and to the cases of its select; and whenever it has returned, the context was cancelled, every supervisor
  has returned and every watch stream that was opened has been stopped.
\<close>

theorem Run_stops_clean:
  assumes "(run_step c)\<^sup>*\<^sup>* (start_run c w) s"
  shows "(ctx_done s \<longrightarrow> (\<exists>t. (run_step c)\<^sup>*\<^sup>* s t \<and> main t = Returned \<and> accepted t = accepted s)) \<and>
    (\<forall>\<sigma>. ctx_done s \<and> \<sigma> 0 = s \<and> is_run (run_step c) \<sigma> \<and> fair_to_all c \<sigma> \<longrightarrow> (\<exists>n. \<forall>k \<ge> n. main (\<sigma> k) = Returned)) \<and>
    (main s = Returned \<longrightarrow> ctx_done s \<and> (\<forall>i. sup s i = Finished \<and> opened s i = stopped s i))"
proof -
  have inv: "run_inv s" by (rule running.reachable_inv[OF assms run_inv_start])
  have "ctx_done s \<and> (\<forall>i. sup s i = Finished \<and> opened s i = stopped s i)" if "main s = Returned"
  proof -
    have "\<forall>i. sup s i = Finished" "ctx_done s" using inv that unfolding run_inv_def by blast+
    then show ?thesis using inv by (simp add: run_inv_def stream_open_def)
  qed
  then show ?thesis using stopping.can_reach[of s "accepted s" c] fair_run_returns[of c] by blast
qed

text \<open>A controller without workloads and policies, for examples.\<close>

definition idle_controller :: "unit Controller" where
  "idle_controller = \<lparr>c_List = \<lambda>_. ret (Inr []), c_WatchWorkloads = ret None, c_WatchHPAs = ret None, c_Current = ret None,
     c_WatchPolicies = ret None, c_Reconcile = \<lambda>_ _. ret (zeroDecision, None), c_ctx_Err = ret None,
     c_interval = DefaultReconcileInterval, c_retryDelay = DefaultWatchRetryDelay, c_handleError = \<lambda>_. ret (),
     c_observer = noopObserver\<rparr>"

definition deleted_event :: Event where
  "deleted_event = \<lparr>Event_Type = EventDeleted, Event_Kind = KindDeployment, Event_Workload = None, Event_Err = None\<rparr>"

text \<open>The workload watch is opened and delivers a deletion.\<close>

lemma deletion_run:
  obtains s where "(run_step idle_controller)\<^sup>*\<^sup>* (start_run idle_controller ()) s" "sup s Workloads = Sending full_request"
    "\<not> ctx_done s" "accepted s Workloads = []"
proof -
  let ?s0 = "start_run idle_controller ()"
  let ?s1 = "goto Workloads Receiving (?s0\<lparr>world := (), opened := (opened ?s0)(Workloads := opened ?s0 Workloads + 1)\<rparr>)"
  let ?s2 = "goto Workloads (Sending full_request) (?s1\<lparr>world := (), demanded := (demanded ?s1)(Workloads := demanded ?s1 Workloads @ [full_request])\<rparr>)"
  have "sup_step idle_controller Workloads ?s0 ?s1"
    by (rule sup_step.opens) (simp_all add: start_run_def run_done_def idle_controller_def)
  moreover have "sup_step idle_controller Workloads ?s1 ?s2"
    by (rule sup_step.receive_send[where a = "WorkloadAnswer (Some deleted_event)"])
      (simp_all add: goto_def superviseWorkloads_event_def deleted_event_def)
  ultimately have "(run_step idle_controller)\<^sup>*\<^sup>* ?s0 ?s2"
    by (meson run_step.supervisor converse_rtranclp_into_rtranclp rtranclp.rtrancl_refl)
  then show thesis by (rule that) (simp_all add: goto_def start_run_def)
qed

theorem Run_loses_no_request_witness:
  "\<exists>s t. (run_step idle_controller)\<^sup>*\<^sup>* (start_run idle_controller ()) s \<and> sup s Workloads = Sending full_request \<and>
     (run_step idle_controller)\<^sup>*\<^sup>* s t \<and> main t = Serving full_request \<and> accepted t Workloads = [full_request]"
proof -
  obtain s where s: "(run_step idle_controller)\<^sup>*\<^sup>* (start_run idle_controller ()) s" "sup s Workloads = Sending full_request"
    "\<not> ctx_done s" "accepted s Workloads = []" by (rule deletion_run)
  show ?thesis using Run_loses_no_request[OF s(1), of Workloads] s by fastforce
qed

lemma fair_ending:
  assumes "(run_step c)\<^sup>*\<^sup>* s t" "main t = Returned" "ctx_done t" "\<forall>i. sup t i = Finished"
  obtains \<sigma> where "\<sigma> 0 = s" "is_run (run_step c) \<sigma>" "fair_to_all c \<sigma>"
proof -
  have "t\<lparr>ctx_done := True\<rparr> = t" using assms(3) by (cases t) simp
  then have "run_step c t t" using run_step.cancelled[of c t] by simp
  from settled_run[OF assms(1) this] obtain \<sigma> n where \<sigma>: "\<sigma> 0 = s" "is_run (run_step c) \<sigma>" "\<And>m. n \<le> m \<Longrightarrow> \<sigma> m = t" by blast
  have "\<nexists>u. sup_exit c i t u" for i using assms(4) sup_step_frame(9) unfolding sup_exit_def by blast
  moreover have "\<nexists>u. loop_move c from_pc to_pc t u" if "\<not> from_pc Returned" for from_pc to_pc using assms(2) that by (simp add: loop_move_def)
  ultimately have "fair_to_all c \<sigma>" unfolding fair_to_all_def by (auto intro!: settled_fair[where t = t, OF \<sigma>(3)])
  with \<sigma> that show thesis by blast
qed

theorem Run_stops_clean_witness:
  "\<exists>s \<sigma> n. (run_step idle_controller)\<^sup>*\<^sup>* (start_run idle_controller ()) s \<and> sup s Workloads = Sending full_request \<and> ctx_done s \<and>
     \<sigma> 0 = s \<and> is_run (run_step idle_controller) \<sigma> \<and> fair_to_all idle_controller \<sigma> \<and> (\<forall>k \<ge> n. main (\<sigma> k) = Returned)"
proof -
  obtain s where s: "(run_step idle_controller)\<^sup>*\<^sup>* (start_run idle_controller ()) s" "sup s Workloads = Sending full_request"
    "accepted s Workloads = []" by (rule deletion_run)
  let ?s = "s\<lparr>ctx_done := True\<rparr>"
  have run: "(run_step idle_controller)\<^sup>*\<^sup>* (start_run idle_controller ()) ?s"
    using s(1) run_step.cancelled by (rule rtranclp.rtrancl_into_rtrancl)
  then obtain t where t: "(run_step idle_controller)\<^sup>*\<^sup>* ?s t" "main t = Returned"
    using Run_stops_clean[OF run] by auto
  have reach: "(run_step idle_controller)\<^sup>*\<^sup>* (start_run idle_controller ()) t" using run t(1) by (rule rtranclp_trans)
  obtain \<sigma> where \<sigma>: "\<sigma> 0 = ?s" "is_run (run_step idle_controller) \<sigma>" "fair_to_all idle_controller \<sigma>"
    using fair_ending[OF t] Run_stops_clean[OF reach] t(2) by blast
  with Run_stops_clean[OF run] obtain n where "\<forall>k \<ge> n. main (\<sigma> k) = Returned" by auto
  with run s(2) \<sigma> show ?thesis by (intro exI[of _ ?s] exI[of _ \<sigma>] exI[of _ n]) simp
qed

end
