(* ===== verification/Telemetry_Run.thy ===== *)
theory Telemetry_Run
  imports Commands Composition Controller_Run
begin

text \<open>
  The telemetry of the running process. The controller is put together as \<^verbatim>\<open>run\<close> of
  \<^verbatim>\<open>cmd/controller/main.go\<close> does it, with the telemetry as its observer and behind its error handler, and its
  calls of the telemetry are recorded as reports. A run of the process interleaves these reports with the
  steps of the coordinator, which sets the running mark of the same readiness record, with the reloads of
  the policy manager that this record looks at, and with HTTP requests.
\<close>

section \<open>What the controller reports\<close>

text \<open>The options that \<^verbatim>\<open>run\<close> passes to \<^verbatim>\<open>NewController\<close>.\<close>

definition main_options :: "'w Observer \<Rightarrow> 'w ControllerOptions" where
  "main_options telemetry =
     \<lparr>Opt_ReconcileInterval = 0, Opt_WatchRetryDelay = 0,
      Opt_HandleError = Some (\<lambda>err. ObserveError telemetry ''controller'' err), Opt_Observer = Some telemetry\<rparr>"

text \<open>The telemetry as an observer whose calls are recorded; what a call does to the telemetry is \<open>report_step\<close>.\<close>

definition reporting :: "('w \<times> report list) Observer" where
  "reporting =
     \<lparr>ControllerStarted = logged (\<lambda>_. Started) (ret ()), ControllerStopped = logged (\<lambda>_. Stopped) (ret ()),
      ObserveReconcile = \<lambda>event. logged (\<lambda>_. Reconciled event) (ret ()),
      ObservePolicyEvent = \<lambda>event. logged (\<lambda>_. PolicyReport event) (ret ()),
      ObserveError = \<lambda>component err. logged (\<lambda>_. Failed component err) (ret ())\<rparr>"

text \<open>
  The controller that \<^verbatim>\<open>run\<close> builds, over the Kubernetes gateway. The watches, the manager, the transition and
  the context are those of a given controller and may do and answer what they like.
\<close>

definition main_controller :: "'w apps_client \<Rightarrow> 'w Controller \<Rightarrow> ('w \<times> report list) Controller result" where
  "main_controller apps c =
     NewController (Some (\<lambda>kind. unlogged (gateway_List apps kind), unlogged (c_WatchWorkloads c)))
       (Some (unlogged (c_WatchHPAs c))) (Some (unlogged (c_Current c))) (Some (unlogged (c_WatchPolicies c)))
       (Some (\<lambda>v p. unlogged (c_Reconcile c v p))) (main_options reporting) (unlogged (c_ctx_Err c))"

text \<open>The answers that a supervisor receives: those of the workload supervisor come from a merged stream.\<close>

fun delivered_answer :: "stream_answer \<Rightarrow> bool" where
  "delivered_answer (WorkloadAnswer (Some event)) \<longleftrightarrow> (\<exists>FromObject deployments statefulSets s.
     (merged_step FromObject)\<^sup>*\<^sup>* (start_merged deployments statefulSets) s \<and> event \<in> set (m_sent s))"
| "delivered_answer _ \<longleftrightarrow> True"

text \<open>
  What \<^verbatim>\<open>Controller.Run\<close> executes, in its loop and in its supervisors: the start, full passes, requests that a
  supervisor sends, reactions to events, failures to start a watch, the end.
\<close>

inductive activity :: "'w Controller \<Rightarrow> ('w, unit) io \<Rightarrow> bool" for k where
  starts: "activity k (ControllerStarted (c_observer k))"
| passes: "activity k (serve k full_request)"
| requests: "delivered_answer a \<Longrightarrow> run_state (supervise_event k a) w = (Send request, w') \<Longrightarrow> activity k (serve k request)"
| supervises: "activity k (State_Monad.bind (supervise_event k a) (\<lambda>_. ret ()))"
| open_fails: "activity k (c_handleError k (Some (start_failure i err)))"
| stops: "activity k (ControllerStopped (c_observer k))"

text \<open>
  A report of the running program: it is made by an activity of the controller, or it is a capacity, which
  the state store reports to the metrics.
\<close>

definition program_report :: "'w apps_client \<Rightarrow> 'w Controller \<Rightarrow> report \<Rightarrow> bool" where
  "program_report apps c r \<longleftrightarrow>
     (\<exists>k m w w' rs. main_controller apps c = Inr k \<and> activity k m \<and> run_state m (w, []) = ((), (w', rs)) \<and> r \<in> set rs) \<or>
     (\<exists>capacity. r = CapacityReport capacity)"

section \<open>Runs of the process\<close>

definition mark :: "bool \<Rightarrow> Telemetry \<Rightarrow> Telemetry" where
  "mark b t = t\<lparr>tele_readiness := SetControllerRunning b (tele_readiness t)\<rparr>"

definition http_request :: "(Metrics \<Rightarrow> response) \<Rightarrow> string \<Rightarrow> Telemetry \<Rightarrow> response \<times> Telemetry" where
  "http_request prometheus path t =
     (case handle_http prometheus path (tele_readiness t) (tele_metrics t) of (answer, m) \<Rightarrow> (answer, t\<lparr>tele_metrics := m\<rparr>))"

datatype process_event = Reported report | Loaded string

text \<open>
  The process from the moment it hands over to the coordinator, with the telemetry that the start-up left. The
  coordinator keeps its mark in the readiness of the telemetry, and while the controller runs, only the
  telemetry itself switches the mark on. A reload that crashes has no successor.
\<close>

inductive process_run ::
  "(Manager \<Rightarrow> string \<Rightarrow> (goerr option \<times> Manager) option) \<Rightarrow> 'w apps_client \<Rightarrow> 'w Controller \<Rightarrow> Telemetry \<Rightarrow>
   process_event list \<Rightarrow> coord \<Rightarrow> Telemetry \<Rightarrow> bool" for reload apps c t0 where
  begins: "process_run reload apps c t0 [] start_coord (mark False t0)"
| coordinator: "process_run reload apps c t0 evs s t \<Longrightarrow> coord_step s s' \<Longrightarrow>
    (leader s = RunnerOn \<and> leader s' = RunnerOn \<and> controller_on s' \<Longrightarrow> controller_on s) \<Longrightarrow>
    process_run reload apps c t0 evs s' (mark (controller_on s') t)"
| reports: "process_run reload apps c t0 evs s t \<Longrightarrow> leader s = RunnerOn \<Longrightarrow> program_report apps c r \<Longrightarrow>
    process_run reload apps c t0 (evs @ [Reported r])
      (s\<lparr>controller_on := controllerOn (tele_readiness (report_step r t))\<rparr>) (report_step r t)"
| reloads: "process_run reload apps c t0 evs s t \<Longrightarrow> readiness_policies (tele_readiness t) = Some manager \<Longrightarrow>
    reload manager payload = Some (err, manager') \<Longrightarrow>
    process_run reload apps c t0 (evs @ [Loaded payload]) s (offer manager' t)"
| http: "process_run reload apps c t0 evs s t \<Longrightarrow> process_run reload apps c t0 evs s (snd (http_request prometheus path t))"

definition reports_in :: "process_event list \<Rightarrow> report list" where
  "reports_in evs = concat (map (\<lambda>ev. case ev of Reported r \<Rightarrow> [r] | Loaded _ \<Rightarrow> []) evs)"

definition payloads_in :: "process_event list \<Rightarrow> string list" where
  "payloads_in evs = concat (map (\<lambda>ev. case ev of Reported _ \<Rightarrow> [] | Loaded payload \<Rightarrow> [payload]) evs)"

lemma events_simps [simp]:
  "reports_in [] = []" "reports_in (evs @ [Reported r]) = reports_in evs @ [r]" "reports_in (evs @ [Loaded p]) = reports_in evs"
  "payloads_in [] = []" "payloads_in (evs @ [Reported r]) = payloads_in evs" "payloads_in (evs @ [Loaded p]) = payloads_in evs @ [p]"
  by (simp_all add: reports_in_def payloads_in_def)

section \<open>The labels of the reports\<close>

lemma listed_kind: "api_listed apps v \<Longrightarrow> supported_kind (Workload_Kind v)"
  by (auto simp: api_listed_def WorkloadFromDeployment_def WorkloadFromStatefulSet_def fromPodTemplate_def)

lemma converted_kind:
  "Event_Workload (convertWatchEvent FromObject kind raw) = Some v \<Longrightarrow> supported_kind (Workload_Kind v)"
  by (auto simp: convertWatchEvent_def workloadFromObject_def Let_def WorkloadFromDeployment_def WorkloadFromStatefulSet_def
      fromPodTemplate_def split: if_splits option.splits sum.splits object.splits)

lemma stream_kind:
  assumes "(merged_step FromObject)\<^sup>*\<^sup>* (start_merged deployments statefulSets) s"
  shows "event \<in> set (m_sent s) \<Longrightarrow> Event_Workload event = Some v \<Longrightarrow> supported_kind (Workload_Kind v)"
  using assms
proof (induction arbitrary: event rule: rtranclp_induct)
  case base
  then show ?case by (simp add: start_merged_def)
next
  case (step s t)
  from step(2,4,5) step.IH show ?case
    by (cases rule: merged_step.cases) (auto simp: forward_ends_def disconnected_event_def dest: converted_kind)
qed

text \<open>The recorded calls of the controller that \<^verbatim>\<open>run\<close> builds.\<close>

lemma main_controller_calls:
  assumes "main_controller apps c = Inr k"
  shows "emits (c_List k kind) (\<lambda>items new. new = [] \<and> (\<forall>vs v. items = Inr vs \<and> v \<in> set vs \<longrightarrow> supported_kind (Workload_Kind v)))"
    "emits (c_Current k) (\<lambda>_ new. new = [])" "emits (c_ctx_Err k) (\<lambda>_ new. new = [])" "emits (c_Reconcile k v p) (\<lambda>_ new. new = [])"
    "emits (c_handleError k err) (\<lambda>_ new. new = [Failed ''controller'' err])"
    "emits (ControllerStarted (c_observer k)) (\<lambda>_ new. new = [Started])"
    "emits (ControllerStopped (c_observer k)) (\<lambda>_ new. new = [Stopped])"
    "emits (ObserveReconcile (c_observer k) event) (\<lambda>_ new. new = [Reconciled event])"
    "emits (ObservePolicyEvent (c_observer k) ev) (\<lambda>_ new. new = [PolicyReport ev])"
proof -
  have k: "c_List k = (\<lambda>kind. unlogged (gateway_List apps kind))" "c_Current k = unlogged (c_Current c)"
    "c_ctx_Err k = unlogged (c_ctx_Err c)" "c_Reconcile k = (\<lambda>v p. unlogged (c_Reconcile c v p))"
    "c_handleError k = (\<lambda>err. logged (\<lambda>_. Failed ''controller'' err) (ret ()))" "c_observer k = reporting"
    using assms by (auto simp: main_controller_def NewController_def main_options_def reporting_def)
  show "emits (c_List k kind) (\<lambda>items new. new = [] \<and> (\<forall>vs v. items = Inr vs \<and> v \<in> set vs \<longrightarrow> supported_kind (Workload_Kind v)))"
    unfolding k by (rule emits_mono[OF emits_unlogged]) (auto dest: gateway_lists listed_kind)
qed (use assms in \<open>auto simp: main_controller_def NewController_def main_options_def reporting_def
    intro: emits_logged emits_mono[OF emits_unlogged]\<close>)

abbreviation regular :: "'a \<Rightarrow> report list \<Rightarrow> bool" where
  "regular \<equiv> \<lambda>_. list_all regular_report"

lemma regular_one:
  assumes k: "main_controller apps c = Inr k" and "supported_kind (Workload_Kind v)"
  shows "emits (reconcileOne k v) regular"
  using assms(2) unfolding reconcileOne_def Let_def
  by (auto simp: observation_def split: option.splits prod.splits
      intro!: main_controller_calls[OF k, THEN emits_bind] main_controller_calls[OF k, THEN emits_mono])

lemma regular_items:
  assumes k: "main_controller apps c = Inr k"
  shows "\<forall>v \<in> set items. supported_kind (Workload_Kind v) \<Longrightarrow> emits (reconcile_items k items) regular"
proof (induction items)
  case Nil
  then show ?case by (simp add: emits_return)
next
  case (Cons v items)
  note one = regular_one[OF k, THEN emits_bind] and rest = emits_mono[OF Cons.IH]
  from Cons.prems show ?case
    by (auto split: option.splits intro!: main_controller_calls[OF k, THEN emits_bind] emits_return one rest)
qed

lemma regular_kinds:
  assumes k: "main_controller apps c = Inr k"
  shows "emits (reconcile_kinds k kinds) regular"
proof (induction kinds)
  case Nil
  then show ?case by (simp add: emits_return)
next
  case (Cons kind kinds)
  note items = regular_items[OF k, THEN emits_bind] and rest = emits_mono[OF Cons.IH]
  show ?case unfolding reconcile_kinds.simps
    by (rule main_controller_calls(1)[OF k, THEN emits_bind])
      (auto split: sum.splits intro!: main_controller_calls[OF k, THEN emits_bind] items rest emits_return)
qed

lemma regular_all: "main_controller apps c = Inr k \<Longrightarrow> emits (reconcileAll k) regular"
  unfolding reconcileAll_def by (rule regular_kinds)

text \<open>The workload of a request is one that the stream delivered.\<close>

lemma request_kind:
  assumes k: "main_controller apps c = Inr k" and "delivered_answer a" "run_state (supervise_event k a) w = (Send request, w')"
    "\<not> Req_full request" "Req_workload request = Some v"
  shows "supported_kind (Workload_Kind v)"
proof (cases a)
  case (WorkloadAnswer answer)
  then obtain event where event: "answer = Some event" "Event_Workload event = Some v"
    using assms(3-5) by (auto simp: superviseWorkloads_event_def split: option.splits EventType.splits prod.splits)
  with WorkloadAnswer assms(2) stream_kind show ?thesis by fastforce
next
  case (HPAAnswer answer)
  then show ?thesis using assms(3-5) by (auto simp: superviseHPA_event_def split: option.splits if_splits prod.splits)
next
  case (PolicyAnswer answer)
  then show ?thesis using assms(3-5)
    by (auto simp: supervisePolicies_event_def split: option.splits PolicyEventType.splits prod.splits)
qed

lemma regular_supervises:
  assumes k: "main_controller apps c = Inr k"
  shows "emits (supervise_event k a) regular"
  by (cases a) (auto simp: superviseWorkloads_event_def superviseHPA_event_def supervisePolicies_event_def
      split: option.splits EventType.splits PolicyEventType.splits
      intro!: main_controller_calls[OF k, THEN emits_bind] emits_return)

lemma regular_activity:
  assumes k: "main_controller apps c = Inr k" and "activity k m"
  shows "emits m regular"
  using assms(2)
proof (cases rule: activity.cases)
  case (requests a w request w')
  show ?thesis
  proof (cases "Req_full request")
    case False
    then show ?thesis using requests request_kind[OF k requests(2,3)] regular_one[OF k]
      by (auto simp: serve_def split: option.splits intro: emits_return)
  qed (simp add: requests serve_def regular_all[OF k])
next
  case (supervises a)
  show ?thesis unfolding supervises by (rule regular_supervises[OF k, THEN emits_bind]) (auto intro: emits_return)
qed (auto simp: serve_def intro: regular_all[OF k] main_controller_calls[OF k, THEN emits_mono])

text \<open>The program makes regular reports only.\<close>

lemma program_report_regular: "program_report apps c r \<Longrightarrow> regular_report r"
  unfolding program_report_def
proof (elim disjE exE conjE)
  fix k m w w' rs
  assume "main_controller apps c = Inr k" "activity k m" and run: "run_state m (w, []) = ((), w', rs)" "r \<in> set rs"
  then have "emits m regular" by (blast intro: regular_activity)
  from emits_run[OF this, of w] run show "regular_report r" by (auto simp: list_all_iff)
qed simp

section \<open>The telemetry that the start-up leaves\<close>

definition keeps :: "('x \<Rightarrow> bool) \<Rightarrow> ('w \<times> 'x, 'a) io \<Rightarrow> bool" where
  "keeps P m \<longleftrightarrow> (\<forall>w x. P x \<longrightarrow> P (snd (snd (run_state m (w, x)))))"

named_theorems keeps_intros \<open>programs that keep a property of their second component\<close>

lemma keeps_return [keeps_intros]: "keeps P (ret a)"
  by (simp add: keeps_def)

lemma keeps_unlogged [keeps_intros]: "keeps P (unlogged m)"
  by (simp add: keeps_def run_unlogged split: prod.splits)

lemma keeps_bind [keeps_intros]: "keeps P m \<Longrightarrow> (\<And>a. keeps P (f a)) \<Longrightarrow> keeps P (State_Monad.bind m f)"
  unfolding keeps_def by (auto split: prod.splits) (metis snd_conv)

lemma keeps_cases [keeps_intros]:
  "keeps P m \<Longrightarrow> keeps P n \<Longrightarrow> keeps P (if b then m else n)"
  "keeps P m \<Longrightarrow> (\<And>a. keeps P (f a)) \<Longrightarrow> keeps P (case x of None \<Rightarrow> m | Some a \<Rightarrow> f a)"
  "(\<And>e. keeps P (g e)) \<Longrightarrow> (\<And>a. keeps P (h a)) \<Longrightarrow> keeps P (case y of Inl e \<Rightarrow> g e | Inr a \<Rightarrow> h a)"
  by (simp_all split: option.split sum.split)

lemma keeps_store_Load:
  assumes "\<And>capacity m. P m \<Longrightarrow> P (metrics_ObserveStateCapacity capacity m)"
  shows "keeps P (store_Load (state_store e namespace name))"
proof -
  let ?s = "state_store e namespace name"
  have client: "keeps P (cm_Get (store_client ?s) n)" "keeps P (cm_Create (store_client ?s) cm)" "keeps P (cm_ctx_Err (store_client ?s))"
    "keeps P (cm_timer (store_client ?s) d)" for n cm d
    by (simp_all add: state_store_def SetCapacityObserver_def NewConfigMapStateStore_def beside_client_def keeps_intros)
  have observes: "keeps P (observeCapacity ?s cm)" for cm
    using assms by (auto simp: observeCapacity_def state_store_def SetCapacityObserver_def NewConfigMapStateStore_def Let_def
        keeps_def metrics_observer_def)
  have retry: "keeps P m \<Longrightarrow> keeps P (retry_loop ?s n d m)" for n d and m :: "(_, Document result) io"
    by (induction n arbitrary: d) (auto simp: sleepContext_def intro!: keeps_intros client)
  have "keeps P (load_operation ?s)"
    unfolding load_operation_def store_create_def createPayload_def Let_def by (intro keeps_intros client observes)
  then show ?thesis unfolding store_Load_def store_retry_def by (intro keeps_intros retry)
qed

definition fresh_metrics :: "Metrics \<Rightarrow> bool" where
  "fresh_metrics m \<longleftrightarrow> within_labels m \<and> reconciliations m = (\<lambda>_. 0)"

lemma fresh_step:
  "fresh_metrics (tele_metrics t) \<Longrightarrow> regular_report r \<Longrightarrow> (\<And>event. r \<noteq> Reconciled event) \<Longrightarrow> fresh_metrics (tele_metrics (report_step r t))"
  using within_labels_step[of r t] reconciliations_step[of r t]
  by (cases r) (auto simp: fresh_metrics_def fun_eq_iff)

lemma load_state_fresh:
  assumes "fresh_metrics (tele_metrics t)"
  shows "fresh_metrics (tele_metrics (fst (run_state (load_state e namespace name t) w)))"
proof -
  obtain answer w' m where run: "run_state (store_Load (state_store e namespace name)) (w, tele_metrics t) = (answer, w', m)"
    by (metis prod_cases3)
  have "keeps fresh_metrics (store_Load (state_store e namespace name))"
    by (rule keeps_store_Load) (simp add: fresh_metrics_def within_labels_def metrics_ObserveStateCapacity_def)
  then have "fresh_metrics m" using assms run unfolding keeps_def by (metis snd_conv)
  then show ?thesis
    using fresh_step[of "t\<lparr>tele_metrics := m\<rparr>" "Failed ''state-store'' err" for err]
    by (cases answer) (simp_all add: load_state_def run)
qed

lemma run_start_fresh:
  assumes "run_state (run_start reload e) w = (Some (Inr p), w')"
  shows "fresh_metrics (tele_metrics (proc_telemetry p))"
proof -
  have "fresh_metrics (tele_metrics (NewTelemetry NewMetrics r))" for r
    by (simp add: fresh_metrics_def within_labels_def NewTelemetry_def NewMetrics_def)
  then have "fresh_metrics (tele_metrics (policy_telemetry err manager))" for err manager
    using fresh_step[of _ "PolicyReport ev" for ev] by (auto simp: policy_telemetry_def Let_def split: option.split)
  note load = load_state_fresh[OF this]
  from assms obtain err manager namespace name policyName w1 t where
    "run_state (load_state e namespace name (policy_telemetry err manager)) w1 = (t, w')" "start_process e namespace policyName t = Inr p"
    by (auto simp: run_start_def Let_def split: option.splits prod.splits)
  with load[of e namespace name err manager w1] show ?thesis by (simp add: start_process_ok)
qed

section \<open>Invariant of the process\<close>

text \<open>The payloads the manager was offered: the stored one at the start-up and those reloaded since.\<close>

definition seen_payloads :: "('w, 'l) startup_env \<Rightarrow> 'w \<Rightarrow> process_event list \<Rightarrow> string list" where
  "seen_payloads e w evs = (case stored_policy e w of None \<Rightarrow> [] | Some payload \<Rightarrow> [payload]) @ payloads_in evs"

definition process_inv ::
  "nat \<Rightarrow> policy_env \<Rightarrow> yaml_env \<Rightarrow> ('w, 'l) startup_env \<Rightarrow> 'w \<Rightarrow> process_event list \<Rightarrow> coord \<Rightarrow> Telemetry \<Rightarrow> bool" where
  "process_inv depth env yaml e w evs s t \<longleftrightarrow>
     coord_step\<^sup>*\<^sup>* start_coord s \<and> controllerOn (tele_readiness t) = controller_on s \<and>
     (dependencies (tele_readiness t) \<longleftrightarrow> \<not> isl (fst (first_load e w)) \<or> some_success (reports_in evs)) \<and>
     (\<exists>manager. readiness_policies (tele_readiness t) = Some manager \<and> wf_manager env manager \<and>
        Current manager = last_valid (policy_Decode depth env yaml) None (seen_payloads e w evs)) \<and>
     within_labels (tele_metrics t) \<and>
     (\<forall>kind result. reconciliations (tele_metrics t) [kind, result] = times_observed kind result (reports_in evs))"

lemma counters_unchanged [simp]:
  "tele_metrics (mark b t) = tele_metrics t" "tele_metrics (offer m t) = tele_metrics t"
  "within_labels (tele_metrics (snd (http_request prometheus path t))) = within_labels (tele_metrics t)"
  "reconciliations (tele_metrics (snd (http_request prometheus path t))) = reconciliations (tele_metrics t)"
  "tele_readiness (snd (http_request prometheus path t)) = tele_readiness t"
  by (simp_all add: mark_def offer_def http_request_def handle_http_def SetReadiness_def within_labels_def Let_def)

lemma readiness_writes [simp]:
  "tele_readiness (mark b t) = (tele_readiness t)\<lparr>controllerOn := b\<rparr>"
  "tele_readiness (offer m t) = (tele_readiness t)\<lparr>readiness_policies := Some m\<rparr>"
  by (simp_all add: mark_def offer_def SetControllerRunning_def)

lemma times_observed_simps [simp]:
  "times_observed kind result [] = 0"
  "times_observed kind result (rs @ rs') = times_observed kind result rs + times_observed kind result rs'"
  by (simp_all add: times_observed_def)

lemma process_inv_start:
  assumes "run_state (run_start (Reload depth env yaml) e) w = (Some (Inr p), w')"
  shows "process_inv depth env yaml e w [] start_coord (mark False (proc_telemetry p))"
proof -
  have "wf_manager env \<lparr>current = first_policies depth env yaml (stored_policy e w)\<rparr>"
    "Current \<lparr>current = first_policies depth env yaml (stored_policy e w)\<rparr> =
       last_valid (policy_Decode depth env yaml) None (seen_payloads e w [])"
    by (auto simp: wf_manager_def Current_def first_policies_def seen_payloads_def clonePolicySet_wf[OF policy_Decode_wf]
        dest: policy_Decode_wf split: option.splits sum.splits)
  then show ?thesis using run_start_fresh[OF assms]
    by (simp add: process_inv_def run_start_outcome[OF assms] fresh_metrics_def start_coord_def)
qed

lemma process_run_inv:
  assumes "run_state (run_start (Reload depth env yaml) e) w = (Some (Inr p), w')"
  shows "process_run (Reload depth env yaml) apps c (proc_telemetry p) evs s t \<Longrightarrow> process_inv depth env yaml e w evs s t"
proof (induction rule: process_run.induct)
  case begins
  show ?case by (rule process_inv_start[OF assms])
next
  case (coordinator evs s t s')
  then show ?case by (auto simp: process_inv_def intro: rtranclp.rtrancl_into_rtrancl)
next
  case (reports evs s t r)
  have "coord_step s (s\<lparr>controller_on := controllerOn (tele_readiness (report_step r t))\<rparr>)"
    unfolding coord_step_def using leader_step.toggles[OF reports(2)] by blast
  moreover have "times_observed kind result [r] =
      (case r of Reconciled event \<Rightarrow> if [kind, result] = [Workload_Kind (Obs_Workload event), Obs_Result event] then 1 else 0 | _ \<Rightarrow> 0)"
    for kind result by (auto simp: times_observed_def split: report.splits)
  ultimately show ?case
    using reports.IH within_labels_step[OF program_report_regular[OF reports(3)], of t]
    by (auto simp: process_inv_def readiness_step reconciliations_step seen_payloads_def intro: rtranclp.rtrancl_into_rtrancl)
next
  case (reloads evs s t manager payload err manager')
  then have wf: "wf_manager env manager"
    and cur: "Current manager = last_valid (policy_Decode depth env yaml) None (seen_payloads e w evs)"
    by (auto simp: process_inv_def)
  from manager.reload_tracks(1,2)[OF wf reloads(3)] cur reloads.IH show ?case
    by (simp add: process_inv_def seen_payloads_def last_valid_append)
next
  case (http evs s t prometheus path)
  then show ?case by (simp add: process_inv_def)
qed

section \<open>Properties\<close>

lemma last_valid_some:
  "last_valid decode acc ds = None \<longleftrightarrow> acc = None \<and> \<not> (\<exists>d ps. d \<in> set ds \<and> decode d = Some (Inr ps))"
  by (induction ds arbitrary: acc) (auto split: option.splits sum.splits)

text \<open>
  C34: the readiness endpoint tells the truth, at any moment of any run of the process after a start-up: with
  the coordinator switching the running mark, the controller reporting, and the policy watch reloading the
  manager. It answers 200 exactly when the coordinator's mark is on, the state document was loaded at
  the start-up or a reconciliation has succeeded since, and a valid policy payload has been seen, the stored
  one or one that was reloaded since; and 503 otherwise, with the exported gauge set to the same answer. The
  mark is on only between the moment the leader callback starts the controller and the moment it clears
  the mark, so a replica that was never elected, or whose callback is over, is not
  ready. The health endpoint answers 200 in every state.
\<close>

theorem readyz_truthful:
  assumes "run_state (run_start (Reload depth env yaml) e) w = (Some (Inr p), w')"
    and "process_run (Reload depth env yaml) apps c (proc_telemetry p) evs s t"
  shows "case http_request prometheus ''/readyz'' t of (answer, t') \<Rightarrow>
     (status answer = 200 \<longleftrightarrow> controller_on s \<and> (\<not> isl (fst (first_load e w)) \<or> some_success (reports_in evs)) \<and>
        (\<exists>payload ps. payload \<in> set (seen_payloads e w evs) \<and> policy_Decode depth env yaml payload = Some (Inr ps))) \<and>
     (status answer = 200 \<or> status answer = 503) \<and> ready (tele_metrics t') = (if status answer = 200 then 1 else 0) \<and>
     (controller_on s \<longrightarrow> leader_active (leader s)) \<and> status (fst (http_request prometheus ''/healthz'' t)) = 200"
proof -
  have inv: "process_inv depth env yaml e w evs s t" by (rule process_run_inv[OF assms])
  then have "coord_inv s" using coord_inv_reachable by (simp add: process_inv_def)
  then have "controller_on s \<longrightarrow> leader_active (leader s)" by (simp add: coord_inv_def)
  moreover have "Ready (tele_readiness t) \<longleftrightarrow> controller_on s \<and> (\<not> isl (fst (first_load e w)) \<or> some_success (reports_in evs)) \<and>
      (\<exists>payload ps. payload \<in> set (seen_payloads e w evs) \<and> policy_Decode depth env yaml payload = Some (Inr ps))"
    using inv last_valid_some[of "policy_Decode depth env yaml" None "seen_payloads e w evs"]
    by (auto simp: process_inv_def Ready_def PolicyReady_def)
  ultimately show ?thesis
    by (simp add: http_request_def handle_http_def SetReadiness_def boolFloat_def json_response_def Let_def)
qed

text \<open>
  For the example, a cluster with one Deployment and one policy for it, on a process whose start-up found neither
  policy nor state: the replica is elected, the policy arrives, and the first pass succeeds.
\<close>

definition worker_apps :: "int apps_client" where
  "worker_apps = one_workload\<lparr>Deployments_List := \<lambda>_. ret (Inr [\<lparr>Apps_Meta = \<lparr>Meta_Namespace = ''shop'', Meta_Name = ''worker'',
     Meta_UID = ''u1'', Meta_Labels = []\<rparr>, Apps_Containers = [(''app'', ''app:v1'')]\<rparr>])\<rparr>"

definition worker_set :: PolicySet where
  "worker_set = worker_policies\<lparr>Policies := [worker_policy ''base'' 1]\<rparr>"

definition worker_controller :: "int Controller" where
  "worker_controller = \<lparr>c_List = \<lambda>_. ret (Inr []), c_WatchWorkloads = ret None, c_WatchHPAs = ret None,
     c_Current = ret (Some worker_set), c_WatchPolicies = ret None, c_Reconcile = \<lambda>_ _. ret (zeroDecision, None), c_ctx_Err = ret None,
     c_interval = 0, c_retryDelay = 0, c_handleError = \<lambda>_. ret (), c_observer = noopObserver\<rparr>"

definition worker :: Workload where
  "worker = \<lparr>Workload_Kind = KindDeployment, Workload_Namespace = ''shop'', Workload_Name = ''worker'', Workload_UID = ''u1'',
     Workload_Labels = [], Workload_Containers = [\<lparr>Container_Name = ''app'', Container_Image = ''app:v1''\<rparr>], Workload_CurrentReplicas = 0\<rparr>"

definition worker_success :: ReconcileObservation where
  "worker_success = \<lparr>Obs_Workload = worker, Obs_Policy = ''base'', Obs_Reason = Reason zeroDecision, Obs_Result = ''success'',
     Obs_Decision = zeroDecision, Obs_Err = None\<rparr>"

lemma worker_matched:
  "policy_Match worker_set KindDeployment ''worker'' [] = \<lparr>Result_Policy = Some (worker_policy ''base'' 1), ConflictNames = []\<rparr>"
  by (simp add: policy_Match_def worker_set_def worker_policies_def worker_policy_def target_matches_def selectorMatches_def
      namePatternMatches_def)

lemma worker_report: "program_report worker_apps worker_controller (Reconciled worker_success)"
proof -
  obtain k where k: "main_controller worker_apps worker_controller = Inr k"
    by (simp add: main_controller_def NewController_def)
  have "run_state (serve k full_request) (5, []) = ((), (5, [Reconciled worker_success]))"
    using k by (auto simp: main_controller_def NewController_def main_options_def serve_def reconcileAll_def reconcileOne_def
        reporting_def worker_controller_def worker_apps_def one_workload_def gateway_List_def ListDeployments_def ListStatefulSets_def
        run_unlogged run_logged WorkloadFromDeployment_def fromPodTemplate_def worker_matched Conflict_def worker_success_def worker_def Let_def)
  with k activity.passes[of k] show ?thesis unfolding program_report_def by (metis list.set_intros(1))
qed

definition worker_events :: "process_event list" where
  "worker_events = [Loaded ''v'', Reported (Reconciled worker_success)]"

lemma elected_run:
  obtains s where "process_run reload apps c t0 [] s (mark True t0)" "leader s = RunnerOn" "controller_on s"
proof -
  let ?a = "start_coord\<lparr>leader := Entered\<rparr>"
  let ?b = "?a\<lparr>leader := Passed\<rparr>"
  let ?c = "?b\<lparr>leader := Stored, leader_started := True\<rparr>"
  let ?d = "?c\<lparr>leader := RunnerOn, controller_on := True, began_live := \<not> run_ctx_done ?c\<rparr>"
  have quiet: "process_run reload apps c t0 evs s t \<Longrightarrow> leader_step s s' \<Longrightarrow> leader s \<noteq> RunnerOn \<Longrightarrow>
      process_run reload apps c t0 evs s' (mark (controller_on s') t)" for evs s s' t
    by (rule process_run.coordinator) (auto simp: coord_step_def)
  have "leader_step start_coord ?a" "leader_step ?a ?b" "leader_step ?b ?c" "leader_step ?c ?d"
    by (rule leader_step.elected leader_step.passed leader_step.stored leader_step.runs; simp add: start_coord_def run_ctx_done_def)+
  then have "process_run reload apps c t0 [] ?d (mark (controller_on ?d) (mark (controller_on ?c) (mark (controller_on ?b)
      (mark (controller_on ?a) (mark False t0)))))"
    by (intro quiet[OF quiet[OF quiet[OF quiet[OF process_run.begins]]]]) (simp_all add: start_coord_def)
  then show thesis by (intro that[of ?d]) (simp_all add: mark_def SetControllerRunning_def)
qed

lemma worker_run:
  obtains p w' s t where "run_state (run_start (Reload 9 sample_env sample_yaml) broken_start) () = (Some (Inr p), w')"
    "process_run (Reload 9 sample_env sample_yaml) worker_apps worker_controller (proc_telemetry p) worker_events s t" "controller_on s"
proof -
  obtain p w' where p: "run_state (run_start (Reload 9 sample_env sample_yaml) broken_start) () = (Some (Inr p), w')"
    using broken_starts by blast
  let ?run = "process_run (Reload 9 sample_env sample_yaml) worker_apps worker_controller (proc_telemetry p)"
  obtain s where s: "?run [] s (mark True (proc_telemetry p))" "leader s = RunnerOn" "controller_on s" by (rule elected_run)
  obtain m' where "Reload 9 sample_env sample_yaml \<lparr>current = None\<rparr> ''v'' = Some (None, m')"
    using sample_decode by (auto simp: Reload_def)
  then have "?run ([] @ [Loaded ''v'']) s (offer m' (mark True (proc_telemetry p)))"
    by (intro process_run.reloads[OF s(1)]) (auto simp: run_start_outcome[OF p] broken_start_facts(5) first_policies_def)
  from process_run.reports[OF this s(2) worker_report] p that show thesis
    by (auto simp: worker_events_def tele_defs worker_success_def SetDependenciesReady_def)
qed

theorem readyz_truthful_witness:
  "\<exists>p w' s t. run_state (run_start (Reload 9 sample_env sample_yaml) broken_start) () = (Some (Inr p), w') \<and>
     process_run (Reload 9 sample_env sample_yaml) worker_apps worker_controller (proc_telemetry p) worker_events s t \<and>
     status (fst (http_request (\<lambda>_. json_response 200 []) ''/readyz'' t)) = 200 \<and> leader_active (leader s)"
proof -
  obtain p w' s t where run: "run_state (run_start (Reload 9 sample_env sample_yaml) broken_start) () = (Some (Inr p), w')"
    "process_run (Reload 9 sample_env sample_yaml) worker_apps worker_controller (proc_telemetry p) worker_events s t" "controller_on s"
    by (rule worker_run)
  have "some_success (reports_in worker_events)" "''v'' \<in> set (seen_payloads broken_start () worker_events)"
    by (auto simp: worker_events_def reports_in_def payloads_in_def seen_payloads_def some_success_def worker_success_def)
  with readyz_truthful[OF run(1,2), of "\<lambda>_. json_response 200 []"] run sample_decode show ?thesis
    by (intro exI[of _ p] exI[of _ w'] exI[of _ s] exI[of _ t]) (auto split: prod.splits)
qed

text \<open>
  C35: metrics are exact and of bounded size. In every run of the process after a start-up, whatever the
  cluster contains and answers, whatever the watches deliver and the transitions return, and however long it
  runs, the counters export at most 6, 18, 16 and 5 time series: workloads come from the gateway's lists
  and the merged watch stream, which have the two supported kinds only, a reconciliation is observed with one
  of three results, errors are reported by two components, reasons are mapped to nine values, and
  identities are never labels. And the count of a kind and result is the number of observed
  reconciliations with them.
\<close>

theorem metrics_bounded:
  assumes "run_state (run_start (Reload depth env yaml) e) w = (Some (Inr p), w')"
    and "process_run (Reload depth env yaml) apps c (proc_telemetry p) evs s t"
  shows "card (series (reconciliations (tele_metrics t))) \<le> 6 \<and> card (series (decisions (tele_metrics t))) \<le> 18 \<and>
    card (series (errors (tele_metrics t))) \<le> 16 \<and> card (series (policyReloads (tele_metrics t))) \<le> 5 \<and>
    reconciliations (tele_metrics t) [kind, result] = times_observed kind result (reports_in evs)"
proof -
  have "process_inv depth env yaml e w evs s t" by (rule process_run_inv[OF assms])
  then show ?thesis using within_labels_card[of "tele_metrics t"] unfolding process_inv_def by blast
qed

theorem metrics_bounded_witness:
  "\<exists>p w' s t. run_state (run_start (Reload 9 sample_env sample_yaml) broken_start) () = (Some (Inr p), w') \<and>
     process_run (Reload 9 sample_env sample_yaml) worker_apps worker_controller (proc_telemetry p) worker_events s t \<and>
     reconciliations (tele_metrics t) [''Deployment'', ''success''] = 1 \<and> card (series (reconciliations (tele_metrics t))) \<le> 6"
proof -
  obtain p w' s t where run: "run_state (run_start (Reload 9 sample_env sample_yaml) broken_start) () = (Some (Inr p), w')"
    "process_run (Reload 9 sample_env sample_yaml) worker_apps worker_controller (proc_telemetry p) worker_events s t"
    by (rule worker_run)
  have "times_observed ''Deployment'' ''success'' (reports_in worker_events) = 1"
    by (simp add: worker_events_def reports_in_def times_observed_def worker_success_def worker_def)
  with metrics_bounded[OF run, of "''Deployment''" "''success''"] run show ?thesis by metis
qed

end
