(* ===== verification/Spec2Isabelle.thy ===== *)
theory Spec2Isabelle
  imports Expiry Wire_Codec Telemetry_Run
begin

text \<open>
  Verification of the Kubernetes workload lifecycle controller.

  The program watches Deployments and StatefulSets of a cluster. A policy document, kept in a ConfigMap,
  says which workloads it governs; inside the down windows of a policy's schedule it scales a workload
  down and afterwards restores the replica count it had, and a workload whose container images have not
  changed for the policy's maximal age expires: it is scaled to the expired target or deleted. The counts
  to restore and the age of each revision live in a second ConfigMap.

  \<^bold>\<open>The parts and their theories\<close> (paths under \<^verbatim>\<open>src/internal\<close> unless they say otherwise)

  \<^item> \<open>Prelude\<close>: Go errors with wrapping (\<open>goerr\<close>, \<open>errors_Is\<close>), results, strings, \<^verbatim>\<open>strconv.Atoi\<close>, maps,
    effectful code as a state monad with weakest preconditions (\<open>wp\<close>), recorded calls (\<open>logged\<close>,
    \<open>emits\<close>) and the erasure of the recording (\<open>erases\<close>).
  \<^item> \<open>Systems\<close>: transition systems for the goroutines below: invariants (locale \<open>invariant_system\<close>), goals
    that can be reached (\<open>progress\<close>), infinite runs that are weakly or strongly fair to a step, and goals
    that fair runs reach (\<open>fair_progress\<close>).
  \<^item> \<open>GoTime\<close>: instants, durations and civil time of package \<^verbatim>\<open>time\<close>; a location is a function from
    instants to offsets, so daylight saving is covered.
  \<^item> \<open>Schedule\<close> (\<^verbatim>\<open>schedule/\<close>): \<open>ValidateWindow\<close>, \<open>schedule_Match\<close>, \<open>window_matches\<close>, \<open>parseMinute\<close>,
    \<open>WindowInstanceID\<close>. Matching refines the occurrences of windows on a time line, and identifiers name
    occurrences.
  \<^item> \<open>Lifecycle\<close> and \<open>Revision\<close> (\<^verbatim>\<open>lifecycle/decision.go\<close>, \<^verbatim>\<open>revision.go\<close>): \<open>Decide\<close> and
    \<open>CalculateRevision\<close>; when the engine deletes, the snapshot discipline of its decisions, canonical
    revisions and what their hashes identify. SHA-256 is the parameter \<open>Sum256\<close>.
  \<^item> \<open>Policy\<close> (\<^verbatim>\<open>policy/types.go\<close>, \<^verbatim>\<open>raw.go\<close>, \<^verbatim>\<open>validate.go\<close>, \<^verbatim>\<open>matcher.go\<close>): compilation of the raw
    document with every error, well-formedness of what it yields, and matching by priority.
  \<^item> \<open>Policy_Manager\<close> (\<^verbatim>\<open>policy/decode.go\<close>, \<^verbatim>\<open>manager.go\<close>, \<^verbatim>\<open>watch.go\<close>): strict decoding, the manager that
    keeps the last valid set (locale \<open>policy_provider\<close>), and the watch stream as a step relation.
  \<^item> \<open>Workload\<close> and \<open>Watch_Streams\<close> (\<^verbatim>\<open>workload/\<close>): conversion of API objects, listing, HPA admission,
    scale reads and writes, deletion; and the forwarding goroutines of the two watch streams (locale
    \<open>forwarder\<close>), for every interleaving.
  \<^item> \<open>State_Document\<close> and \<open>State_Store\<close> (\<^verbatim>\<open>state/\<close>): the persisted document, its validation, coding and
    cleanup, and its ConfigMap store with creation, capacity limit and conflict retries (locales
    \<open>recording_store\<close>, \<open>erasing_store\<close>). \<open>State_Roundtrip\<close>: what is saved is what is loaded, for every API that
    lets the store read its own writes and every JSON codec that reads its output back, both stated as
    hypotheses (\<open>reads_own_writes\<close>, \<open>reads_back\<close>); and the retries of Save against an API without any
    hypothesis. \<open>Wire_Codec\<close> shows that the hypotheses can hold, with a codec for whole documents and an API
    whose other writers change the object.
  \<^item> \<open>Transition\<close> (\<^verbatim>\<open>controller/transition.go\<close>): \<open>Reconcile\<close>, the transition of one workload. Its theorems
    speak of the trace of its external actions and hold whatever the cluster answers (locale
    \<open>reconciler_deps\<close>, interpreted on the Kubernetes reconciler).
  \<^item> \<open>Reconcile_Machine\<close> and \<open>Histories\<close>: the abstract specification of \<open>Reconcile\<close> with dependencies that
    work, a pure function on the phase of a workload and its replica count, with the refinement theorem, for a
    store that keeps what it is given and for one that validates every document it saves and loads (locale
    \<open>memory_world\<close>, interpreted on both); and on the latter the orderly histories of a workload:
    reconciliations at a sequence of times that does not run backwards, of a workload that no HPA targets.
    \<open>Expiry\<close> has those of workloads past their maximal age.
  \<^item> \<open>Orchestrator\<close> and \<open>Controller_Run\<close> (\<^verbatim>\<open>controller/orchestrator.go\<close>): \<open>reconcileOne\<close> and \<open>reconcileAll\<close>;
    and \<open>Run\<close> as a transition system of the loop and the three supervisors.
  \<^item> \<open>Composition\<close>: the controller over the Kubernetes gateway and reconciler; what a full pass may do. This
    theory adds the policy watch: which policies the pass enforces.
  \<^item> \<open>Observability\<close> (\<^verbatim>\<open>observability/\<close>): metrics, readiness, telemetry, HTTP handlers.
    \<open>Telemetry_Run\<close>: the telemetry in the running process, which the controller built by
    \<^verbatim>\<open>cmd/controller/main.go\<close> reports to while the coordinator switches its running mark and the policy watch
    reloads the manager behind it.
  \<^item> \<open>Runtime\<close> (\<^verbatim>\<open>runtime/\<close>): the coordinator of HTTP server, leader election and controller as a
    transition system; election configuration and leader identity.
  \<^item> \<open>Commands\<close> (\<^verbatim>\<open>src/cmd/controller/main.go\<close>, \<^verbatim>\<open>src/hack/verify-manifest.go\<close>): the start-up of the
    process over the store and the metrics, the exit status that follows from it and from the coordinator,
    and the platform check of image manifests.

  \<^bold>\<open>How the parts interact.\<close> The policy watch reloads the manager and, like the workload and HPA watches,
  makes a supervisor send a request over an unbuffered channel; the loop serves one request at a time. For
  each workload it asks the manager for the policies, matches, and runs \<open>Reconcile\<close>, which admits the
  workload past the HPA check, calculates the revision, loads the document, settles identity, window,
  redeploys and overrides, decides, and applies the decision in the order that keeps a snapshot stored
  before any scale write. Telemetry observes each outcome; the coordinator runs all of it only while the
  replica leads.

  \<^bold>\<open>What is shown.\<close> Safety of single actions (a scale write is backed by a stored
  snapshot, deletions are of proven expired objects, saves touch one workload and stay valid, admission
  fails closed), of storage (durable saves, loads that damage nothing, strict decoding), and of a full
  pass, which enforces the last valid policies that the watch delivered; over any orderly history of
  reconciliations, that the replica count follows the schedule down and back up, that before expiry an
  override and a redeploy inside a window are respected until it ends, and that an expired workload is held
  at its target until a redeploy restores it; that what is saved is what is loaded, that saving retries
  exactly on conflicts, and that a failed save has written nothing; that matching and compilation mean what
  the document says, matching where the zone's offset is that of the day before; that streams and requests are not lost or reordered, and the policy stream does not close
  without saying why; that after a cancellation the controller, the workload streams and the coordinator
  end in every fair run, with no cause of a failure hidden; that readiness, metrics and an exit status
  of zero tell the truth; and how start-up degrades with broken dependencies, and when it crashes.
  Four theorems show flaws: a replaced snapshot, a redeploy that goes unnoticed, a window at a time
  change at midnight, and a document with a self-referential alias.

  \<^bold>\<open>Bounds and fuel.\<close> \<open>rejectNulls\<close> takes the depth of the call stack as fuel, and \<open>None\<close> is its
  exhaustion, which ends the process; a depth above the depth of an acyclic document is enough, and no
  depth is for a cyclic one, both proved. The conflict retry of the store recurses on the number of steps
  of the backoff, as the loop of the source counts. Every other function is total. Replica counts, which
  are \<^verbatim>\<open>int32\<close> in the source, are only compared, copied and replaced by a minimum, so they are integers
  here; instants and durations are integer nanoseconds, without the overflow of \<^verbatim>\<open>int64\<close> durations
  after 292 years.

  \<^bold>\<open>Parameters.\<close> Code outside the repository is an argument of the definitions that use it: the typed
  Kubernetes clients, \<^verbatim>\<open>apierrors\<close>, the YAML and JSON decoders, regular expressions, label selectors,
  duration parsing, the time zone database, SHA-256, the clock, the lease protocol, UUIDs. The world they
  act on has an arbitrary type, and where a theorem needs something of them it says so as a hypothesis. Orderly histories run the
  reconciler on a world of its own, a replica count and a stored document, where every call succeeds.

  \<^bold>\<open>Not modelled.\<close> \<^verbatim>\<open>lifecycle/clock.go\<close>, a call of \<^verbatim>\<open>time.Now\<close>; of the two \<^verbatim>\<open>main\<close> functions the delivery
  of signals, the standard streams and the log output, which are calls of the operating system; the log
  records beyond the attributes that telemetry selects, and the Prometheus text format; constructors that
  only store their argument; tests, manifests and documentation.
\<close>

section \<open>From the policy watch to the cluster\<close>

text \<open>The policies of the last valid payload among those of the first \<open>k\<close> watch events, or those from before.\<close>

definition policies_after ::
  "nat \<Rightarrow> policy_env \<Rightarrow> yaml_env \<Rightarrow> ConfigMapWatcher \<Rightarrow> Manager \<Rightarrow> raw_event list \<Rightarrow> nat \<Rightarrow> PolicySet option" where
  "policies_after depth env yaml watcher m events k =
     last_valid (policy_Decode depth env yaml) (Current m) (concat (map (payload_of watcher) (take k events)))"

definition watched_run ::
  "'w apps_client \<Rightarrow> (string \<Rightarrow> string) \<Rightarrow> PolicySet option \<Rightarrow> Workload \<times> Policy \<times> action list \<Rightarrow> bool" where
  "watched_run apps Sum256 policies = (\<lambda>(v, p, tr). api_listed apps v \<and>
     (\<exists>ps. policies = Some ps \<and> top_of ps v = {p}) \<and> ok_trace (justified Sum256 v p) tr)"

lemma governed_watched:
  assumes "governed apps c Sum256 acts" "c_Current c = ret policies"
  obtains runs where "acts = run_actions runs" "list_all (watched_run apps Sum256 policies) runs"
proof -
  from assms(1) obtain runs where runs: "acts = run_actions runs" "list_all (governed_run apps c Sum256) runs"
    unfolding governed_def by blast
  have "watched_run apps Sum256 policies run" if "governed_run apps c Sum256 run" for run
    using that assms(2) by (auto simp: governed_run_def watched_run_def governs_def)
  then have "list_all (watched_run apps Sum256 policies) runs" using runs(2) by (auto simp: list_all_iff)
  with runs(1) show thesis by (rule that)
qed

text \<open>
  C3: the policies that were written are the policies that are enforced. Let the watch of the policy
  ConfigMap have run in any way, and let a full pass run with the manager as the watch left it. Then
  everything the pass does to the cluster falls apart into justified runs of listed workloads, each under
  the unique matching policy of highest priority of the last valid payload among the events that were
  consumed; invalid payloads, deletions and errors change nothing. And as long as there was no valid
  payload, the pass does nothing at all.
\<close>

theorem pass_follows_watched_policies:
  assumes "(forward_step (convert (Reload depth env yaml) FromObject watcher))\<^sup>*\<^sup>* (start_stream (Some m) events) s"
    and "wf_manager env m" and "c_Current c = ret (Option.bind (stream_manager s) Current)"
  shows "\<exists>w' acts k runs.
    run_state (reconcileAll (kube_controller apps (kube_reconciler apps store clock Sum256 LoadLocation) c)) (w, []) = ((), (w', acts)) \<and>
    pending s = drop k events \<and> acts = run_actions runs \<and>
    list_all (watched_run apps Sum256 (policies_after depth env yaml watcher m events k)) runs \<and>
    (policies_after depth env yaml watcher m events k = None \<longrightarrow> acts = [])"
proof -
  have "stream_inv depth env yaml watcher m events (start_stream (Some m) events)"
    using assms(2) by (rule stream_inv_start)
  then have "stream_inv depth env yaml watcher m events s" by (rule policy_stream.reachable_inv[OF assms(1)])
  then obtain k n where k: "pending s = drop k events" "stream_manager s = Some n"
    "Current n = policies_after depth env yaml watcher m events k"
    unfolding stream_inv_def policies_after_def by blast
  obtain w' acts where run: "run_state (reconcileAll (kube_controller apps (kube_reconciler apps store clock Sum256 LoadLocation) c)) (w, []) =
      ((), (w', acts))" "governed apps c Sum256 acts"
    using emits_run[OF kinds_governed[of apps store clock Sum256 LoadLocation c "[KindDeployment, KindStatefulSet]"], of w]
    by (auto simp: reconcileAll_def)
  have "c_Current c = ret (policies_after depth env yaml watcher m events k)" using assms(3) k by simp
  from governed_watched[OF run(2) this] obtain runs where runs: "acts = run_actions runs"
    "list_all (watched_run apps Sum256 (policies_after depth env yaml watcher m events k)) runs" by blast
  moreover have "acts = []" if "policies_after depth env yaml watcher m events k = None"
    using runs that by (cases runs) (auto simp: watched_run_def)
  ultimately show ?thesis using run(1) k(1) by (intro exI[of _ w'] exI[of _ acts] exI[of _ k] exI[of _ runs]) simp
qed

text \<open>A controller for the example that takes its policies from the watch, over a cluster that lists one Deployment.\<close>

definition watching :: "stream_state \<Rightarrow> int Controller" where
  "watching s = \<lparr>c_List = \<lambda>_. ret (Inr []), c_WatchWorkloads = ret None, c_WatchHPAs = ret None,
     c_Current = ret (Option.bind (stream_manager s) Current),
     c_WatchPolicies = ret None, c_Reconcile = \<lambda>_ _. ret (zeroDecision, None), c_ctx_Err = ret None,
     c_interval = DefaultReconcileInterval, c_retryDelay = DefaultWatchRetryDelay, c_handleError = \<lambda>_. ret (),
     c_observer = noopObserver\<rparr>"

definition one_deployment :: "int apps_client" where
  "one_deployment = one_workload\<lparr>Deployments_List := \<lambda>_. ret (Inr [\<lparr>Apps_Meta = \<lparr>Meta_Namespace = ''shop'', Meta_Name = ''api'',
     Meta_UID = ''u1'', Meta_Labels = []\<rparr>, Apps_Containers = [(''app'', ''app:v1'')]\<rparr>])\<rparr>"

theorem pass_follows_watched_policies_witness:
  "\<exists>s n w' acts k runs. stream_manager s = Some n \<and> Current n \<noteq> None \<and>
    run_state (reconcileAll (kube_controller one_deployment
      (kube_reconciler one_deployment blank_store (ret friday_evening) zero_digest (\<lambda>_. Inl io_EOF)) (watching s))) (5, []) = ((), (w', acts)) \<and>
    pending s = drop k sample_events \<and> acts = run_actions runs \<and>
    list_all (watched_run one_deployment zero_digest
      (policies_after 9 sample_env sample_yaml sample_watcher \<lparr>current = None\<rparr> sample_events k)) runs"
proof -
  obtain s n where s: "(forward_step (convert (Reload 9 sample_env sample_yaml) (\<lambda>_. io_EOF) sample_watcher))\<^sup>*\<^sup>*
      (start_stream (Some \<lparr>current = None\<rparr>) sample_events) s" "stream_manager s = Some n" "Current n \<noteq> None" by (rule sample_stream)
  have "c_Current (watching s) = ret (Option.bind (stream_manager s) Current)" by (simp add: watching_def)
  from pass_follows_watched_policies[OF s(1) wf_empty_manager this, of one_deployment blank_store "ret friday_evening" zero_digest "\<lambda>_. Inl io_EOF" 5]
  obtain w' acts k runs where
    "run_state (reconcileAll (kube_controller one_deployment
      (kube_reconciler one_deployment blank_store (ret friday_evening) zero_digest (\<lambda>_. Inl io_EOF)) (watching s))) (5, []) = ((), (w', acts))"
    "pending s = drop k sample_events" "acts = run_actions runs"
    "list_all (watched_run one_deployment zero_digest
      (policies_after 9 sample_env sample_yaml sample_watcher \<lparr>current = None\<rparr> sample_events k)) runs" by blast
  with s(2,3) show ?thesis
    by (intro exI[of _ s] exI[of _ n] exI[of _ w'] exI[of _ acts] exI[of _ k] exI[of _ runs] conjI)
qed

end
